theory Spec2Isabelle
  imports Main "HOL-Library.Word"
begin

unbundle bit_operations_syntax

section \<open>Machine integers, bytes and raw colours\<close>

text \<open>
  The renderer (\<^verbatim>\<open>src/VT100/src/TRenderer.cpp\<close>) keeps its coordinates, sizes and
  escape-sequence parameters in C++ \<^verbatim>\<open>unsigned\<close> (32 bit) variables.  They are modelled
  as \<open>nat\<close>.  A subtraction of the source that no comparison guards is written with
  \<open>usub\<close>, which wraps around below zero as the C++ subtraction does; sums and products
  of parameters that come from the byte stream are reduced with \<open>u32\<close>.  Sums and products of surface
  coordinates (pixel indices, byte offsets) stay below the buffer size on every
  well-formed renderer and are left as they are.

  Raw colours (\<^verbatim>\<open>CDisplay::TRawColor\<close>, a \<^verbatim>\<open>u32\<close>) are 32-bit words, the bytes of the
  pixel buffer are 8-bit words.  The target is a little-endian ARM core, where
  \<^verbatim>\<open>char\<close> is unsigned.
\<close>

type_synonym byte = "8 word"
type_synonym TRawColor = "32 word"

definition usub :: "nat \<Rightarrow> nat \<Rightarrow> nat" where
  "usub a b = (if b \<le> a then a - b else a + 4294967296 - b)"

definition u32 :: "nat \<Rightarrow> nat" where
  "u32 n = n mod 4294967296"

text \<open>The signed difference \<^verbatim>\<open>(int)(a - b)\<close> of two tick counters.\<close>

definition sdiff :: "nat \<Rightarrow> nat \<Rightarrow> int" where
  "sdiff a b = sint (word_of_nat (usub a b) :: 32 word)"

section \<open>The pixel buffer\<close>

text \<open>
  \<^verbatim>\<open>m_pBuffer8\<close>, \<^verbatim>\<open>m_pBuffer16\<close> and \<^verbatim>\<open>m_pBuffer32\<close> are one array seen through a union.
  The model keeps the bytes; a 16- or 32-bit element with index \<open>i\<close> occupies the bytes
  from \<open>2 * i\<close> or \<open>4 * i\<close>, low byte first.  An access outside the array is undefined
  behaviour in the source: the model leaves the list as it is on such a write and reads
  an unspecified byte, and the theorems below only speak about accesses inside the array.
\<close>

definition le_bytes :: "nat \<Rightarrow> TRawColor \<Rightarrow> byte list" where
  "le_bytes k c = map (\<lambda>j. ucast (drop_bit (8 * j) c)) [0..<k]"

text \<open>\<open>store_pattern buf off pat cnt\<close>: \<open>cnt\<close> consecutive copies of the element \<open>pat\<close>
  written from byte offset \<open>off\<close> (the loops \<^verbatim>\<open>while (n--) *p++ = v;\<close>).\<close>

definition store_pattern :: "byte list \<Rightarrow> nat \<Rightarrow> byte list \<Rightarrow> nat \<Rightarrow> byte list" where
  "store_pattern buf off pat cnt =
     map (\<lambda>i. if off \<le> i \<and> i < off + cnt * length pat
               then pat ! ((i - off) mod length pat) else buf ! i)
         [0..<length buf]"

definition load_le :: "byte list \<Rightarrow> nat \<Rightarrow> nat \<Rightarrow> TRawColor" where
  "load_le buf off k =
     foldr (\<lambda>j acc. ucast (buf ! (off + j)) OR push_bit 8 acc) [0..<k] 0"

text \<open>\<^verbatim>\<open>memmove (buf + dst, buf + src, n)\<close> inside one buffer.  The \<^verbatim>\<open>memcpy\<close> of
  \<^verbatim>\<open>Scroll\<close> copies towards lower addresses (\<^verbatim>\<open>pTo < pFrom\<close>), where a forward copy
  gives the same bytes.\<close>

definition memmove_buf :: "byte list \<Rightarrow> nat \<Rightarrow> nat \<Rightarrow> nat \<Rightarrow> byte list" where
  "memmove_buf buf dst src n =
     map (\<lambda>i. if dst \<le> i \<and> i < dst + n then buf ! (i - dst + src) else buf ! i)
         [0..<length buf]"

text \<open>\<^verbatim>\<open>SetRawPixel\<close> and \<^verbatim>\<open>GetRawPixel\<close> on the bytes, by colour depth.\<close>

definition set_raw :: "nat \<Rightarrow> nat \<Rightarrow> byte list \<Rightarrow> nat \<Rightarrow> nat \<Rightarrow> TRawColor \<Rightarrow> byte list" where
  "set_raw depth width buf nPosX nPosY nColor =
     (let i = width * nPosY + nPosX in
      if depth = 1 then
        (let uchMask = drop_bit (nPosX mod 8) (0x80 :: byte) in
         buf[i div 8 := (if nColor \<noteq> 0 then buf ! (i div 8) OR uchMask
                         else buf ! (i div 8) AND NOT uchMask)])
      else if depth = 8 then store_pattern buf i (le_bytes 1 nColor) 1
      else if depth = 16 then store_pattern buf (2 * i) (le_bytes 2 nColor) 1
      else if depth = 32 then store_pattern buf (4 * i) (le_bytes 4 nColor) 1
      else buf)"

definition get_raw :: "nat \<Rightarrow> nat \<Rightarrow> byte list \<Rightarrow> nat \<Rightarrow> nat \<Rightarrow> TRawColor" where
  "get_raw depth width buf nPosX nPosY =
     (let i = width * nPosY + nPosX in
      if depth = 1 then
        (let uchMask = drop_bit (nPosX mod 8) (0x80 :: byte) in
         if buf ! (i div 8) AND uchMask \<noteq> 0 then 1 else 0)
      else if depth = 8 then load_le buf i 1
      else if depth = 16 then load_le buf (2 * i) 2
      else if depth = 32 then load_le buf (4 * i) 4
      else 0)"


text \<open>The element written by the background fills: one byte \<^verbatim>\<open>0xFF\<close> or \<^verbatim>\<open>0\<close> for
  depth 1, the low bytes of the colour otherwise.\<close>

definition fill_pat :: "nat \<Rightarrow> TRawColor \<Rightarrow> byte list" where
  "fill_pat depth c =
     (if depth = 1 then [if c \<noteq> 0 then 0xFF else 0] else le_bytes (depth div 8) c)"

text \<open>The values of \<open>x\<close> in \<^verbatim>\<open>for (x = nPosX; x < limit; x += step)\<close>.  With
  \<open>step = 0\<close> the source would not leave the loop; a character generator has a cell
  width of at least one pixel (\<^verbatim>\<open>SetFont\<close> divides by it), so the model stops there.\<close>

function loop_cells :: "nat \<Rightarrow> nat \<Rightarrow> nat \<Rightarrow> nat list" where
  "loop_cells nPosX limit step =
     (if nPosX < limit \<and> 0 < step then nPosX # loop_cells (nPosX + step) limit step else [])"
  by pat_completeness auto
termination
  by (relation "measure (\<lambda>(x, l, s). l - x)") auto

declare loop_cells.simps [simp del]

text \<open>Painting one colour into the rectangle of \<open>w\<close> by \<open>h\<close> pixels at \<open>(nPosX, nPosY)\<close>:
  the nested loops of \<^verbatim>\<open>EraseChar\<close>.\<close>

definition paint_rect ::
  "nat \<Rightarrow> nat \<Rightarrow> byte list \<Rightarrow> nat \<Rightarrow> nat \<Rightarrow> nat \<Rightarrow> nat \<Rightarrow> TRawColor \<Rightarrow> byte list" where
  "paint_rect depth width buf nPosX nPosY w h c =
     fold (\<lambda>y. fold (\<lambda>x b. set_raw depth width b (nPosX + x) (nPosY + y) c) [0..<w])
          [0..<h] buf"

section \<open>The renderer state\<close>

datatype TState =
    StateStart | StateEscape | StateVT52Row | StateVT52Col | StateBracket | StateNumber1
  | StateQuestionMark | StateSemicolon | StateNumber2 | StateNumber3 | StateAutoPage
  | StateFontChange | StateSkipTillCRLF | StateG0 | StateG1

datatype ECharacterSet = CharSetUS | CharSetGraphics

datatype EFontSelection =
    VT100Font8x20 | VT100Font10x20 | VT100Font10x20Solid
  | VT100GraphicsFont8x20 | VT100GraphicsFont10x20 | VT100GraphicsFont10x20Solid

datatype TFontFlags =
  FontFlagsNone | FontFlagsDoubleWidth | FontFlagsDoubleHeight | FontFlagsDoubleBoth

text \<open>The four brightness factors are \<^verbatim>\<open>float\<close> members; the model only names which
  one is handed to \<^verbatim>\<open>AdjustBrightness565\<close>.\<close>

datatype TScale =
  BoldScaleFactor | DimScaleFactor | ReverseBackgroundScaleFactor | ReverseForegroundScaleFactor

text \<open>A font table of the Circle library (\<^verbatim>\<open>TFont\<close>), known by its identity only.\<close>

type_synonym TFont = nat

text \<open>Circle's \<^verbatim>\<open>CCharGenerator\<close>, as far as the renderer asks it: the cell size, the
  underline row and \<^verbatim>\<open>GetPixel (x, GetPixelLine (ch, y))\<close>.\<close>

record CCharGenerator =
  GetCharWidth :: nat
  GetCharHeight :: nat
  GetUnderline :: nat
  GetPixel :: "char \<Rightarrow> nat \<Rightarrow> nat \<Rightarrow> bool"

text \<open>What the renderer reads from its collaborators during one call: the tick counter
  (\<^verbatim>\<open>CTimer::Get()->GetTicks()\<close>, one reading per call), the macro \<^verbatim>\<open>MSEC2HZ\<close>, the
  wrap-around flag of the configuration, the font catalogue, the allocator
  (\<^verbatim>\<open>new CCharGenerator\<close> gives \<open>None\<close> when it fails, \<^verbatim>\<open>new TRawColor[n]\<close> succeeds or not)
  and the floating-point brightness scaling.\<close>

record environment =
  GetTicks :: nat
  MSEC2HZ :: "nat \<Rightarrow> nat"
  GetWrapAroundEnabled :: bool
  GetFont :: "EFontSelection \<Rightarrow> TFont"
  new_CCharGenerator :: "TFont \<Rightarrow> TFontFlags \<Rightarrow> CCharGenerator option"
  new_CursorPixels :: "nat \<Rightarrow> bool"
  AdjustBrightness565 :: "TRawColor \<Rightarrow> TScale \<Rightarrow> TRawColor"

record TArea =
  y1 :: nat
  y2 :: nat

text \<open>The members of \<^verbatim>\<open>TRendererState\<close> that \<^verbatim>\<open>SaveCursor\<close> writes and
  \<^verbatim>\<open>RestoreCursor\<close> reads in \<^verbatim>\<open>m_SavedState\<close>.\<close>

record TRendererState =
  fontFlags :: TFontFlags
  foreground :: TRawColor
  background :: TRawColor
  defaultForeground :: TRawColor
  defaultBackground :: TRawColor
  cursorX :: nat
  cursorY :: nat
  reverseAttribute :: bool
  boldAttribute :: bool
  underlineAttribute :: bool
  blinkAttribute :: bool

text \<open>The members of \<^verbatim>\<open>CTRenderer\<close>.  A pointer is an option (\<open>None\<close> is
  \<^verbatim>\<open>nullptr\<close>).  \<open>m_TabStops\<close> is the tab-stop array of \<^verbatim>\<open>CTConfig\<close>, which the
  interpreter sets and clears.\<close>

record renderer =
  m_pFont :: "TFont option"
  m_FontFlags :: TFontFlags
  m_pCharGen :: "CCharGenerator option"
  m_pGraphicsCharGen :: "CCharGenerator option"
  m_CurrentFontSelection :: EFontSelection
  m_G0CharSet :: ECharacterSet
  m_G1CharSet :: ECharacterSet
  m_bUseG1 :: bool
  m_pCursorPixels :: "TRawColor list option"
  m_pBuffer8 :: "byte list"
  m_nSize :: nat
  m_nPitch :: nat
  m_nWidth :: nat
  m_nHeight :: nat
  m_nUsedWidth :: nat
  m_nUsedHeight :: nat
  m_nDepth :: nat
  m_UpdateArea :: TArea
  m_State :: TState
  m_nScrollStart :: nat
  m_nScrollEnd :: nat
  m_nCursorX :: nat
  m_nCursorY :: nat
  m_bCursorOn :: bool
  m_bCursorBlock :: bool
  m_bBlinkingCursor :: bool
  m_bCursorVisible :: bool
  m_nCursorBlinkPeriodTicks :: nat
  m_nNextCursorBlink :: nat
  m_ForegroundColor :: TRawColor
  m_BackgroundColor :: TRawColor
  m_DefaultForegroundColor :: TRawColor
  m_DefaultBackgroundColor :: TRawColor
  m_bReverseAttribute :: bool
  m_bBoldAttribute :: bool
  m_bDimAttribute :: bool
  m_bUnderlineAttribute :: bool
  m_bBlinkAttribute :: bool
  m_bInsertOn :: bool
  m_bVT52Mode :: bool
  m_nParam1 :: nat
  m_nParam2 :: nat
  m_bAutoPage :: bool
  m_bDelayedUpdate :: bool
  m_bSmoothScrollEnabled :: bool
  m_bSmoothScrollActive :: bool
  m_bSmoothScrollDown :: bool
  m_nSmoothScrollStartY :: nat
  m_nSmoothScrollEndY :: nat
  m_nSmoothScrollOffset :: nat
  m_nSmoothScrollStep :: nat
  m_nSmoothScrollLastTick :: nat
  m_nSmoothScrollTickInterval :: nat
  m_pSmoothScrollSnapshot :: "byte list option"
  m_pSmoothScrollCompose :: "byte list option"
  m_nSmoothScrollBufferSize :: nat
  m_nSmoothScrollStartTick :: nat
  m_nSmoothScrollDebounceUntil :: nat
  m_ScrollNormalTicksAccum :: nat
  m_ScrollSmoothTicksAccum :: nat
  m_ScrollNormalCount :: nat
  m_ScrollSmoothCount :: nat
  m_SavedState :: TRendererState
  m_TabStops :: "bool list"

text \<open>\<^verbatim>\<open>m_pCharGen->GetCharWidth()\<close> and its siblings.  Through a null pointer the
  source crashes; the model reads 0 there, and every theorem about an operation that
  dereferences \<open>m_pCharGen\<close> assumes a generator.\<close>

definition CharWidth :: "renderer \<Rightarrow> nat" where
  "CharWidth s = (case m_pCharGen s of None \<Rightarrow> 0 | Some g \<Rightarrow> GetCharWidth g)"

definition CharHeight :: "renderer \<Rightarrow> nat" where
  "CharHeight s = (case m_pCharGen s of None \<Rightarrow> 0 | Some g \<Rightarrow> GetCharHeight g)"

definition Underline :: "renderer \<Rightarrow> nat" where
  "Underline s = (case m_pCharGen s of None \<Rightarrow> 0 | Some g \<Rightarrow> GetUnderline g)"

definition GlyphPixel :: "renderer \<Rightarrow> char \<Rightarrow> nat \<Rightarrow> nat \<Rightarrow> bool" where
  "GlyphPixel s c x y = (case m_pCharGen s of None \<Rightarrow> False | Some g \<Rightarrow> GetPixel g c x y)"

definition GetColumns :: "renderer \<Rightarrow> nat" where
  "GetColumns s = (case m_pCharGen s of None \<Rightarrow> 0 | Some g \<Rightarrow> m_nWidth s div GetCharWidth g)"

definition GetRows :: "renderer \<Rightarrow> nat" where
  "GetRows s = (case m_pCharGen s of None \<Rightarrow> 0 | Some g \<Rightarrow> m_nHeight s div GetCharHeight g)"

definition SetUpdateArea :: "nat \<Rightarrow> nat \<Rightarrow> renderer \<Rightarrow> renderer" where
  "SetUpdateArea nPosY1 nPosY2 s =
     s\<lparr>m_UpdateArea :=
         \<lparr>y1 = (if nPosY1 < y1 (m_UpdateArea s) then nPosY1 else y1 (m_UpdateArea s)),
          y2 = (if nPosY2 > y2 (m_UpdateArea s) then nPosY2 else y2 (m_UpdateArea s))\<rparr>\<rparr>"

definition SetRawPixel :: "nat \<Rightarrow> nat \<Rightarrow> TRawColor \<Rightarrow> renderer \<Rightarrow> renderer" where
  "SetRawPixel nPosX nPosY nColor s =
     s\<lparr>m_pBuffer8 := set_raw (m_nDepth s) (m_nWidth s) (m_pBuffer8 s) nPosX nPosY nColor\<rparr>"


definition IsTabStop :: "bool list \<Rightarrow> nat \<Rightarrow> bool" where
  "IsTabStop ts column = (if column \<ge> 160 then False else ts ! column)"

definition SetTabStop :: "nat \<Rightarrow> bool \<Rightarrow> bool list \<Rightarrow> bool list" where
  "SetTabStop column enabled ts = (if column \<ge> 160 then ts else ts[column := enabled])"

section \<open>Cursor drawing\<close>

definition cursor_cells :: "nat \<Rightarrow> nat \<Rightarrow> nat \<Rightarrow> (nat \<times> nat) list" where
  "cursor_cells y0 w h = concat (map (\<lambda>y. map (\<lambda>x. (x, y)) [0..<w]) [y0..<h])"

text \<open>The two bodies of the loop of \<^verbatim>\<open>InvertCursor\<close>; \<open>k\<close> counts \<^verbatim>\<open>pPixelData++\<close>.\<close>

fun invert_store ::
  "nat \<Rightarrow> nat \<Rightarrow> nat \<Rightarrow> nat \<Rightarrow> TRawColor \<Rightarrow> (nat \<times> nat) list \<Rightarrow> nat
     \<Rightarrow> byte list \<times> TRawColor list \<Rightarrow> byte list \<times> TRawColor list" where
  "invert_store d w cx cy m [] k (buf, pix) = (buf, pix)"
| "invert_store d w cx cy m ((x, y) # cs) k (buf, pix) =
     (let storedPixel = get_raw d w buf (cx + x) (cy + y) in
      invert_store d w cx cy m cs (Suc k)
        (set_raw d w buf (cx + x) (cy + y) (storedPixel XOR m), pix[k := storedPixel]))"

fun invert_restore ::
  "nat \<Rightarrow> nat \<Rightarrow> nat \<Rightarrow> nat \<Rightarrow> TRawColor list \<Rightarrow> (nat \<times> nat) list \<Rightarrow> nat
     \<Rightarrow> byte list \<Rightarrow> byte list" where
  "invert_restore d w cx cy pix [] k buf = buf"
| "invert_restore d w cx cy pix ((x, y) # cs) k buf =
     invert_restore d w cx cy pix cs (Suc k) (set_raw d w buf (cx + x) (cy + y) (pix ! k))"

definition InvertCursor :: "renderer \<Rightarrow> renderer" where
  "InvertCursor s =
     (if \<not> m_bCursorOn s then s
      else case m_pCursorPixels s of
        None \<Rightarrow> s
      | Some pix \<Rightarrow>
         (let y0 = (if m_bCursorBlock s then 0 else Underline s);
              mask0 = m_ForegroundColor s XOR m_BackgroundColor s;
              invertMask =
                (if mask0 = 0 then
                   (if m_nDepth s = 1 then 0x1 else if m_nDepth s = 8 then 0xFF
                    else if m_nDepth s = 16 then 0xFFFF else 0xFFFFFFFF)
                 else mask0);
              cells = cursor_cells y0 (CharWidth s) (CharHeight s);
              s' =
                (if \<not> m_bCursorVisible s then
                   (case invert_store (m_nDepth s) (m_nWidth s) (m_nCursorX s) (m_nCursorY s)
                           invertMask cells 0 (m_pBuffer8 s, pix) of
                      (buf, pix') \<Rightarrow> s\<lparr>m_pBuffer8 := buf, m_pCursorPixels := Some pix'\<rparr>)
                 else
                   s\<lparr>m_pBuffer8 :=
                       invert_restore (m_nDepth s) (m_nWidth s) (m_nCursorX s) (m_nCursorY s)
                         pix cells 0 (m_pBuffer8 s)\<rparr>)
          in SetUpdateArea (m_nCursorY s + y0) (usub (m_nCursorY s + CharHeight s) 1)
               (s'\<lparr>m_bCursorVisible := \<not> m_bCursorVisible s\<rparr>)))"

section \<open>Fonts\<close>

text \<open>\<^verbatim>\<open>SetFont (const TFont &, TFontFlags)\<close>.  The result is the returned flag and the
  renderer after the call.  \<^verbatim>\<open>delete m_pCharGen\<close> comes before the allocation of the
  new generator.  The divisions by the new cell size trap in the source when the size
  is 0; no font of the catalogue has such a cell.\<close>

definition gfxSelection :: "EFontSelection \<Rightarrow> EFontSelection" where
  "gfxSelection sel =
     (case sel of
        VT100Font8x20 \<Rightarrow> VT100GraphicsFont8x20
      | VT100Font10x20 \<Rightarrow> VT100GraphicsFont10x20
      | VT100Font10x20Solid \<Rightarrow> VT100GraphicsFont10x20Solid
      | _ \<Rightarrow> VT100GraphicsFont10x20)"

definition SetFont_failed :: "bool \<Rightarrow> bool \<Rightarrow> renderer \<Rightarrow> bool \<times> renderer" where
  "SetFont_failed cursorWasVisible blinkingWasEnabled s =
     (False, (if cursorWasVisible then s\<lparr>m_bCursorVisible := False\<rparr> else s)
               \<lparr>m_bBlinkingCursor := blinkingWasEnabled\<rparr>)"

text \<open>The column and row of the cursor under the old generator.\<close>

definition old_column :: "renderer \<Rightarrow> nat" where
  "old_column s =
     (case m_pCharGen s of None \<Rightarrow> 0
      | Some g \<Rightarrow> if GetCharWidth g \<noteq> 0 then m_nCursorX s div GetCharWidth g else 0)"

definition old_row :: "renderer \<Rightarrow> nat" where
  "old_row s =
     (case m_pCharGen s of None \<Rightarrow> 0
      | Some g \<Rightarrow> if GetCharHeight g \<noteq> 0 then m_nCursorY s div GetCharHeight g else 0)"

text \<open>Blinking is switched off and a visible cursor is taken off the surface.\<close>

definition SetFont_hide :: "renderer \<Rightarrow> renderer" where
  "SetFont_hide s =
     (if m_bCursorVisible s then InvertCursor (s\<lparr>m_bBlinkingCursor := False\<rparr>)
      else s\<lparr>m_bBlinkingCursor := False\<rparr>)"

text \<open>The cleared cursor scratch buffer, the font and the used size for generator \<open>g\<close>.\<close>

definition SetFont_geometry :: "CCharGenerator \<Rightarrow> TFont \<Rightarrow> TFontFlags \<Rightarrow> renderer \<Rightarrow> renderer" where
  "SetFont_geometry g rFont FontFlags s =
     s\<lparr>m_pCursorPixels := Some (replicate (GetCharWidth g * GetCharHeight g) 0),
       m_pFont := Some rFont,
       m_FontFlags := FontFlags,
       m_nUsedWidth := m_nWidth s div GetCharWidth g * GetCharWidth g,
       m_nUsedHeight := m_nHeight s div GetCharHeight g * GetCharHeight g,
       m_nScrollEnd := m_nHeight s div GetCharHeight g * GetCharHeight g\<rparr>"

text \<open>The cursor goes back to its column and row, clamped to the new counts.\<close>

definition SetFont_cursor :: "nat \<Rightarrow> nat \<Rightarrow> renderer \<Rightarrow> renderer" where
  "SetFont_cursor cursorColumn cursorRow s =
     (let newColumns = GetColumns s;
          newRows = GetRows s
      in s\<lparr>m_nCursorX :=
              (if newColumns > 0
               then (if cursorColumn \<ge> newColumns then newColumns - 1 else cursorColumn) * CharWidth s
               else 0),
            m_nCursorY :=
              (if newRows > 0
               then (if cursorRow \<ge> newRows then newRows - 1 else cursorRow) * CharHeight s
               else 0)\<rparr>)"

text \<open>The cursor is drawn again if it was visible and is enabled; blinking is restored.\<close>

definition SetFont_redraw :: "environment \<Rightarrow> bool \<Rightarrow> bool \<Rightarrow> renderer \<Rightarrow> renderer" where
  "SetFont_redraw env cursorWasVisible blinkingWasEnabled s =
     (let s1 = s\<lparr>m_bCursorVisible := False\<rparr>;
          s2 = (if cursorWasVisible \<and> m_bCursorOn s1 then InvertCursor s1 else s1);
          s3 = s2\<lparr>m_bBlinkingCursor := blinkingWasEnabled\<rparr>
      in if m_bBlinkingCursor s3
         then s3\<lparr>m_nNextCursorBlink := u32 (GetTicks env + m_nCursorBlinkPeriodTicks s3)\<rparr>
         else s3)"

definition SetFont :: "environment \<Rightarrow> TFont \<Rightarrow> TFontFlags \<Rightarrow> renderer \<Rightarrow> bool \<times> renderer" where
  "SetFont env rFont FontFlags s =
     (let cursorWasVisible = m_bCursorVisible s;
          blinkingWasEnabled = m_bBlinkingCursor s;
          cursorColumn = old_column s;
          cursorRow = old_row s;
          s1 = (SetFont_hide s)\<lparr>m_pCharGen := None\<rparr>
      in case new_CCharGenerator env rFont FontFlags of
           None \<Rightarrow> SetFont_failed cursorWasVisible blinkingWasEnabled s1
         | Some g \<Rightarrow>
            (let s2 = s1\<lparr>m_pCharGen := Some g,
                         m_pGraphicsCharGen :=
                           new_CCharGenerator env
                             (GetFont env (gfxSelection (m_CurrentFontSelection s1))) FontFlags,
                         m_pCursorPixels := None\<rparr>
             in if \<not> new_CursorPixels env (GetCharWidth g * GetCharHeight g)
                then SetFont_failed cursorWasVisible blinkingWasEnabled (s2\<lparr>m_pCharGen := None\<rparr>)
                else (True,
                      SetFont_redraw env cursorWasVisible blinkingWasEnabled
                        (SetFont_cursor cursorColumn cursorRow
                           (SetFont_geometry g rFont FontFlags s2)))))"

text \<open>\<^verbatim>\<open>SetFont (EFontSelection, TFontFlags)\<close>.\<close>

definition SetFontSelection ::
  "environment \<Rightarrow> EFontSelection \<Rightarrow> TFontFlags \<Rightarrow> renderer \<Rightarrow> bool \<times> renderer" where
  "SetFontSelection env selection FontFlags s =
     SetFont env (GetFont env selection) FontFlags (s\<lparr>m_CurrentFontSelection := selection\<rparr>)"

section \<open>The scroll engine\<close>

definition BeginSmoothScrollAnimation ::
  "environment \<Rightarrow> nat \<Rightarrow> nat \<Rightarrow> bool \<Rightarrow> renderer \<Rightarrow> bool \<times> renderer" where
  "BeginSmoothScrollAnimation env nStartY nEndY bScrollDown s =
     (case (m_pCharGen s, m_pSmoothScrollSnapshot s, m_pSmoothScrollCompose s) of
        (Some g, Some snapshot, Some compose) \<Rightarrow>
          (if m_bSmoothScrollEnabled s then
             (let now = GetTicks env in
              if m_bSmoothScrollActive s \<or> sdiff (m_nSmoothScrollDebounceUntil s) now > 0
              then (False, s)
              else if nStartY \<ge> m_nHeight s \<or> nEndY \<ge> m_nHeight s \<or> nStartY \<ge> nEndY
              then (False, s)
              else if GetCharHeight g < 2 then (False, s)
              else
                (let regionHeight = u32 (usub nEndY nStartY + 1);
                     regionBytes = regionHeight * m_nPitch s
                 in if regionBytes > m_nSmoothScrollBufferSize s then (False, s)
                    else
                      (let frameMs0 = 170 div GetCharHeight g;
                           frameMs = (if frameMs0 = 0 then 1 else frameMs0);
                           interval0 = MSEC2HZ env frameMs;
                           interval = (if interval0 = 0 then 1 else interval0)
                       in (True,
                           s\<lparr>m_pSmoothScrollSnapshot :=
                                Some (take regionBytes (drop (nStartY * m_nPitch s) (m_pBuffer8 s))
                                      @ drop regionBytes snapshot),
                             m_nSmoothScrollStartY := nStartY,
                             m_nSmoothScrollEndY := nEndY,
                             m_bSmoothScrollDown := bScrollDown,
                             m_nSmoothScrollTickInterval := interval,
                             m_nSmoothScrollStep := 1,
                             m_nSmoothScrollOffset := 1,
                             m_nSmoothScrollLastTick := now,
                             m_nSmoothScrollStartTick := now,
                             m_nSmoothScrollDebounceUntil := u32 (now + MSEC2HZ env 50),
                             m_bSmoothScrollActive := True\<rparr>))))
           else (False, s))
      | _ \<Rightarrow> (False, s))"

text \<open>One row of the frame composed by \<^verbatim>\<open>RenderSmoothScrollFrame\<close>: a row of the
  snapshot, or the live row of the pixel buffer.\<close>

definition compose_row :: "renderer \<Rightarrow> byte list \<Rightarrow> nat \<Rightarrow> byte list" where
  "compose_row s snapshot y =
     (let regionHeight = u32 (usub (m_nSmoothScrollEndY s) (m_nSmoothScrollStartY s) + 1);
          offset = m_nSmoothScrollOffset s;
          fillBackground =
            (if m_bSmoothScrollDown s then y < offset else y + offset \<ge> regionHeight);
          srcY = (if m_bSmoothScrollDown s then y - offset else y + offset)
      in if \<not> fillBackground
         then take (m_nPitch s) (drop (srcY * m_nPitch s) snapshot)
         else take (m_nPitch s) (drop ((m_nSmoothScrollStartY s + y) * m_nPitch s) (m_pBuffer8 s)))"

text \<open>\<^verbatim>\<open>RenderSmoothScrollFrame\<close> writes the compose buffer and pushes it to the display;
  the push (\<^verbatim>\<open>SetArea\<close>) leaves the renderer as it is.\<close>

definition RenderSmoothScrollFrame :: "renderer \<Rightarrow> renderer" where
  "RenderSmoothScrollFrame s =
     (if \<not> m_bSmoothScrollActive s then s
      else case (m_pSmoothScrollSnapshot s, m_pSmoothScrollCompose s) of
        (Some snapshot, Some compose) \<Rightarrow>
          (let regionHeight = u32 (usub (m_nSmoothScrollEndY s) (m_nSmoothScrollStartY s) + 1);
               frame = concat (map (compose_row s snapshot) [0..<regionHeight])
           in s\<lparr>m_pSmoothScrollCompose := Some (frame @ drop (length frame) compose)\<rparr>)
      | _ \<Rightarrow> s)"

text \<open>\<^verbatim>\<open>Update\<close>, the periodic tick.\<close>

definition Update :: "environment \<Rightarrow> renderer \<Rightarrow> renderer" where
  "Update env s =
     (let now = GetTicks env;
          s1 =
            (if m_bSmoothScrollActive s \<and> sdiff now (m_nSmoothScrollLastTick s) \<ge> 0 then
               (let s' = RenderSmoothScrollFrame s in
                if m_nSmoothScrollOffset s' + m_nSmoothScrollStep s' < CharHeight s'
                then s'\<lparr>m_nSmoothScrollOffset := m_nSmoothScrollOffset s' + m_nSmoothScrollStep s',
                        m_nSmoothScrollLastTick := u32 (now + m_nSmoothScrollTickInterval s')\<rparr>
                else
                  (if m_nSmoothScrollStartTick s' \<noteq> 0
                   then s'\<lparr>m_ScrollSmoothTicksAccum :=
                              m_ScrollSmoothTicksAccum s' + usub now (m_nSmoothScrollStartTick s'),
                            m_ScrollSmoothCount := u32 (m_ScrollSmoothCount s' + 1)\<rparr>
                   else s')\<lparr>m_bSmoothScrollActive := False\<rparr>)
             else s)
      in if \<not> m_bSmoothScrollActive s1 \<and> y1 (m_UpdateArea s1) \<le> y2 (m_UpdateArea s1)
         then s1\<lparr>m_UpdateArea := \<lparr>y1 = m_nHeight s1, y2 = 0\<rparr>\<rparr>
         else s1)"

text \<open>The bookkeeping at the end of the three scroll operations, when no animation
  was started.  Both tick readings of one call are the same reading.\<close>

definition count_normal_scroll :: "bool \<Rightarrow> renderer \<Rightarrow> renderer" where
  "count_normal_scroll smoothStarted s =
     (if \<not> smoothStarted then s\<lparr>m_ScrollNormalCount := u32 (m_ScrollNormalCount s + 1)\<rparr> else s)"

definition Scroll :: "environment \<Rightarrow> renderer \<Rightarrow> renderer" where
  "Scroll env s0 =
     (case BeginSmoothScrollAnimation env (m_nScrollStart s0) (usub (m_nScrollEnd s0) 1) False s0 of
        (smoothStarted, s) \<Rightarrow>
          (let nLines = CharHeight s;
               pTo = m_nScrollStart s * m_nPitch s;
               pFrom = (m_nScrollStart s + nLines) * m_nPitch s;
               nSize = u32 (m_nPitch s * usub (usub (m_nScrollEnd s) (m_nScrollStart s)) nLines);
               buf1 = (if nSize \<noteq> 0 then memmove_buf (m_pBuffer8 s) pTo pFrom nSize
                       else m_pBuffer8 s);
               pTo' = (if nSize \<noteq> 0 then pTo + nSize else pTo);
               nSize' = m_nWidth s * nLines;
               d = m_nDepth s;
               buf2 =
                 (if d = 1 then store_pattern buf1 pTo' (fill_pat d (m_BackgroundColor s)) (nSize' div 8)
                  else if d = 8 \<or> d = 16 \<or> d = 32
                  then store_pattern buf1 pTo' (fill_pat d (m_BackgroundColor s)) nSize'
                  else buf1)
           in count_normal_scroll smoothStarted
                (SetUpdateArea 0 (usub (m_nHeight s) 1) (s\<lparr>m_pBuffer8 := buf2\<rparr>))))"

text \<open>The fill of \<open>clearBytes\<close> bytes in \<^verbatim>\<open>InsertLines\<close> and \<^verbatim>\<open>DeleteLines\<close>.\<close>

definition clear_bytes :: "nat \<Rightarrow> byte list \<Rightarrow> nat \<Rightarrow> nat \<Rightarrow> TRawColor \<Rightarrow> byte list" where
  "clear_bytes d buf pClear clearBytes c =
     (if d = 1 \<or> d = 8 then store_pattern buf pClear (fill_pat d c) clearBytes
      else if d = 16 then store_pattern buf pClear (fill_pat d c) (clearBytes div 2)
      else if d = 32 then store_pattern buf pClear (fill_pat d c) (clearBytes div 4)
      else buf)"

definition DeleteLines :: "environment \<Rightarrow> nat \<Rightarrow> renderer \<Rightarrow> renderer" where
  "DeleteLines env nCount0 s0 =
     (case m_pCharGen s0 of
        None \<Rightarrow> s0
      | Some g \<Rightarrow>
         (let charHeight = GetCharHeight g in
          if nCount0 = 0 \<or> charHeight = 0 then s0
          else if m_nCursorY s0 < m_nScrollStart s0 \<or> m_nCursorY s0 \<ge> m_nScrollEnd s0 then s0
          else
            (let maxLines = (m_nScrollEnd s0 - m_nCursorY s0) div charHeight in
             if maxLines = 0 then s0
             else
              (let nCount = (if nCount0 > maxLines then maxLines else nCount0) in
               case (if nCount = 1
                     then BeginSmoothScrollAnimation env (m_nCursorY s0) (usub (m_nScrollEnd s0) 1) False s0
                     else (False, s0)) of
                 (smoothStarted, s) \<Rightarrow>
                   (let lineBytes = m_nPitch s * charHeight;
                        startOffset = m_nCursorY s * m_nPitch s;
                        endOffset = m_nScrollEnd s * m_nPitch s;
                        deleteBytes = lineBytes * nCount;
                        moveBytes = usub (usub endOffset startOffset) deleteBytes;
                        buf1 = (if moveBytes > 0
                                then memmove_buf (m_pBuffer8 s) startOffset (startOffset + deleteBytes) moveBytes
                                else m_pBuffer8 s);
                        buf2 = clear_bytes (m_nDepth s) buf1 (usub endOffset deleteBytes) deleteBytes
                                 (m_BackgroundColor s)
                    in count_normal_scroll smoothStarted
                         (SetUpdateArea (m_nCursorY s) (usub (m_nScrollEnd s) 1)
                            (s\<lparr>m_pBuffer8 := buf2\<rparr>)))))))"

definition InsertLines :: "environment \<Rightarrow> nat \<Rightarrow> renderer \<Rightarrow> renderer" where
  "InsertLines env nCount0 s0 =
     (case m_pCharGen s0 of
        None \<Rightarrow> s0
      | Some g \<Rightarrow>
         (let charHeight = GetCharHeight g in
          if nCount0 = 0 \<or> charHeight = 0 then s0
          else if m_nCursorY s0 < m_nScrollStart s0 \<or> m_nCursorY s0 \<ge> m_nScrollEnd s0 then s0
          else
            (let maxLines = (m_nScrollEnd s0 - m_nCursorY s0) div charHeight in
             if maxLines = 0 then s0
             else
              (let nCount = (if nCount0 > maxLines then maxLines else nCount0) in
               case (if nCount = 1
                     then BeginSmoothScrollAnimation env (m_nCursorY s0) (usub (m_nScrollEnd s0) 1) True s0
                     else (False, s0)) of
                 (smoothStarted, s) \<Rightarrow>
                   (let lineBytes = m_nPitch s * charHeight;
                        startOffset = m_nCursorY s * m_nPitch s;
                        endOffset = m_nScrollEnd s * m_nPitch s;
                        insertBytes = lineBytes * nCount;
                        moveBytes = usub (usub endOffset startOffset) insertBytes;
                        buf1 = (if moveBytes > 0
                                then memmove_buf (m_pBuffer8 s) (startOffset + insertBytes) startOffset moveBytes
                                else m_pBuffer8 s);
                        buf2 = clear_bytes (m_nDepth s) buf1 startOffset insertBytes
                                 (m_BackgroundColor s)
                    in count_normal_scroll smoothStarted
                         (SetUpdateArea (m_nCursorY s) (usub (m_nScrollEnd s) 1)
                            (s\<lparr>m_pBuffer8 := buf2\<rparr>)))))))"

section \<open>Cursor motion and erasing\<close>

definition CarriageReturn :: "renderer \<Rightarrow> renderer" where
  "CarriageReturn s = s\<lparr>m_nCursorX := 0\<rparr>"

definition CursorDown :: "environment \<Rightarrow> renderer \<Rightarrow> renderer" where
  "CursorDown env s =
     (let s1 = s\<lparr>m_nCursorY := m_nCursorY s + CharHeight s\<rparr> in
      if m_nCursorY s1 \<ge> m_nScrollEnd s1 then
        (if \<not> m_bAutoPage s1 then
           (let s2 = Scroll env s1 in s2\<lparr>m_nCursorY := usub (m_nCursorY s2) (CharHeight s2)\<rparr>)
         else s1\<lparr>m_nCursorY := m_nScrollStart s1\<rparr>)
      else s1)"

definition CursorHome :: "renderer \<Rightarrow> renderer" where
  "CursorHome s = s\<lparr>m_nCursorX := 0, m_nCursorY := m_nScrollStart s\<rparr>"

definition CursorLeft :: "renderer \<Rightarrow> renderer" where
  "CursorLeft s =
     (if m_nCursorX s > 0 then s\<lparr>m_nCursorX := usub (m_nCursorX s) (CharWidth s)\<rparr>
      else if m_nCursorY s > m_nScrollStart s
      then s\<lparr>m_nCursorX := usub (m_nUsedWidth s) (CharWidth s),
             m_nCursorY := usub (m_nCursorY s) (CharHeight s)\<rparr>
      else s)"

definition CursorMove :: "nat \<Rightarrow> nat \<Rightarrow> renderer \<Rightarrow> renderer" where
  "CursorMove nRow nColumn s =
     (let nPosX = u32 (usub nColumn 1 * CharWidth s);
          nPosY = u32 (usub nRow 1 * CharHeight s)
      in if nPosX < m_nUsedWidth s \<and> nPosY < m_nUsedHeight s
         then s\<lparr>m_nCursorX := nPosX, m_nCursorY := nPosY\<rparr>
         else s)"

definition NewLine :: "environment \<Rightarrow> renderer \<Rightarrow> renderer" where
  "NewLine env s = CursorDown env (CarriageReturn s)"

definition CursorRight :: "environment \<Rightarrow> renderer \<Rightarrow> renderer" where
  "CursorRight env s =
     (let s1 = s\<lparr>m_nCursorX := m_nCursorX s + CharWidth s\<rparr> in
      if m_nCursorX s1 \<ge> m_nUsedWidth s1 then NewLine env s1 else s1)"

definition CursorUp :: "renderer \<Rightarrow> renderer" where
  "CursorUp s =
     (if m_nCursorY s > m_nScrollStart s
      then s\<lparr>m_nCursorY := usub (m_nCursorY s) (CharHeight s)\<rparr>
      else s)"

definition EraseChar :: "nat \<Rightarrow> nat \<Rightarrow> renderer \<Rightarrow> renderer" where
  "EraseChar nPosX nPosY s =
     SetUpdateArea nPosY (usub (nPosY + CharHeight s) 1)
       (s\<lparr>m_pBuffer8 :=
            paint_rect (m_nDepth s) (m_nWidth s) (m_pBuffer8 s) nPosX nPosY
              (CharWidth s) (CharHeight s) (m_BackgroundColor s)\<rparr>)"

text \<open>The second loop of \<^verbatim>\<open>ClearLineEnd\<close> paints the columns right of the used width,
  column by column.\<close>

definition paint_margin ::
  "nat \<Rightarrow> nat \<Rightarrow> byte list \<Rightarrow> nat \<Rightarrow> nat \<Rightarrow> nat \<Rightarrow> TRawColor \<Rightarrow> byte list" where
  "paint_margin depth width buf usedWidth nPosY0 h c =
     fold (\<lambda>nPosX. fold (\<lambda>nPosY b. set_raw depth width b nPosX nPosY c) [nPosY0..<nPosY0 + h])
          [usedWidth..<width] buf"

definition ClearLineEnd :: "renderer \<Rightarrow> renderer" where
  "ClearLineEnd s =
     (let s1 = fold (\<lambda>nPosX. EraseChar nPosX (m_nCursorY s))
                 (loop_cells (m_nCursorX s) (m_nUsedWidth s) (CharWidth s)) s
      in s1\<lparr>m_pBuffer8 :=
             paint_margin (m_nDepth s1) (m_nWidth s1) (m_pBuffer8 s1) (m_nUsedWidth s1)
               (m_nCursorY s1) (CharHeight s1) (m_BackgroundColor s1)\<rparr>)"

definition ClearDisplayEnd :: "renderer \<Rightarrow> renderer" where
  "ClearDisplayEnd s0 =
     (let s = ClearLineEnd s0;
          nPosY = m_nCursorY s + CharHeight s;
          nOffset = nPosY * m_nWidth s;
          d = m_nDepth s;
          pat = fill_pat d (m_BackgroundColor s);
          buf = m_pBuffer8 s;
          buf' =
            (if d = 1 then store_pattern buf (nOffset div 8) pat (usub (m_nSize s) (nOffset div 8))
             else if d = 8 then store_pattern buf nOffset pat (usub (m_nSize s) nOffset)
             else if d = 16 then store_pattern buf (2 * nOffset) pat (usub (m_nSize s div 2) nOffset)
             else if d = 32 then store_pattern buf (4 * nOffset) pat (usub (m_nSize s div 4) nOffset)
             else buf)
      in SetUpdateArea (m_nCursorY s) (usub (m_nHeight s) 1) (s\<lparr>m_pBuffer8 := buf'\<rparr>))"

definition ClearDisplay :: "renderer \<Rightarrow> renderer" where
  "ClearDisplay s = ClearDisplayEnd (s\<lparr>m_nCursorX := 0, m_nCursorY := 0\<rparr>)"

definition GetTextBackgroundColor :: "environment \<Rightarrow> renderer \<Rightarrow> TRawColor" where
  "GetTextBackgroundColor env s =
     (if m_bReverseAttribute s
      then AdjustBrightness565 env (m_ForegroundColor s) ReverseBackgroundScaleFactor
      else m_BackgroundColor s)"

definition GetTextColor :: "environment \<Rightarrow> renderer \<Rightarrow> TRawColor" where
  "GetTextColor env s =
     (if m_bReverseAttribute s
      then AdjustBrightness565 env (m_ForegroundColor s) ReverseForegroundScaleFactor
      else m_ForegroundColor s)"

definition DeleteChars :: "environment \<Rightarrow> nat \<Rightarrow> renderer \<Rightarrow> renderer" where
  "DeleteChars env nCount s =
     (case m_pCharGen s of
        None \<Rightarrow> s
      | Some g \<Rightarrow>
         (let charWidth = GetCharWidth g; charHeight = GetCharHeight g in
          if nCount = 0 \<or> charWidth = 0 \<or> charHeight = 0 then s
          else if m_nCursorX s \<ge> m_nUsedWidth s then s
          else
           (let maxShift = m_nUsedWidth s - m_nCursorX s;
                pixelWidth = (if u32 (nCount * charWidth) > maxShift then maxShift
                              else u32 (nCount * charWidth))
            in if pixelWidth = 0 then s
               else
                (let bgColor = GetTextBackgroundColor env s;
                     startY = m_nCursorY s;
                     endY = m_nCursorY s + charHeight;
                     shiftEndX = m_nUsedWidth s - pixelWidth;
                     d = m_nDepth s; w = m_nWidth s;
                     buf' =
                       fold (\<lambda>y b.
                              fold (\<lambda>x b. set_raw d w b x y bgColor) [shiftEndX..<m_nUsedWidth s]
                                (fold (\<lambda>x b. set_raw d w b x y (get_raw d w b (x + pixelWidth) y))
                                   [m_nCursorX s..<shiftEndX] b))
                            [startY..<endY] (m_pBuffer8 s)
                 in SetUpdateArea startY (usub endY 1) (s\<lparr>m_pBuffer8 := buf'\<rparr>)))))"

definition EraseChars :: "nat \<Rightarrow> renderer \<Rightarrow> renderer" where
  "EraseChars nCount s =
     (if nCount = 0 then s
      else
       (let nEndX0 = u32 (m_nCursorX s + u32 (nCount * CharWidth s));
            nEndX = (if nEndX0 > m_nUsedWidth s then m_nUsedWidth s else nEndX0)
        in fold (\<lambda>nPosX. EraseChar nPosX (m_nCursorY s))
             (loop_cells (m_nCursorX s) nEndX (CharWidth s)) s))"

definition InsertMode :: "bool \<Rightarrow> renderer \<Rightarrow> renderer" where
  "InsertMode bBegin s = s\<lparr>m_bInsertOn := bBegin\<rparr>"

definition ReverseScroll :: "environment \<Rightarrow> renderer \<Rightarrow> renderer" where
  "ReverseScroll env s = (if m_nCursorY s = m_nScrollStart s then InsertLines env 1 s else s)"

definition SetAutoPageMode :: "bool \<Rightarrow> renderer \<Rightarrow> renderer" where
  "SetAutoPageMode bEnable s = s\<lparr>m_bAutoPage := bEnable\<rparr>"

definition SetCursorMode :: "bool \<Rightarrow> renderer \<Rightarrow> renderer" where
  "SetCursorMode bVisible s = s\<lparr>m_bCursorOn := bVisible\<rparr>"

definition SetSmoothScrollEnabled :: "bool \<Rightarrow> renderer \<Rightarrow> renderer" where
  "SetSmoothScrollEnabled bEnable s =
     (let s1 = s\<lparr>m_bSmoothScrollEnabled := bEnable\<rparr> in
      if \<not> m_bSmoothScrollEnabled s1 then s1\<lparr>m_bSmoothScrollActive := False\<rparr> else s1)"

definition SetScrollRegion :: "nat \<Rightarrow> nat \<Rightarrow> renderer \<Rightarrow> renderer" where
  "SetScrollRegion nStartRow nEndRow s =
     (let nScrollStart = u32 (usub nStartRow 1 * CharHeight s);
          nScrollEnd = u32 (nEndRow * CharHeight s)
      in CursorHome
           (if nScrollStart < m_nUsedHeight s \<and> nScrollEnd > 0 \<and> nScrollEnd \<le> m_nUsedHeight s
               \<and> nScrollStart < nScrollEnd
            then s\<lparr>m_nScrollStart := nScrollStart, m_nScrollEnd := nScrollEnd\<rparr>
            else s))"

definition SetStandoutMode :: "nat \<Rightarrow> renderer \<Rightarrow> renderer" where
  "SetStandoutMode nMode s =
     (if nMode = 0 then
        s\<lparr>m_bReverseAttribute := False, m_bBlinkAttribute := False, m_bBoldAttribute := False,
          m_bDimAttribute := False, m_bUnderlineAttribute := False,
          m_ForegroundColor := m_DefaultForegroundColor s,
          m_BackgroundColor := m_DefaultBackgroundColor s\<rparr>
      else if nMode = 1 then s\<lparr>m_bBoldAttribute := True\<rparr>
      else if nMode = 2 then s\<lparr>m_bDimAttribute := True\<rparr>
      else if nMode = 4 then s\<lparr>m_bUnderlineAttribute := True\<rparr>
      else if nMode = 5 then s\<lparr>m_bBlinkAttribute := True\<rparr>
      else if nMode = 7 then s\<lparr>m_bReverseAttribute := True\<rparr>
      else if nMode = 27 then s\<lparr>m_bReverseAttribute := False\<rparr>
      else s)"

definition Tabulator :: "environment \<Rightarrow> renderer \<Rightarrow> renderer" where
  "Tabulator env s =
     (case m_pCharGen s of
        None \<Rightarrow> s
      | Some g \<Rightarrow>
         (let charWidth = GetCharWidth g in
          if charWidth = 0 then s
          else
           (let currentCol = m_nCursorX s div charWidth;
                cols = GetColumns s
            in case List.find (IsTabStop (m_TabStops s)) [currentCol + 1..<cols] of
                 Some col \<Rightarrow> s\<lparr>m_nCursorX := col * charWidth\<rparr>
               | None \<Rightarrow>
                  (let nTabWidth = charWidth * 8;
                       s1 = s\<lparr>m_nCursorX := ((m_nCursorX s + nTabWidth) div nTabWidth) * nTabWidth\<rparr>
                   in if m_nCursorX s1 \<ge> m_nUsedWidth s1 then NewLine env s1 else s1))))"

definition BackTabulator :: "renderer \<Rightarrow> renderer" where
  "BackTabulator s =
     (case m_pCharGen s of
        None \<Rightarrow> s
      | Some g \<Rightarrow>
         (let charWidth = GetCharWidth g in
          if charWidth = 0 then s
          else
           (let currentCol = m_nCursorX s div charWidth;
                cols = GetColumns s
            in case (if cols > 0 then List.find (IsTabStop (m_TabStops s)) (rev [0..<currentCol])
                     else None) of
                 Some col \<Rightarrow> s\<lparr>m_nCursorX := col * charWidth\<rparr>
               | None \<Rightarrow>
                  (let tabWidth = charWidth * 8; currentPos = m_nCursorX s in
                   if currentPos \<ge> tabWidth
                   then s\<lparr>m_nCursorX := ((currentPos - 1) div tabWidth) * tabWidth\<rparr>
                   else s\<lparr>m_nCursorX := 0\<rparr>))))"

definition SaveCursor :: "renderer \<Rightarrow> renderer" where
  "SaveCursor s =
     s\<lparr>m_SavedState :=
         \<lparr>fontFlags = m_FontFlags s,
          foreground = m_ForegroundColor s,
          background = m_BackgroundColor s,
          defaultForeground = m_DefaultForegroundColor s,
          defaultBackground = m_DefaultBackgroundColor s,
          cursorX = m_nCursorX s,
          cursorY = m_nCursorY s,
          reverseAttribute = m_bReverseAttribute s,
          boldAttribute = m_bBoldAttribute s,
          underlineAttribute = m_bUnderlineAttribute s,
          blinkAttribute = m_bBlinkAttribute s\<rparr>\<rparr>"

definition RestoreCursor :: "renderer \<Rightarrow> renderer" where
  "RestoreCursor s =
     (let sv = m_SavedState s;
          x = (if cursorX sv < m_nWidth s then cursorX sv
               else (let x0 = m_nWidth s - (m_nWidth s mod CharWidth s)
                     in if x0 > 0 then usub x0 (CharWidth s) else x0));
          y = (if cursorY sv < m_nHeight s then cursorY sv
               else usub (m_nHeight s) (CharHeight s))
      in s\<lparr>m_nCursorX := x, m_nCursorY := y,
            m_bReverseAttribute := reverseAttribute sv,
            m_bBoldAttribute := boldAttribute sv,
            m_bUnderlineAttribute := underlineAttribute sv,
            m_bBlinkAttribute := blinkAttribute sv,
            m_ForegroundColor := foreground sv,
            m_BackgroundColor := background sv,
            m_DefaultForegroundColor := defaultForeground sv,
            m_DefaultBackgroundColor := defaultBackground sv\<rparr>)"

section \<open>Glyph painting\<close>

text \<open>\<^verbatim>\<open>DisplayChar (chChar, nPosX, nPosY, nColor)\<close>.\<close>

definition DisplayCharAt ::
  "environment \<Rightarrow> char \<Rightarrow> nat \<Rightarrow> nat \<Rightarrow> TRawColor \<Rightarrow> renderer \<Rightarrow> renderer" where
  "DisplayCharAt env chChar nPosX nPosY nColor0 s =
     (let nColor =
            (if nColor0 \<noteq> m_BackgroundColor s then
               (if m_bBoldAttribute s then AdjustBrightness565 env nColor0 BoldScaleFactor
                else if m_bDimAttribute s then AdjustBrightness565 env nColor0 DimScaleFactor
                else nColor0)
             else nColor0);
          d = m_nDepth s; w = m_nWidth s;
          cw = CharWidth s; ch = CharHeight s;
          buf1 =
            fold (\<lambda>y. fold (\<lambda>x b. set_raw d w b (nPosX + x) (nPosY + y)
                                   (if GlyphPixel s chChar x y then nColor
                                    else GetTextBackgroundColor env s)) [0..<cw])
                 [0..<ch] (m_pBuffer8 s);
          buf2 =
            (if m_bBoldAttribute s then
               fold (\<lambda>y. fold (\<lambda>x b. if GlyphPixel s chChar (x - 1) y
                                       then set_raw d w b (nPosX + x) (nPosY + y) nColor else b)
                                [1..<cw])
                    [0..<ch] buf1
             else buf1);
          buf3 =
            (if m_bUnderlineAttribute s \<and> Underline s < ch then
               fold (\<lambda>x b. set_raw d w b (nPosX + x) (nPosY + Underline s) nColor) [0..<cw] buf2
             else buf2)
      in SetUpdateArea nPosY (usub (nPosY + ch) 1) (s\<lparr>m_pBuffer8 := buf3\<rparr>))"

text \<open>\<^verbatim>\<open>DisplayChar (chChar)\<close>: paint at the cursor, with the graphics generator for the
  line-drawing range, and advance the cursor.\<close>

definition DisplayChar :: "environment \<Rightarrow> char \<Rightarrow> renderer \<Rightarrow> renderer" where
  "DisplayChar env chChar s =
     (if (32 :: nat) \<le> of_char chChar then
        (let activeSet = (if m_bUseG1 s then m_G1CharSet s else m_G0CharSet s);
             bUseGraphics = (activeSet = CharSetGraphics \<and> (0x60 :: nat) \<le> of_char chChar
                              \<and> (of_char chChar :: nat) \<le> 0x7E);
             swapped = (bUseGraphics \<and> m_pGraphicsCharGen s \<noteq> None);
             s1 = (if swapped then s\<lparr>m_pCharGen := m_pGraphicsCharGen s\<rparr> else s);
             s2 = DisplayCharAt env chChar (m_nCursorX s1) (m_nCursorY s1) (GetTextColor env s1) s1;
             s3 = (if swapped \<and> m_pCharGen s \<noteq> None then s2\<lparr>m_pCharGen := m_pCharGen s\<rparr> else s2)
         in if GetWrapAroundEnabled env then CursorRight env s3
            else
             (let charWidth = CharWidth s3 in
              if charWidth \<noteq> 0 \<and> m_nUsedWidth s3 \<ge> charWidth then
                (let lastColumnX = m_nUsedWidth s3 - charWidth in
                 if m_nCursorX s3 < lastColumnX
                 then s3\<lparr>m_nCursorX := m_nCursorX s3 + charWidth\<rparr>
                 else s3\<lparr>m_nCursorX := lastColumnX\<rparr>)
              else s3))
      else s)"

section \<open>The escape-sequence interpreter\<close>

definition is_digit :: "char \<Rightarrow> bool" where
  "is_digit c = ((48 :: nat) \<le> of_char c \<and> (of_char c :: nat) \<le> 57)"

definition digit_val :: "char \<Rightarrow> nat" where
  "digit_val c = of_char c - 48"

text \<open>The current column for the tab-stop sequences (nothing happens without a
  generator or with a cell width of 0).\<close>

definition set_tab_here :: "bool \<Rightarrow> renderer \<Rightarrow> renderer" where
  "set_tab_here enabled s =
     (case m_pCharGen s of
        None \<Rightarrow> s
      | Some g \<Rightarrow>
         if GetCharWidth g \<noteq> 0
         then s\<lparr>m_TabStops := SetTabStop (m_nCursorX s div GetCharWidth g) enabled (m_TabStops s)\<rparr>
         else s)"

text \<open>\<^verbatim>\<open>case StateStart\<close>.  The margin bell of the default branch only sounds the
  buzzer; it is not part of the renderer.\<close>

definition write_start :: "environment \<Rightarrow> char \<Rightarrow> renderer \<Rightarrow> renderer" where
  "write_start env chChar s =
     (if chChar = CHR 0x08 then CursorLeft s
      else if chChar = CHR 0x09 then Tabulator env s
      else if chChar = CHR 0x0C then ClearDisplay s
      else if chChar = CHR 0x0A then NewLine env s
      else if chChar = CHR 0x0D then CarriageReturn s
      else if chChar = CHR 0x0E then s\<lparr>m_bUseG1 := True\<rparr>
      else if chChar = CHR 0x0F then s\<lparr>m_bUseG1 := False\<rparr>
      else if chChar = CHR 0x1B then s\<lparr>m_State := StateEscape\<rparr>
      else DisplayChar env chChar s)"

text \<open>\<^verbatim>\<open>case StateEscape\<close>, VT52 mode and ANSI mode.\<close>

definition write_escape_vt52 :: "environment \<Rightarrow> char \<Rightarrow> renderer \<Rightarrow> renderer" where
  "write_escape_vt52 env chChar s =
     (if chChar = CHR ''A'' then (CursorUp s)\<lparr>m_State := StateStart\<rparr>
      else if chChar = CHR ''B'' then (CursorDown env s)\<lparr>m_State := StateStart\<rparr>
      else if chChar = CHR ''C'' then (CursorRight env s)\<lparr>m_State := StateStart\<rparr>
      else if chChar = CHR ''D'' then (CursorLeft s)\<lparr>m_State := StateStart\<rparr>
      else if chChar = CHR ''H'' then s\<lparr>m_nCursorX := 0, m_nCursorY := 0, m_State := StateStart\<rparr>
      else if chChar = CHR ''I'' then (ReverseScroll env s)\<lparr>m_State := StateStart\<rparr>
      else if chChar = CHR ''J'' then (ClearDisplayEnd s)\<lparr>m_State := StateStart\<rparr>
      else if chChar = CHR ''K'' then (ClearLineEnd s)\<lparr>m_State := StateStart\<rparr>
      else if chChar = CHR ''Y'' then s\<lparr>m_State := StateVT52Row\<rparr>
      else if chChar = CHR ''<'' then s\<lparr>m_bVT52Mode := False, m_State := StateStart\<rparr>
      else s\<lparr>m_State := StateStart\<rparr>)"

definition write_escape_ansi :: "environment \<Rightarrow> char \<Rightarrow> renderer \<Rightarrow> renderer" where
  "write_escape_ansi env chChar s =
     (if chChar = CHR ''['' then s\<lparr>m_State := StateBracket, m_nParam1 := 0, m_nParam2 := 0\<rparr>
      else if chChar = CHR ''D'' then (CursorDown env s)\<lparr>m_State := StateStart\<rparr>
      else if chChar = CHR ''M'' then (ReverseScroll env s)\<lparr>m_State := StateStart\<rparr>
      else if chChar = CHR ''E'' then (NewLine env (CarriageReturn s))\<lparr>m_State := StateStart\<rparr>
      else if chChar = CHR ''H'' then (set_tab_here True s)\<lparr>m_State := StateStart\<rparr>
      else if chChar = CHR ''7'' then (SaveCursor s)\<lparr>m_State := StateStart\<rparr>
      else if chChar = CHR ''8'' then (RestoreCursor s)\<lparr>m_State := StateStart\<rparr>
      else if chChar = CHR ''#'' then s\<lparr>m_State := StateFontChange\<rparr>
      else if chChar = CHR ''('' then s\<lparr>m_State := StateG0\<rparr>
      else if chChar = CHR '')'' then s\<lparr>m_State := StateG1\<rparr>
      else if chChar = CHR ''d'' then s\<lparr>m_State := StateAutoPage\<rparr>
      else s\<lparr>m_State := StateStart\<rparr>)"

definition write_charset :: "char \<Rightarrow> ECharacterSet \<Rightarrow> ECharacterSet" where
  "write_charset chChar cur =
     (if chChar = CHR ''A'' \<or> chChar = CHR ''B'' then CharSetUS
      else if chChar = CHR ''0'' then CharSetGraphics
      else cur)"

text \<open>\<^verbatim>\<open>case StateFontChange\<close>: the flag returned by \<^verbatim>\<open>SetFont\<close> is dropped.\<close>

definition write_font_change :: "environment \<Rightarrow> char \<Rightarrow> renderer \<Rightarrow> renderer" where
  "write_font_change env chChar s =
     (if chChar = CHR ''3''
      then (snd (SetFontSelection env (m_CurrentFontSelection s) FontFlagsDoubleBoth s))
             \<lparr>m_State := StateStart\<rparr>
      else if chChar = CHR ''4'' then s\<lparr>m_State := StateSkipTillCRLF\<rparr>
      else if chChar = CHR ''5''
      then (snd (SetFontSelection env (m_CurrentFontSelection s) FontFlagsNone s))
             \<lparr>m_State := StateStart\<rparr>
      else if chChar = CHR ''6''
      then (snd (SetFontSelection env (m_CurrentFontSelection s) FontFlagsDoubleWidth s))
             \<lparr>m_State := StateStart\<rparr>
      else s\<lparr>m_State := StateStart\<rparr>)"

definition write_bracket :: "environment \<Rightarrow> char \<Rightarrow> renderer \<Rightarrow> renderer" where
  "write_bracket env chChar s =
     (if chChar = CHR ''Z'' then (BackTabulator s)\<lparr>m_State := StateStart\<rparr>
      else if chChar = CHR ''g'' then (set_tab_here False s)\<lparr>m_State := StateStart\<rparr>
      else if chChar = CHR ''?'' then s\<lparr>m_State := StateQuestionMark\<rparr>
      else if chChar = CHR ''A'' then (CursorUp s)\<lparr>m_State := StateStart\<rparr>
      else if chChar = CHR ''B'' then (CursorDown env s)\<lparr>m_State := StateStart\<rparr>
      else if chChar = CHR ''C'' then (CursorRight env s)\<lparr>m_State := StateStart\<rparr>
      else if chChar = CHR ''D'' then (CursorLeft s)\<lparr>m_State := StateStart\<rparr>
      else if chChar = CHR ''H'' \<or> chChar = CHR ''f'' then (CursorHome s)\<lparr>m_State := StateStart\<rparr>
      else if chChar = CHR ''J'' then (ClearDisplayEnd s)\<lparr>m_State := StateStart\<rparr>
      else if chChar = CHR ''K'' then (ClearLineEnd s)\<lparr>m_State := StateStart\<rparr>
      else if chChar = CHR ''L'' then (InsertLines env 1 s)\<lparr>m_State := StateStart\<rparr>
      else if chChar = CHR ''M'' then (DeleteLines env 1 s)\<lparr>m_State := StateStart\<rparr>
      else if chChar = CHR ''P'' then (DeleteChars env 1 s)\<lparr>m_State := StateStart\<rparr>
      else if chChar = CHR ''m'' then (SetStandoutMode 0 s)\<lparr>m_State := StateStart\<rparr>
      else if is_digit chChar then s\<lparr>m_nParam1 := digit_val chChar, m_State := StateNumber1\<rparr>
      else s\<lparr>m_State := StateStart\<rparr>)"

text \<open>\<^verbatim>\<open>case 'J'\<close> of \<^verbatim>\<open>StateNumber1\<close>.\<close>

definition erase_display :: "renderer \<Rightarrow> renderer" where
  "erase_display s =
     (if m_nParam1 s = 0 then ClearDisplayEnd s
      else if m_nParam1 s = 2 then
        (ClearDisplayEnd (s\<lparr>m_nCursorX := 0, m_nCursorY := 0\<rparr>))
           \<lparr>m_nCursorX := m_nCursorX s, m_nCursorY := m_nCursorY s\<rparr>
      else ClearDisplay s)"

text \<open>\<^verbatim>\<open>case 'g'\<close> of \<^verbatim>\<open>StateNumber1\<close>.\<close>

definition clear_tabs :: "renderer \<Rightarrow> renderer" where
  "clear_tabs s =
     (if m_nParam1 s = 0 then set_tab_here False s
      else if m_nParam1 s = 3
      then s\<lparr>m_TabStops := fold (\<lambda>col. SetTabStop col False) [0..<160] (m_TabStops s)\<rparr>
      else s)"

definition write_number1 :: "environment \<Rightarrow> char \<Rightarrow> renderer \<Rightarrow> renderer" where
  "write_number1 env chChar s =
     (if chChar = CHR ''A''
      then ((CursorUp ^^ (m_nParam1 s - 1)) (CursorUp s))\<lparr>m_State := StateStart\<rparr>
      else if chChar = CHR ''B''
      then ((CursorDown env ^^ (m_nParam1 s - 1)) (CursorDown env s))\<lparr>m_State := StateStart\<rparr>
      else if chChar = CHR ''C''
      then ((CursorRight env ^^ (m_nParam1 s - 1)) (CursorRight env s))\<lparr>m_State := StateStart\<rparr>
      else if chChar = CHR ''D''
      then ((CursorLeft ^^ (m_nParam1 s - 1)) (CursorLeft s))\<lparr>m_State := StateStart\<rparr>
      else if chChar = CHR ''H'' \<or> chChar = CHR ''f''
      then (CursorMove (m_nParam1 s) 1 s)\<lparr>m_State := StateStart\<rparr>
      else if chChar = CHR '';'' then s\<lparr>m_State := StateSemicolon\<rparr>
      else if chChar = CHR ''L'' then (InsertLines env (m_nParam1 s) s)\<lparr>m_State := StateStart\<rparr>
      else if chChar = CHR ''M'' then (DeleteLines env (m_nParam1 s) s)\<lparr>m_State := StateStart\<rparr>
      else if chChar = CHR ''P'' then (DeleteChars env (m_nParam1 s) s)\<lparr>m_State := StateStart\<rparr>
      else if chChar = CHR ''X'' then (EraseChars (m_nParam1 s) s)\<lparr>m_State := StateStart\<rparr>
      else if chChar = CHR ''J'' then (erase_display s)\<lparr>m_State := StateStart\<rparr>
      else if chChar = CHR ''h'' \<or> chChar = CHR ''l''
      then (if m_nParam1 s = 4 then InsertMode (chChar = CHR ''h'') s else s)\<lparr>m_State := StateStart\<rparr>
      else if chChar = CHR ''m'' then (SetStandoutMode (m_nParam1 s) s)\<lparr>m_State := StateStart\<rparr>
      else if chChar = CHR ''g'' then (clear_tabs s)\<lparr>m_State := StateStart\<rparr>
      else if is_digit chChar then
        (let s1 = s\<lparr>m_nParam1 := u32 (u32 (m_nParam1 s * 10) + digit_val chChar)\<rparr> in
         if m_nParam1 s1 > 199 then s1\<lparr>m_State := StateStart\<rparr> else s1)
      else s\<lparr>m_State := StateStart\<rparr>)"

definition write_semicolon :: "char \<Rightarrow> renderer \<Rightarrow> renderer" where
  "write_semicolon chChar s =
     (if is_digit chChar then s\<lparr>m_nParam2 := digit_val chChar, m_State := StateNumber2\<rparr>
      else if chChar = CHR ''H'' \<or> chChar = CHR ''f''
      then (CursorMove (m_nParam1 s) 1 s)\<lparr>m_State := StateStart\<rparr>
      else s\<lparr>m_State := StateStart\<rparr>)"

definition write_question_mark :: "char \<Rightarrow> renderer \<Rightarrow> renderer" where
  "write_question_mark chChar s =
     (if is_digit chChar then s\<lparr>m_nParam1 := digit_val chChar, m_State := StateNumber3\<rparr>
      else s\<lparr>m_State := StateStart\<rparr>)"

definition write_number2 :: "char \<Rightarrow> renderer \<Rightarrow> renderer" where
  "write_number2 chChar s =
     (if chChar = CHR ''H'' \<or> chChar = CHR ''f''
      then (CursorMove (m_nParam1 s) (m_nParam2 s) s)\<lparr>m_State := StateStart\<rparr>
      else if chChar = CHR ''r''
      then (SetScrollRegion (m_nParam1 s) (m_nParam2 s) s)\<lparr>m_State := StateStart\<rparr>
      else if is_digit chChar then
        (let s1 = s\<lparr>m_nParam2 := u32 (u32 (m_nParam2 s * 10) + digit_val chChar)\<rparr> in
         if m_nParam2 s1 > 199 then s1\<lparr>m_State := StateStart\<rparr> else s1)
      else s\<lparr>m_State := StateStart\<rparr>)"

definition write_number3 :: "char \<Rightarrow> renderer \<Rightarrow> renderer" where
  "write_number3 chChar s =
     (if chChar = CHR ''h''
      then (if m_nParam1 s = 25 then SetCursorMode True s else s)\<lparr>m_State := StateStart\<rparr>
      else if chChar = CHR ''l''
      then (if m_nParam1 s = 25 then SetCursorMode False s
            else if m_nParam1 s = 2 then s\<lparr>m_bVT52Mode := True\<rparr>
            else s)\<lparr>m_State := StateStart\<rparr>
      else if is_digit chChar then
        (let s1 = s\<lparr>m_nParam1 := u32 (u32 (m_nParam1 s * 10) + digit_val chChar)\<rparr> in
         if m_nParam1 s1 > 99 then s1\<lparr>m_State := StateStart\<rparr> else s1)
      else s\<lparr>m_State := StateStart\<rparr>)"

definition write_auto_page :: "char \<Rightarrow> renderer \<Rightarrow> renderer" where
  "write_auto_page chChar s =
     (if chChar = CHR ''+'' then (SetAutoPageMode True s)\<lparr>m_State := StateStart\<rparr>
      else if chChar = CHR ''*'' then (SetAutoPageMode False s)\<lparr>m_State := StateStart\<rparr>
      else s\<lparr>m_State := StateStart\<rparr>)"

text \<open>\<^verbatim>\<open>Write (char chChar)\<close>: one byte through the state machine.\<close>

definition Write :: "environment \<Rightarrow> char \<Rightarrow> renderer \<Rightarrow> renderer" where
  "Write env chChar s =
     (case m_State s of
        StateSkipTillCRLF \<Rightarrow>
          (if chChar = CHR 0x0A \<or> chChar = CHR 0x0D then s\<lparr>m_State := StateStart\<rparr> else s)
      | StateStart \<Rightarrow> write_start env chChar s
      | StateEscape \<Rightarrow>
          (if m_bVT52Mode s then write_escape_vt52 env chChar s
           else write_escape_ansi env chChar s)
      | StateG0 \<Rightarrow> s\<lparr>m_G0CharSet := write_charset chChar (m_G0CharSet s), m_State := StateStart\<rparr>
      | StateG1 \<Rightarrow> s\<lparr>m_G1CharSet := write_charset chChar (m_G1CharSet s), m_State := StateStart\<rparr>
      | StateFontChange \<Rightarrow> write_font_change env chChar s
      | StateVT52Row \<Rightarrow>
          (if (of_char chChar :: nat) \<ge> 0x20
           then s\<lparr>m_nParam1 := of_char chChar - 0x20, m_State := StateVT52Col\<rparr>
           else s\<lparr>m_State := StateStart\<rparr>)
      | StateVT52Col \<Rightarrow>
          (if (of_char chChar :: nat) \<ge> 0x20
           then (let s1 = s\<lparr>m_nParam2 := of_char chChar - 0x20\<rparr>
                 in (CursorMove (m_nParam1 s1) (m_nParam2 s1) s1)\<lparr>m_State := StateStart\<rparr>)
           else s\<lparr>m_State := StateStart\<rparr>)
      | StateBracket \<Rightarrow> write_bracket env chChar s
      | StateNumber1 \<Rightarrow> write_number1 env chChar s
      | StateSemicolon \<Rightarrow> write_semicolon chChar s
      | StateQuestionMark \<Rightarrow> write_question_mark chChar s
      | StateNumber2 \<Rightarrow> write_number2 chChar s
      | StateNumber3 \<Rightarrow> write_number3 chChar s
      | StateAutoPage \<Rightarrow> write_auto_page chChar s)"

text \<open>A byte sequence fed to \<^verbatim>\<open>Write (char)\<close> byte by byte.\<close>

definition feed :: "environment \<Rightarrow> char list \<Rightarrow> renderer \<Rightarrow> renderer" where
  "feed env cs s = fold (Write env) cs s"

text \<open>\<^verbatim>\<open>Write (const void *, size_t)\<close>: the cursor is taken off the surface, the bytes
  are interpreted, the cursor is drawn again and the pending area is flushed.\<close>

definition WriteBuffer :: "environment \<Rightarrow> char list \<Rightarrow> renderer \<Rightarrow> renderer" where
  "WriteBuffer env cs s =
     (let cursorWasVisible = m_bCursorVisible s;
          s1 = (if cursorWasVisible then InvertCursor s else s);
          s2 = feed env cs s1;
          s3 = (if cursorWasVisible \<and> m_bCursorOn s2 then
                  (let s' = InvertCursor s2 in
                   if m_bBlinkingCursor s'
                   then s'\<lparr>m_nNextCursorBlink := u32 (GetTicks env + m_nCursorBlinkPeriodTicks s')\<rparr>
                   else s')
                else s2)
      in if \<not> m_bDelayedUpdate s3 \<and> \<not> m_bSmoothScrollActive s3
            \<and> y1 (m_UpdateArea s3) \<le> y2 (m_UpdateArea s3)
         then s3\<lparr>m_UpdateArea := \<lparr>y1 = m_nHeight s3, y2 = 0\<rparr>\<rparr>
         else s3)"

definition Goto :: "environment \<Rightarrow> nat \<Rightarrow> nat \<Rightarrow> renderer \<Rightarrow> renderer" where
  "Goto env nRow nColumn s =
     (let cursorWasVisible = m_bCursorVisible s;
          s1 = (if cursorWasVisible then InvertCursor s else s);
          s2 = s1\<lparr>m_nCursorX :=
                    (if nColumn < GetColumns s1 then nColumn * CharWidth s1
                     else u32 (usub (GetColumns s1) 1 * CharWidth s1))\<rparr>;
          s3 = s2\<lparr>m_nCursorY :=
                    (if nRow < GetRows s2 then nRow * CharHeight s2
                     else u32 (usub (GetRows s2) 1 * CharHeight s2))\<rparr>
      in if cursorWasVisible \<and> m_bCursorOn s3 then
           (let s' = InvertCursor s3 in
            if m_bBlinkingCursor s'
            then s'\<lparr>m_nNextCursorBlink := u32 (GetTicks env + m_nCursorBlinkPeriodTicks s')\<rparr>
            else s')
         else s3)"

section \<open>Predicates of the specification and a small example renderer\<close>

text \<open>The parser state and its two parameters.\<close>

definition parser :: "renderer \<Rightarrow> TState \<times> nat \<times> nat" where
  "parser s = (m_State s, m_nParam1 s, m_nParam2 s)"

definition params_bounded :: "renderer \<Rightarrow> bool" where
  "params_bounded s =
     ((m_State s = StateNumber1 \<or> m_State s = StateSemicolon \<longrightarrow> m_nParam1 s \<le> 199)
      \<and> (m_State s = StateNumber2 \<longrightarrow> m_nParam1 s \<le> 199 \<and> m_nParam2 s \<le> 199)
      \<and> (m_State s = StateNumber3 \<longrightarrow> m_nParam1 s \<le> 99))"

definition accumulate :: "nat \<Rightarrow> char \<Rightarrow> nat" where
  "accumulate p c = u32 (u32 (p * 10) + digit_val c)"

text \<open>A renderer of depth 8 on a surface of \<open>w\<close> by \<open>h\<close> pixels with cells of \<open>cw\<close> by
  \<open>ch\<close> pixels, whose buffer holds the bytes 0, 1, 2, \<dots>, and an environment whose
  character generators double the cell as Circle's do.  They serve as concrete inputs.\<close>

definition example_gen :: "nat \<Rightarrow> nat \<Rightarrow> CCharGenerator" where
  "example_gen w h = \<lparr>GetCharWidth = w, GetCharHeight = h, GetUnderline = h - 1,
                   GetPixel = (\<lambda>c x y. even (x + y))\<rparr>"

definition example_env :: environment where
  "example_env = \<lparr>GetTicks = 1000, MSEC2HZ = (\<lambda>ms. ms div 10), GetWrapAroundEnabled = True,
     GetFont = (\<lambda>sel. 0),
     new_CCharGenerator = (\<lambda>f fl. Some (example_gen (if fl = FontFlagsDoubleWidth \<or> fl = FontFlagsDoubleBoth then 4 else 2)
                                                  (if fl = FontFlagsDoubleHeight \<or> fl = FontFlagsDoubleBoth then 4 else 2))),
     new_CursorPixels = (\<lambda>n. True),
     AdjustBrightness565 = (\<lambda>c f. c)\<rparr>"

definition example_buffer :: "nat \<Rightarrow> byte list" where
  "example_buffer n = map of_nat [0..<n]"

definition example_blank :: "nat \<Rightarrow> byte list" where
  "example_blank n = replicate n 0"

definition example_tabs :: "bool list" where
  "example_tabs = replicate 160 False"

definition example_renderer :: "nat \<Rightarrow> nat \<Rightarrow> nat \<Rightarrow> nat \<Rightarrow> renderer" where
  "example_renderer w h cw ch =
    \<lparr>m_pFont = Some 0, m_FontFlags = FontFlagsNone,
     m_pCharGen = Some (example_gen cw ch), m_pGraphicsCharGen = Some (example_gen cw ch),
     m_CurrentFontSelection = VT100Font10x20,
     m_G0CharSet = CharSetUS, m_G1CharSet = CharSetGraphics, m_bUseG1 = False,
     m_pCursorPixels = Some (replicate (cw * ch) 0),
     m_pBuffer8 = example_buffer (w * h),
     m_nSize = w * h, m_nPitch = w, m_nWidth = w, m_nHeight = h,
     m_nUsedWidth = w div cw * cw, m_nUsedHeight = h div ch * ch, m_nDepth = 8,
     m_UpdateArea = \<lparr>y1 = h, y2 = 0\<rparr>,
     m_State = StateStart, m_nScrollStart = 0, m_nScrollEnd = h div ch * ch,
     m_nCursorX = 0, m_nCursorY = 0,
     m_bCursorOn = True, m_bCursorBlock = False, m_bBlinkingCursor = True, m_bCursorVisible = False,
     m_nCursorBlinkPeriodTicks = 50, m_nNextCursorBlink = 0,
     m_ForegroundColor = 7, m_BackgroundColor = 0,
     m_DefaultForegroundColor = 7, m_DefaultBackgroundColor = 0,
     m_bReverseAttribute = False, m_bBoldAttribute = False, m_bDimAttribute = False,
     m_bUnderlineAttribute = False, m_bBlinkAttribute = False, m_bInsertOn = False,
     m_bVT52Mode = False, m_nParam1 = 0, m_nParam2 = 0, m_bAutoPage = False,
     m_bDelayedUpdate = False,
     m_bSmoothScrollEnabled = True, m_bSmoothScrollActive = False, m_bSmoothScrollDown = False,
     m_nSmoothScrollStartY = 0, m_nSmoothScrollEndY = 0, m_nSmoothScrollOffset = 0,
     m_nSmoothScrollStep = 0, m_nSmoothScrollLastTick = 0, m_nSmoothScrollTickInterval = 1,
     m_pSmoothScrollSnapshot = Some (example_blank (w * h)),
     m_pSmoothScrollCompose = Some (example_blank (w * h)),
     m_nSmoothScrollBufferSize = w * h, m_nSmoothScrollStartTick = 0,
     m_nSmoothScrollDebounceUntil = 0,
     m_ScrollNormalTicksAccum = 0, m_ScrollSmoothTicksAccum = 0,
     m_ScrollNormalCount = 0, m_ScrollSmoothCount = 0,
     m_SavedState = \<lparr>fontFlags = FontFlagsNone, foreground = 0, background = 0,
        defaultForeground = 0, defaultBackground = 0, cursorX = 0, cursorY = 0,
        reverseAttribute = False, boldAttribute = False, underlineAttribute = False,
        blinkAttribute = False\<rparr>,
     m_TabStops = example_tabs\<rparr>"

text \<open>The cursor invariant of the data model: the cursor is on a cell boundary inside the
  usable surface, the largest multiples of the cell size that fit the surface.\<close>

definition cursor_invariant :: "renderer \<Rightarrow> bool" where
  "cursor_invariant s =
     (CharWidth s dvd m_nCursorX s \<and> CharHeight s dvd m_nCursorY s
      \<and> m_nCursorX s < m_nWidth s div CharWidth s * CharWidth s
      \<and> m_nCursorY s < m_nHeight s div CharHeight s * CharHeight s)"

text \<open>An environment whose allocator has no memory left for a character generator.\<close>

definition example_env_no_memory :: environment where
  "example_env_no_memory = example_env\<lparr>new_CCharGenerator := (\<lambda>f fl. None)\<rparr>"

text \<open>What a failing \<^verbatim>\<open>SetFont\<close> leaves as it was: the cursor position, the colours,
  the font pointer and flags, the used size and scroll region, the cursor mode and the
  blinking flag.\<close>

definition kept_on_failure ::
  "renderer \<Rightarrow> (nat \<times> nat) \<times> (TRawColor \<times> TRawColor \<times> TRawColor \<times> TRawColor)
     \<times> (TFont option \<times> TFontFlags) \<times> (nat \<times> nat \<times> nat \<times> nat) \<times> (bool \<times> bool)" where
  "kept_on_failure s =
     ((m_nCursorX s, m_nCursorY s),
      (m_ForegroundColor s, m_BackgroundColor s, m_DefaultForegroundColor s, m_DefaultBackgroundColor s),
      (m_pFont s, m_FontFlags s),
      (m_nUsedWidth s, m_nUsedHeight s, m_nScrollStart s, m_nScrollEnd s),
      (m_bCursorOn s, m_bBlinkingCursor s))"

text \<open>What the three scroll operations read of the renderer.\<close>

definition surface ::
  "renderer \<Rightarrow> byte list \<times> CCharGenerator option \<times> (nat \<times> nat \<times> nat) \<times> (nat \<times> nat \<times> nat \<times> nat) \<times> TRawColor" where
  "surface s =
     (m_pBuffer8 s, m_pCharGen s, (m_nScrollStart s, m_nScrollEnd s, m_nCursorY s),
      (m_nPitch s, m_nWidth s, m_nHeight s, m_nDepth s), m_BackgroundColor s)"

text \<open>A renderer as \<^verbatim>\<open>Initialize\<close> and \<^verbatim>\<open>SetFont\<close> leave it: one of the four colour
  depths (whole bytes per pixel row), the pitch and size of the surface, a buffer of
  that size, a generator with a cell of at least one pixel, and the used size.\<close>

definition wf_surface :: "renderer \<Rightarrow> bool" where
  "wf_surface s =
     ((m_nDepth s = 1 \<or> m_nDepth s = 8 \<or> m_nDepth s = 16 \<or> m_nDepth s = 32)
      \<and> 8 dvd m_nWidth s * m_nDepth s
      \<and> m_nPitch s = m_nWidth s * m_nDepth s div 8
      \<and> m_nSize s = m_nWidth s * m_nHeight s * m_nDepth s div 8
      \<and> length (m_pBuffer8 s) = m_nSize s
      \<and> m_nSize s < 4294967296 \<and> m_nWidth s < 4294967296 \<and> m_nHeight s < 4294967296
      \<and> 0 < CharWidth s \<and> 0 < CharHeight s
      \<and> m_nUsedWidth s = m_nWidth s div CharWidth s * CharWidth s
      \<and> m_nUsedHeight s = m_nHeight s div CharHeight s * CharHeight s)"

text \<open>The decimal digits of a repeat count below 1000, as the host sends them in a control
  sequence.\<close>

definition digit_char :: "nat \<Rightarrow> char" where
  "digit_char k = ''0123456789'' ! k"

definition decimal :: "nat \<Rightarrow> char list" where
  "decimal n =
     (if n < 10 then [digit_char n]
      else if n < 100 then [digit_char (n div 10), digit_char (n mod 10)]
      else [digit_char (n div 100), digit_char (n div 10 mod 10), digit_char (n mod 10)])"
section \<open>The parser state is untouched by the drawing operations\<close>

lemma usub_le [simp]: "b \<le> a \<Longrightarrow> usub a b = a - b"
  by (simp add: usub_def)

lemma u32_small [simp]: "n < 4294967296 \<Longrightarrow> u32 n = n"
  by (simp add: u32_def)

lemma fold_keeps:
  assumes "\<And>x s. P (f x s) = P s"
  shows "P (fold f xs s) = P s"
  using assms by (induction xs arbitrary: s) simp_all

lemma parser_SetUpdateArea [simp]: "parser (SetUpdateArea a b s) = parser s"
  by (simp add: parser_def SetUpdateArea_def)

lemma parser_BeginSmooth [simp]:
  "parser (snd (BeginSmoothScrollAnimation env a b d s)) = parser s"
  by (simp add: parser_def BeginSmoothScrollAnimation_def Let_def split: option.splits)

lemma parser_Scroll [simp]: "parser (Scroll env s) = parser s"
proof -
  obtain b s1 where h: "BeginSmoothScrollAnimation env (m_nScrollStart s) (usub (m_nScrollEnd s) 1) False s = (b, s1)"
    by (cases "BeginSmoothScrollAnimation env (m_nScrollStart s) (usub (m_nScrollEnd s) 1) False s")
  have "parser s1 = parser (snd (BeginSmoothScrollAnimation env (m_nScrollStart s) (usub (m_nScrollEnd s) 1) False s))"
    using h by simp
  also have "\<dots> = parser s" by (rule parser_BeginSmooth)
  finally show ?thesis
    using h by (simp add: Scroll_def Let_def count_normal_scroll_def parser_def SetUpdateArea_def)
qed

lemma parser_CursorDown [simp]: "parser (CursorDown env s) = parser s"
proof -
  have "parser (Scroll env (s\<lparr>m_nCursorY := m_nCursorY s + CharHeight s\<rparr>)) = parser s"
    by (simp add: parser_Scroll) (simp add: parser_def)
  then show ?thesis
    by (simp add: CursorDown_def Let_def parser_def)
qed

lemma parser_NewLine [simp]: "parser (NewLine env s) = parser s"
  by (simp add: NewLine_def CarriageReturn_def) (simp add: parser_def)

lemma parser_CursorRight [simp]: "parser (CursorRight env s) = parser s"
  by (simp add: CursorRight_def Let_def) (simp add: parser_def)

lemma parser_CursorLeft [simp]: "parser (CursorLeft s) = parser s"
  by (simp add: CursorLeft_def parser_def)

lemma parser_EraseChar [simp]: "parser (EraseChar x y s) = parser s"
  by (simp add: EraseChar_def) (simp add: parser_def)

lemma parser_ClearLineEnd [simp]: "parser (ClearLineEnd s) = parser s"
proof -
  have "parser (fold (\<lambda>nPosX. EraseChar nPosX (m_nCursorY s))
                 (loop_cells (m_nCursorX s) (m_nUsedWidth s) (CharWidth s)) s) = parser s"
    by (rule fold_keeps) simp
  then show ?thesis by (simp add: ClearLineEnd_def Let_def parser_def)
qed

lemma parser_ClearDisplayEnd [simp]: "parser (ClearDisplayEnd s) = parser s"
proof -
  have "parser (ClearLineEnd s) = parser s" by simp
  then show ?thesis
    by (auto simp add: ClearDisplayEnd_def Let_def parser_def SetUpdateArea_def)
qed

lemma parser_ClearDisplay [simp]: "parser (ClearDisplay s) = parser s"
  by (simp add: ClearDisplay_def) (simp add: parser_def)

lemma parser_Tabulator [simp]: "parser (Tabulator env s) = parser s"
proof -
  have "\<And>v. parser (NewLine env (s\<lparr>m_nCursorX := v\<rparr>)) = parser s"
    by simp (simp add: parser_def)
  then show ?thesis
    by (simp add: Tabulator_def Let_def split: option.splits)
qed

lemma parser_DisplayCharAt [simp]: "parser (DisplayCharAt env c x y col s) = parser s"
  by (simp add: DisplayCharAt_def Let_def) (simp add: parser_def)

lemma parser_DisplayChar [simp]: "parser (DisplayChar env c s) = parser s"
proof -
  have a: "\<And>g t. parser t = parser s \<Longrightarrow> parser (CursorRight env t) = parser s" by simp
  have b: "\<And>g. parser (s\<lparr>m_pCharGen := g\<rparr>) = parser s" by (simp add: parser_def)
  have c: "\<And>t g. parser (t\<lparr>m_pCharGen := g\<rparr>) = parser t" by (simp add: parser_def)
  have d: "\<And>t v. parser (t\<lparr>m_nCursorX := v\<rparr>) = parser t" by (simp add: parser_def)
  show ?thesis
    by (simp add: DisplayChar_def Let_def a b c d)
qed

lemma params_bounded_parser: "parser t = parser s \<Longrightarrow> params_bounded t = params_bounded s"
  by (simp add: parser_def params_bounded_def)

lemma parser_write_start:
  "m_State s = StateStart \<Longrightarrow> params_bounded (write_start env c s)"
  unfolding write_start_def
  by (simp add: params_bounded_parser [OF parser_CursorLeft] params_bounded_parser [OF parser_Tabulator]
        params_bounded_parser [OF parser_ClearDisplay] params_bounded_parser [OF parser_NewLine]
        params_bounded_parser [OF parser_DisplayChar] CarriageReturn_def)
     (simp add: params_bounded_def)

lemma is_digit_range [simp]:
  "is_digit c \<Longrightarrow> digit_val c \<le> 9"
  "is_digit c \<Longrightarrow> digit_val c \<le> 99"
  "is_digit c \<Longrightarrow> digit_val c \<le> 199"
  unfolding is_digit_def digit_val_def by arith+

lemma params_bounded_Write: "params_bounded s \<Longrightarrow> params_bounded (Write env c s)"
proof (cases "m_State s")
  case StateStart
  then show ?thesis by (simp add: Write_def parser_write_start)
next
  case StateNumber1
  assume "params_bounded s"
  with StateNumber1 have p: "m_nParam1 s \<le> 199" by (simp add: params_bounded_def)
  show ?thesis using StateNumber1 p
    by (simp add: Write_def write_number1_def params_bounded_def Let_def accumulate_def)
next
  case StateNumber2
  assume "params_bounded s"
  with StateNumber2 have p: "m_nParam1 s \<le> 199" "m_nParam2 s \<le> 199" by (simp_all add: params_bounded_def)
  show ?thesis using StateNumber2 p
    by (simp add: Write_def write_number2_def params_bounded_def Let_def CursorMove_def SetScrollRegion_def CursorHome_def)
next
  case StateNumber3
  assume "params_bounded s"
  with StateNumber3 have p: "m_nParam1 s \<le> 99" by (simp_all add: params_bounded_def)
  show ?thesis using StateNumber3 p
    by (simp add: Write_def write_number3_def params_bounded_def Let_def SetCursorMode_def)
next
  case StateSemicolon
  assume "params_bounded s"
  with StateSemicolon have p: "m_nParam1 s \<le> 199" by (simp_all add: params_bounded_def)
  show ?thesis using StateSemicolon p
    by (auto simp add: Write_def write_semicolon_def params_bounded_def)
next
  case StateBracket
  show ?thesis using StateBracket
    by (simp add: Write_def write_bracket_def params_bounded_def)
next
  case StateQuestionMark
  show ?thesis using StateQuestionMark
    by (simp add: Write_def write_question_mark_def params_bounded_def)
next
  case StateEscape
  show ?thesis using StateEscape
    by (simp add: Write_def write_escape_vt52_def write_escape_ansi_def params_bounded_def)
qed (simp_all add: Write_def params_bounded_def write_font_change_def write_auto_page_def Let_def)

lemma params_bounded_feed: "params_bounded s \<Longrightarrow> params_bounded (feed env cs s)"
  unfolding feed_def by (induction cs arbitrary: s) (simp_all add: params_bounded_Write)

section \<open>The escape-sequence parameters and the home sequences\<close>

lemma write_number1_digit:
  "is_digit c \<Longrightarrow>
     write_number1 env c s =
       (if 199 < accumulate (m_nParam1 s) c
        then s\<lparr>m_State := StateStart, m_nParam1 := accumulate (m_nParam1 s) c\<rparr>
        else s\<lparr>m_nParam1 := accumulate (m_nParam1 s) c\<rparr>)"
  unfolding write_number1_def accumulate_def
  apply (subst if_not_P, fastforce simp: is_digit_def)+
  apply (simp add: Let_def)
  done

lemma write_number2_digit:
  "is_digit c \<Longrightarrow>
     write_number2 c s =
       (if 199 < accumulate (m_nParam2 s) c
        then s\<lparr>m_State := StateStart, m_nParam2 := accumulate (m_nParam2 s) c\<rparr>
        else s\<lparr>m_nParam2 := accumulate (m_nParam2 s) c\<rparr>)"
  unfolding write_number2_def accumulate_def
  apply (subst if_not_P, fastforce simp: is_digit_def)+
  apply (simp add: Let_def)
  done

lemma write_number3_digit:
  "is_digit c \<Longrightarrow>
     write_number3 c s =
       (if 99 < accumulate (m_nParam1 s) c
        then s\<lparr>m_State := StateStart, m_nParam1 := accumulate (m_nParam1 s) c\<rparr>
        else s\<lparr>m_nParam1 := accumulate (m_nParam1 s) c\<rparr>)"
  unfolding write_number3_def accumulate_def
  apply (subst if_not_P, fastforce simp: is_digit_def)+
  apply (simp add: Let_def)
  done

lemma write_bracket_digit:
  "is_digit c \<Longrightarrow>
     write_bracket env c s = s\<lparr>m_nParam1 := digit_val c, m_State := StateNumber1\<rparr>"
  unfolding write_bracket_def
  apply (subst if_not_P, fastforce simp: is_digit_def)+
  apply simp
  done

text \<open>
  Claim C9.  In a number-accumulating state a decimal digit that raises the accumulated
  parameter above 199 sends the parser back to \<open>StateStart\<close> and changes nothing but the
  parameter and the parser state; and in every state reached from \<open>StateStart\<close> by any
  byte sequence, the parameters of a number-accumulating state are at most 199.
\<close>

theorem param_cap_aborts:
  "is_digit c \<Longrightarrow>
     (m_State s = StateNumber1 \<and> 199 < accumulate (m_nParam1 s) c \<longrightarrow>
        Write env c s = s\<lparr>m_State := StateStart, m_nParam1 := accumulate (m_nParam1 s) c\<rparr>)
   \<and> (m_State s = StateNumber2 \<and> 199 < accumulate (m_nParam2 s) c \<longrightarrow>
        Write env c s = s\<lparr>m_State := StateStart, m_nParam2 := accumulate (m_nParam2 s) c\<rparr>)
   \<and> (m_State s = StateNumber3 \<and> 199 < accumulate (m_nParam1 s) c \<longrightarrow>
        Write env c s = s\<lparr>m_State := StateStart, m_nParam1 := accumulate (m_nParam1 s) c\<rparr>)
   \<and> (m_State s0 = StateStart \<longrightarrow>
        (m_State (feed env cs s0) = StateNumber1 \<longrightarrow> m_nParam1 (feed env cs s0) \<le> 199)
      \<and> (m_State (feed env cs s0) = StateNumber2 \<longrightarrow>
            m_nParam1 (feed env cs s0) \<le> 199 \<and> m_nParam2 (feed env cs s0) \<le> 199)
      \<and> (m_State (feed env cs s0) = StateNumber3 \<longrightarrow> m_nParam1 (feed env cs s0) \<le> 199))"
proof -
  assume d: "is_digit c"
  have n1: "m_State s = StateNumber1 \<and> 199 < accumulate (m_nParam1 s) c \<longrightarrow>
        Write env c s = s\<lparr>m_State := StateStart, m_nParam1 := accumulate (m_nParam1 s) c\<rparr>"
    using d by (simp add: Write_def write_number1_digit)
  have n2: "m_State s = StateNumber2 \<and> 199 < accumulate (m_nParam2 s) c \<longrightarrow>
        Write env c s = s\<lparr>m_State := StateStart, m_nParam2 := accumulate (m_nParam2 s) c\<rparr>"
    using d by (simp add: Write_def write_number2_digit)
  have n3: "m_State s = StateNumber3 \<and> 199 < accumulate (m_nParam1 s) c \<longrightarrow>
        Write env c s = s\<lparr>m_State := StateStart, m_nParam1 := accumulate (m_nParam1 s) c\<rparr>"
    using d by (simp add: Write_def write_number3_digit)
  have inv: "m_State s0 = StateStart \<longrightarrow>
        (m_State (feed env cs s0) = StateNumber1 \<longrightarrow> m_nParam1 (feed env cs s0) \<le> 199)
      \<and> (m_State (feed env cs s0) = StateNumber2 \<longrightarrow>
            m_nParam1 (feed env cs s0) \<le> 199 \<and> m_nParam2 (feed env cs s0) \<le> 199)
      \<and> (m_State (feed env cs s0) = StateNumber3 \<longrightarrow> m_nParam1 (feed env cs s0) \<le> 199)"
  proof
    assume "m_State s0 = StateStart"
    then have "params_bounded s0" by (simp add: params_bounded_def)
    then have "params_bounded (feed env cs s0)" by (rule params_bounded_feed)
    then show "(m_State (feed env cs s0) = StateNumber1 \<longrightarrow> m_nParam1 (feed env cs s0) \<le> 199)
      \<and> (m_State (feed env cs s0) = StateNumber2 \<longrightarrow>
            m_nParam1 (feed env cs s0) \<le> 199 \<and> m_nParam2 (feed env cs s0) \<le> 199)
      \<and> (m_State (feed env cs s0) = StateNumber3 \<longrightarrow> m_nParam1 (feed env cs s0) \<le> 199)"
      by (auto simp add: params_bounded_def)
  qed
  from n1 n2 n3 inv show ?thesis by blast
qed

theorem param_cap_aborts_witness:
  "is_digit CHR ''0''
   \<and> m_State (Write example_env CHR ''0'' ((example_renderer 8 6 2 2)\<lparr>m_State := StateNumber1, m_nParam1 := 20\<rparr>)) = StateStart
   \<and> m_State (feed example_env [CHR 0x1B, CHR ''['', CHR ''1'', CHR ''9'', CHR ''9''] (example_renderer 8 6 2 2)) = StateNumber1
   \<and> m_nParam1 (feed example_env [CHR 0x1B, CHR ''['', CHR ''1'', CHR ''9'', CHR ''9''] (example_renderer 8 6 2 2)) \<le> 199"
proof -
  let ?S1 = "(example_renderer 8 6 2 2)\<lparr>m_State := StateNumber1, m_nParam1 := 20\<rparr>"
  let ?F = "feed example_env [CHR 0x1B, CHR ''['', CHR ''1'', CHR ''9'', CHR ''9''] (example_renderer 8 6 2 2)"
  have d: "is_digit CHR ''0''" by (simp add: is_digit_def)
  have a: "m_State ?S1 = StateNumber1 \<and> 199 < accumulate (m_nParam1 ?S1) CHR ''0''"
    by (simp add: accumulate_def digit_val_def u32_def)
  have s: "m_State (example_renderer 8 6 2 2) = StateStart" by (simp add: example_renderer_def)
  have r: "m_State ?F = StateNumber1"
    by (simp add: feed_def Write_def write_start_def write_escape_ansi_def write_bracket_def
          write_number1_def is_digit_def digit_val_def Let_def u32_def example_renderer_def)
  note T = param_cap_aborts [OF d, of ?S1 example_env "example_renderer 8 6 2 2"
        "[CHR 0x1B, CHR ''['', CHR ''1'', CHR ''9'', CHR ''9'']"]
  have "Write example_env CHR ''0'' ?S1
      = ?S1\<lparr>m_State := StateStart, m_nParam1 := accumulate (m_nParam1 ?S1) CHR ''0''\<rparr>"
    by (rule T [THEN conjunct1, THEN mp, OF a])
  then have w: "m_State (Write example_env CHR ''0'' ?S1) = StateStart" by simp
  have p: "m_nParam1 ?F \<le> 199"
    by (rule T [THEN conjunct2, THEN conjunct2, THEN conjunct2, THEN mp, OF s,
                THEN conjunct1, THEN mp, OF r])
  show ?thesis by (intro conjI d w r p)
qed

text \<open>
  Claim C10.  In VT52 mode the bytes ESC H put the cursor at pixel (0, 0) whatever the
  scroll region is, while the ANSI sequence ESC [ H puts it at column 0 of the first row
  of the scroll region.
\<close>

theorem vt52_home_absolute:
  "m_State s = StateStart \<Longrightarrow>
     (m_bVT52Mode s \<longrightarrow>
        m_nCursorX (feed env [CHR 0x1B, CHR ''H''] s) = 0
      \<and> m_nCursorY (feed env [CHR 0x1B, CHR ''H''] s) = 0)
   \<and> (\<not> m_bVT52Mode s \<longrightarrow>
        m_nCursorX (feed env [CHR 0x1B, CHR ''['', CHR ''H''] s) = 0
      \<and> m_nCursorY (feed env [CHR 0x1B, CHR ''['', CHR ''H''] s) = m_nScrollStart s)"
  by (simp add: feed_def Write_def write_start_def write_escape_vt52_def write_escape_ansi_def
        write_bracket_def CursorHome_def)

theorem vt52_home_absolute_witness:
  "m_nScrollStart ((example_renderer 8 6 2 2)\<lparr>m_nScrollStart := 2, m_bVT52Mode := True\<rparr>) = 2
   \<and> m_nCursorY (feed example_env [CHR 0x1B, CHR ''H'']
        ((example_renderer 8 6 2 2)\<lparr>m_nScrollStart := 2, m_bVT52Mode := True\<rparr>)) = 0
   \<and> m_nCursorX (feed example_env [CHR 0x1B, CHR ''H'']
        ((example_renderer 8 6 2 2)\<lparr>m_nScrollStart := 2, m_bVT52Mode := True\<rparr>)) = 0
   \<and> m_nCursorY (feed example_env [CHR 0x1B, CHR ''['', CHR ''H'']
        ((example_renderer 8 6 2 2)\<lparr>m_nScrollStart := 2\<rparr>)) = 2"
proof -
  let ?V = "(example_renderer 8 6 2 2)\<lparr>m_nScrollStart := 2, m_bVT52Mode := True\<rparr>"
  let ?A = "(example_renderer 8 6 2 2)\<lparr>m_nScrollStart := 2\<rparr>"
  have a: "m_State ?V = StateStart" by (simp add: example_renderer_def)
  have b: "m_State ?A = StateStart" by (simp add: example_renderer_def)
  have c: "\<not> m_bVT52Mode ?A" by (simp add: example_renderer_def)
  have d: "m_bVT52Mode ?V" by simp
  have e: "m_nScrollStart ?V = 2" "m_nScrollStart ?A = 2" by simp_all
  have v: "m_nCursorX (feed example_env [CHR 0x1B, CHR ''H''] ?V) = 0
         \<and> m_nCursorY (feed example_env [CHR 0x1B, CHR ''H''] ?V) = 0"
    by (rule vt52_home_absolute [OF a, of example_env, THEN conjunct1, THEN mp, OF d])
  have "m_nCursorY (feed example_env [CHR 0x1B, CHR ''['', CHR ''H''] ?A) = m_nScrollStart ?A"
    by (rule vt52_home_absolute [OF b, of example_env, THEN conjunct2, THEN mp, OF c, THEN conjunct2])
  with e have w: "m_nCursorY (feed example_env [CHR 0x1B, CHR ''['', CHR ''H''] ?A) = 2" by simp
  show ?thesis by (intro conjI e(1) v [THEN conjunct2] v [THEN conjunct1] w)
qed

section \<open>Cursor drawing and font changes\<close>

lemma InvertCursor_fields [simp]:
  "m_nCursorX (InvertCursor s) = m_nCursorX s"
  "m_nCursorY (InvertCursor s) = m_nCursorY s"
  "m_bCursorOn (InvertCursor s) = m_bCursorOn s"
  "m_bBlinkingCursor (InvertCursor s) = m_bBlinkingCursor s"
  "m_ForegroundColor (InvertCursor s) = m_ForegroundColor s"
  "m_BackgroundColor (InvertCursor s) = m_BackgroundColor s"
  "m_DefaultForegroundColor (InvertCursor s) = m_DefaultForegroundColor s"
  "m_DefaultBackgroundColor (InvertCursor s) = m_DefaultBackgroundColor s"
  "m_pFont (InvertCursor s) = m_pFont s"
  "m_FontFlags (InvertCursor s) = m_FontFlags s"
  "m_pCharGen (InvertCursor s) = m_pCharGen s"
  "m_CurrentFontSelection (InvertCursor s) = m_CurrentFontSelection s"
  "m_nWidth (InvertCursor s) = m_nWidth s"
  "m_nHeight (InvertCursor s) = m_nHeight s"
  "m_nUsedWidth (InvertCursor s) = m_nUsedWidth s"
  "m_nUsedHeight (InvertCursor s) = m_nUsedHeight s"
  "m_nScrollStart (InvertCursor s) = m_nScrollStart s"
  "m_nScrollEnd (InvertCursor s) = m_nScrollEnd s"
  "m_nCursorBlinkPeriodTicks (InvertCursor s) = m_nCursorBlinkPeriodTicks s"
  "m_State (InvertCursor s) = m_State s"
  "m_SavedState (InvertCursor s) = m_SavedState s"
  "m_bVT52Mode (InvertCursor s) = m_bVT52Mode s"
  "m_nDepth (InvertCursor s) = m_nDepth s"
  by (simp_all add: InvertCursor_def Let_def SetUpdateArea_def split: option.splits prod.splits)

lemma InvertCursor_visible:
  "m_bCursorVisible (InvertCursor s) =
     (if m_bCursorOn s \<and> m_pCursorPixels s \<noteq> None then \<not> m_bCursorVisible s
      else m_bCursorVisible s)"
  by (simp add: InvertCursor_def Let_def SetUpdateArea_def split: option.splits prod.splits)

lemma InvertCursor_pixels_None:
  "m_pCursorPixels s = None \<Longrightarrow> InvertCursor s = s"
  by (simp add: InvertCursor_def)

lemma SetFont_hide_fields [simp]:
  "m_nCursorX (SetFont_hide s) = m_nCursorX s"
  "m_nCursorY (SetFont_hide s) = m_nCursorY s"
  "m_bCursorOn (SetFont_hide s) = m_bCursorOn s"
  "m_ForegroundColor (SetFont_hide s) = m_ForegroundColor s"
  "m_BackgroundColor (SetFont_hide s) = m_BackgroundColor s"
  "m_DefaultForegroundColor (SetFont_hide s) = m_DefaultForegroundColor s"
  "m_DefaultBackgroundColor (SetFont_hide s) = m_DefaultBackgroundColor s"
  "m_pFont (SetFont_hide s) = m_pFont s"
  "m_FontFlags (SetFont_hide s) = m_FontFlags s"
  "m_pCharGen (SetFont_hide s) = m_pCharGen s"
  "m_CurrentFontSelection (SetFont_hide s) = m_CurrentFontSelection s"
  "m_nWidth (SetFont_hide s) = m_nWidth s"
  "m_nHeight (SetFont_hide s) = m_nHeight s"
  "m_nUsedWidth (SetFont_hide s) = m_nUsedWidth s"
  "m_nUsedHeight (SetFont_hide s) = m_nUsedHeight s"
  "m_nScrollStart (SetFont_hide s) = m_nScrollStart s"
  "m_nScrollEnd (SetFont_hide s) = m_nScrollEnd s"
  "m_nCursorBlinkPeriodTicks (SetFont_hide s) = m_nCursorBlinkPeriodTicks s"
  "m_State (SetFont_hide s) = m_State s"
  "m_SavedState (SetFont_hide s) = m_SavedState s"
  "m_bVT52Mode (SetFont_hide s) = m_bVT52Mode s"
  "m_nDepth (SetFont_hide s) = m_nDepth s"
  by (simp_all add: SetFont_hide_def)

lemma SetFont_redraw_fields [simp]:
  "m_nCursorX (SetFont_redraw env v b s) = m_nCursorX s"
  "m_nCursorY (SetFont_redraw env v b s) = m_nCursorY s"
  "m_bCursorOn (SetFont_redraw env v b s) = m_bCursorOn s"
  "m_pCharGen (SetFont_redraw env v b s) = m_pCharGen s"
  "m_nWidth (SetFont_redraw env v b s) = m_nWidth s"
  "m_nHeight (SetFont_redraw env v b s) = m_nHeight s"
  "m_nUsedWidth (SetFont_redraw env v b s) = m_nUsedWidth s"
  "m_nUsedHeight (SetFont_redraw env v b s) = m_nUsedHeight s"
  "m_nScrollStart (SetFont_redraw env v b s) = m_nScrollStart s"
  "m_nScrollEnd (SetFont_redraw env v b s) = m_nScrollEnd s"
  "m_State (SetFont_redraw env v b s) = m_State s"
  "m_SavedState (SetFont_redraw env v b s) = m_SavedState s"
  "m_bVT52Mode (SetFont_redraw env v b s) = m_bVT52Mode s"
  "m_nDepth (SetFont_redraw env v b s) = m_nDepth s"
  "m_bBlinkingCursor (SetFont_redraw env v b s) = b"
  by (simp_all add: SetFont_redraw_def Let_def)

lemma SetFont_redraw_visible:
  "m_bCursorVisible (SetFont_redraw env v b s) = (v \<and> m_bCursorOn s \<and> m_pCursorPixels s \<noteq> None)"
  by (auto simp add: SetFont_redraw_def Let_def InvertCursor_visible)

lemma SetFont_cursor_fields [simp]:
  "m_bCursorOn (SetFont_cursor c r s) = m_bCursorOn s"
  "m_pCharGen (SetFont_cursor c r s) = m_pCharGen s"
  "m_pCursorPixels (SetFont_cursor c r s) = m_pCursorPixels s"
  "m_nWidth (SetFont_cursor c r s) = m_nWidth s"
  "m_nHeight (SetFont_cursor c r s) = m_nHeight s"
  "m_nUsedWidth (SetFont_cursor c r s) = m_nUsedWidth s"
  "m_nUsedHeight (SetFont_cursor c r s) = m_nUsedHeight s"
  "m_nScrollStart (SetFont_cursor c r s) = m_nScrollStart s"
  "m_nScrollEnd (SetFont_cursor c r s) = m_nScrollEnd s"
  "m_State (SetFont_cursor c r s) = m_State s"
  "m_SavedState (SetFont_cursor c r s) = m_SavedState s"
  "m_bVT52Mode (SetFont_cursor c r s) = m_bVT52Mode s"
  "m_nDepth (SetFont_cursor c r s) = m_nDepth s"
  by (simp_all add: SetFont_cursor_def Let_def)

lemma SetFont_cursor_position:
  "m_pCharGen s = Some g \<Longrightarrow>
     m_nCursorX (SetFont_cursor c r s) =
       (if 0 < m_nWidth s div GetCharWidth g
        then (if c \<ge> m_nWidth s div GetCharWidth g then m_nWidth s div GetCharWidth g - 1 else c)
               * GetCharWidth g
        else 0)
   \<and> m_nCursorY (SetFont_cursor c r s) =
       (if 0 < m_nHeight s div GetCharHeight g
        then (if r \<ge> m_nHeight s div GetCharHeight g then m_nHeight s div GetCharHeight g - 1 else r)
               * GetCharHeight g
        else 0)"
  by (simp add: SetFont_cursor_def Let_def GetColumns_def GetRows_def CharWidth_def CharHeight_def)

lemma SetFont_succeeds:
  "new_CCharGenerator env rFont FontFlags = Some g \<Longrightarrow>
   new_CursorPixels env (GetCharWidth g * GetCharHeight g) \<Longrightarrow>
     fst (SetFont env rFont FontFlags s)"
  by (simp add: SetFont_def Let_def)

lemma SetFont_fails_iff:
  "(\<not> fst (SetFont env rFont FontFlags s)) =
     (case new_CCharGenerator env rFont FontFlags of
        None \<Rightarrow> True
      | Some g \<Rightarrow> \<not> new_CursorPixels env (GetCharWidth g * GetCharHeight g))"
  by (simp add: SetFont_def Let_def SetFont_failed_def split: option.splits)

lemma SetFont_success_state:
  assumes "new_CCharGenerator env rFont FontFlags = Some g"
    and "new_CursorPixels env (GetCharWidth g * GetCharHeight g)"
  shows "snd (SetFont env rFont FontFlags s) =
           SetFont_redraw env (m_bCursorVisible s) (m_bBlinkingCursor s)
             (SetFont_cursor (old_column s) (old_row s)
                (SetFont_geometry g rFont FontFlags
                   ((SetFont_hide s)\<lparr>m_pCharGen := Some g,
                      m_pGraphicsCharGen :=
                        new_CCharGenerator env
                          (GetFont env (gfxSelection (m_CurrentFontSelection s))) FontFlags,
                      m_pCursorPixels := None\<rparr>)))"
  using assms by (simp add: SetFont_def Let_def)

lemma SetFont_success_fields:
  assumes "new_CCharGenerator env rFont FontFlags = Some g"
    and "new_CursorPixels env (GetCharWidth g * GetCharHeight g)"
  shows "m_pCharGen (snd (SetFont env rFont FontFlags s)) = Some g"
    and "m_nWidth (snd (SetFont env rFont FontFlags s)) = m_nWidth s"
    and "m_nHeight (snd (SetFont env rFont FontFlags s)) = m_nHeight s"
    and "m_nCursorX (snd (SetFont env rFont FontFlags s)) =
          (if 0 < m_nWidth s div GetCharWidth g
           then (if old_column s \<ge> m_nWidth s div GetCharWidth g
                 then m_nWidth s div GetCharWidth g - 1 else old_column s) * GetCharWidth g
           else 0)"
    and "m_nCursorY (snd (SetFont env rFont FontFlags s)) =
          (if 0 < m_nHeight s div GetCharHeight g
           then (if old_row s \<ge> m_nHeight s div GetCharHeight g
                 then m_nHeight s div GetCharHeight g - 1 else old_row s) * GetCharHeight g
           else 0)"
    and "m_bCursorVisible (snd (SetFont env rFont FontFlags s)) = (m_bCursorVisible s \<and> m_bCursorOn s)"
    and "m_bCursorOn (snd (SetFont env rFont FontFlags s)) = m_bCursorOn s"
    and "m_State (snd (SetFont env rFont FontFlags s)) = m_State s"
    and "m_bVT52Mode (snd (SetFont env rFont FontFlags s)) = m_bVT52Mode s"
    and "m_SavedState (snd (SetFont env rFont FontFlags s)) = m_SavedState s"
    and "m_nUsedWidth (snd (SetFont env rFont FontFlags s)) = m_nWidth s div GetCharWidth g * GetCharWidth g"
    and "m_nUsedHeight (snd (SetFont env rFont FontFlags s)) = m_nHeight s div GetCharHeight g * GetCharHeight g"
    and "m_nScrollStart (snd (SetFont env rFont FontFlags s)) = m_nScrollStart s"
    and "m_nScrollEnd (snd (SetFont env rFont FontFlags s)) = m_nHeight s div GetCharHeight g * GetCharHeight g"
  unfolding SetFont_success_state [OF assms]
  by (simp_all add: SetFont_redraw_visible SetFont_geometry_def
        SetFont_cursor_position [where g = g, THEN conjunct1]
        SetFont_cursor_position [where g = g, THEN conjunct2])

lemmas example_defs = example_renderer_def example_env_def example_gen_def

lemmas write_defs = feed_def Write_def write_start_def write_escape_ansi_def write_escape_vt52_def
  write_bracket_def write_number1_def write_number2_def write_number3_def write_semicolon_def
  write_question_mark_def write_font_change_def write_auto_page_def is_digit_def digit_val_def

lemma SetFont_hide_invisible:
  "\<not> m_bCursorVisible s \<Longrightarrow> \<not> m_bCursorVisible (SetFont_hide s)"
  by (simp add: SetFont_hide_def)

lemma SetFont_failure_fields:
  assumes "\<not> fst (SetFont env rFont FontFlags s)"
  shows "kept_on_failure (snd (SetFont env rFont FontFlags s)) = kept_on_failure s"
    and "\<not> m_bCursorVisible (snd (SetFont env rFont FontFlags s))"
    and "m_pCharGen (snd (SetFont env rFont FontFlags s)) = None"
proof -
  show "kept_on_failure (snd (SetFont env rFont FontFlags s)) = kept_on_failure s"
    using assms
    by (simp add: SetFont_def Let_def SetFont_failed_def kept_on_failure_def
          split: option.splits if_splits)
  show "\<not> m_bCursorVisible (snd (SetFont env rFont FontFlags s))"
    using assms SetFont_hide_invisible [of s]
    by (simp add: SetFont_def Let_def SetFont_failed_def split: option.splits if_splits)
  show "m_pCharGen (snd (SetFont env rFont FontFlags s)) = None"
    using assms
    by (simp add: SetFont_def Let_def SetFont_failed_def split: option.splits if_splits)
qed

text \<open>
  Claim C6, as amended.  When \<^verbatim>\<open>SetFont\<close> fails it returns FALSE and leaves the cursor
  position, the colours, the font pointer and flags, the used size, the scroll region,
  the cursor mode and the blinking flag as they were; the cursor is left hidden
  (\<open>m_bCursorVisible\<close> is false), whatever it was before.
\<close>

theorem setfont_failure:
  "\<not> fst (SetFont env rFont FontFlags s) \<Longrightarrow>
     kept_on_failure (snd (SetFont env rFont FontFlags s)) = kept_on_failure s
   \<and> \<not> m_bCursorVisible (snd (SetFont env rFont FontFlags s))"
  by (simp add: SetFont_failure_fields)

lemma example_no_memory_fails:
  "\<not> fst (SetFont example_env_no_memory 0 FontFlagsNone s)"
  by (simp add: SetFont_fails_iff example_env_no_memory_def)

theorem setfont_failure_witness:
  "\<not> fst (SetFont example_env_no_memory 0 FontFlagsNone (example_renderer 8 6 2 2))
   \<and> kept_on_failure (snd (SetFont example_env_no_memory 0 FontFlagsNone (example_renderer 8 6 2 2)))
       = kept_on_failure (example_renderer 8 6 2 2)
   \<and> \<not> m_bCursorVisible (snd (SetFont example_env_no_memory 0 FontFlagsNone (example_renderer 8 6 2 2)))"
  using setfont_failure [OF example_no_memory_fails, of "example_renderer 8 6 2 2"]
    example_no_memory_fails [of "example_renderer 8 6 2 2"]
  by (intro conjI) (erule conjunct1 conjunct2 | assumption)+

lemma example_cursor_drawn:
  "m_bCursorVisible (InvertCursor (example_renderer w h cw ch))"
  "m_pCharGen (InvertCursor (example_renderer w h cw ch)) \<noteq> None"
  "m_bCursorOn (InvertCursor (example_renderer w h cw ch))"
  by (simp_all add: InvertCursor_visible) (simp_all add: example_renderer_def)

text \<open>
  Claim C6 as stated fails: with the cursor drawn, a failing \<^verbatim>\<open>SetFont\<close> leaves it
  hidden, and the character generator is gone.
\<close>

theorem setfont_failure_counterexample:
  "m_bCursorVisible (InvertCursor (example_renderer 8 6 2 2))
   \<and> m_pCharGen (InvertCursor (example_renderer 8 6 2 2)) \<noteq> None
   \<and> \<not> fst (SetFont example_env_no_memory 0 FontFlagsNone (InvertCursor (example_renderer 8 6 2 2)))
   \<and> \<not> m_bCursorVisible
         (snd (SetFont example_env_no_memory 0 FontFlagsNone (InvertCursor (example_renderer 8 6 2 2))))
   \<and> m_pCharGen
         (snd (SetFont example_env_no_memory 0 FontFlagsNone (InvertCursor (example_renderer 8 6 2 2))))
       = None"
  by (intro conjI example_cursor_drawn example_no_memory_fails
        SetFont_failure_fields [OF example_no_memory_fails])

lemma min_pred: "(if (c::nat) \<ge> n then n - 1 else c) = min c (n - 1)"
  by (simp add: min_def) arith

text \<open>
  Claim C7, as amended.  When \<^verbatim>\<open>SetFont\<close> succeeds, the cursor is in the column and row
  it had under the old cell size, clamped to the last column and row of the new cell
  size, at the pixel position of that cell; the visibility flag \<^verbatim>\<open>m_bCursorVisible\<close> is
  true afterwards exactly when it was true before and the cursor mode \<^verbatim>\<open>m_bCursorOn\<close> is
  on, and the cursor mode is kept.  The statement is about the flag, not about the pixels
  of the cursor cell.
\<close>

theorem setfont_success:
  "fst (SetFont env rFont FontFlags s) \<Longrightarrow>
   new_CCharGenerator env rFont FontFlags = Some g \<Longrightarrow>
   0 < GetCharWidth g \<Longrightarrow> 0 < GetCharHeight g \<Longrightarrow>
   m_pCharGen s = Some g0 \<Longrightarrow> 0 < GetCharWidth g0 \<Longrightarrow> 0 < GetCharHeight g0 \<Longrightarrow>
     m_pCharGen (snd (SetFont env rFont FontFlags s)) = Some g
   \<and> m_nCursorX (snd (SetFont env rFont FontFlags s)) =
        min (m_nCursorX s div GetCharWidth g0) (m_nWidth s div GetCharWidth g - 1) * GetCharWidth g
   \<and> m_nCursorY (snd (SetFont env rFont FontFlags s)) =
        min (m_nCursorY s div GetCharHeight g0) (m_nHeight s div GetCharHeight g - 1) * GetCharHeight g
   \<and> m_bCursorVisible (snd (SetFont env rFont FontFlags s)) = (m_bCursorVisible s \<and> m_bCursorOn s)
   \<and> m_bCursorOn (snd (SetFont env rFont FontFlags s)) = m_bCursorOn s"
proof -
  assume ok: "fst (SetFont env rFont FontFlags s)"
    and gen: "new_CCharGenerator env rFont FontFlags = Some g"
    and old: "m_pCharGen s = Some g0" "0 < GetCharWidth g0" "0 < GetCharHeight g0"
  from ok gen have alloc: "new_CursorPixels env (GetCharWidth g * GetCharHeight g)"
    using SetFont_fails_iff [of env rFont FontFlags s] by simp
  note F = SetFont_success_fields [OF gen alloc, of s]
  have c: "old_column s = m_nCursorX s div GetCharWidth g0" "old_row s = m_nCursorY s div GetCharHeight g0"
    using old by (simp_all add: old_column_def old_row_def)
  have x: "m_nCursorX (snd (SetFont env rFont FontFlags s)) =
        min (m_nCursorX s div GetCharWidth g0) (m_nWidth s div GetCharWidth g - 1) * GetCharWidth g"
    unfolding F(4) c min_pred by simp
  have y: "m_nCursorY (snd (SetFont env rFont FontFlags s)) =
        min (m_nCursorY s div GetCharHeight g0) (m_nHeight s div GetCharHeight g - 1) * GetCharHeight g"
    unfolding F(5) c min_pred by simp
  show ?thesis by (intro conjI F(1) x y F(6) F(7))
qed

theorem setfont_success_witness:
  "fst (SetFont example_env 0 FontFlagsDoubleWidth
          (InvertCursor ((example_renderer 8 6 2 2)\<lparr>m_nCursorX := 6, m_nCursorY := 4\<rparr>)))
   \<and> m_bCursorVisible (InvertCursor ((example_renderer 8 6 2 2)\<lparr>m_nCursorX := 6, m_nCursorY := 4\<rparr>))
   \<and> m_bCursorOn (InvertCursor ((example_renderer 8 6 2 2)\<lparr>m_nCursorX := 6, m_nCursorY := 4\<rparr>))
   \<and> m_nCursorX (snd (SetFont example_env 0 FontFlagsDoubleWidth
         (InvertCursor ((example_renderer 8 6 2 2)\<lparr>m_nCursorX := 6, m_nCursorY := 4\<rparr>)))) = 4
   \<and> m_nCursorY (snd (SetFont example_env 0 FontFlagsDoubleWidth
         (InvertCursor ((example_renderer 8 6 2 2)\<lparr>m_nCursorX := 6, m_nCursorY := 4\<rparr>)))) = 4
   \<and> m_bCursorVisible (snd (SetFont example_env 0 FontFlagsDoubleWidth
         (InvertCursor ((example_renderer 8 6 2 2)\<lparr>m_nCursorX := 6, m_nCursorY := 4\<rparr>))))
   \<and> m_bCursorOn (snd (SetFont example_env 0 FontFlagsDoubleWidth
         (InvertCursor ((example_renderer 8 6 2 2)\<lparr>m_nCursorX := 6, m_nCursorY := 4\<rparr>))))"
proof -
  let ?R = "(example_renderer 8 6 2 2)\<lparr>m_nCursorX := 6, m_nCursorY := 4\<rparr>"
  let ?S = "InvertCursor ?R"
  have gen: "new_CCharGenerator example_env 0 FontFlagsDoubleWidth = Some (example_gen 4 2)"
    by (simp add: example_env_def)
  have alloc: "new_CursorPixels example_env (GetCharWidth (example_gen 4 2) * GetCharHeight (example_gen 4 2))"
    by (simp add: example_env_def)
  have ok: "fst (SetFont example_env 0 FontFlagsDoubleWidth ?S)"
    by (rule SetFont_succeeds [OF gen alloc])
  have g: "0 < GetCharWidth (example_gen 4 2)" "0 < GetCharHeight (example_gen 4 2)"
    by (simp_all add: example_gen_def)
  have old: "m_pCharGen ?S = Some (example_gen 2 2)" by (simp add: example_renderer_def)
  have g0: "0 < GetCharWidth (example_gen 2 2)" "0 < GetCharHeight (example_gen 2 2)"
    by (simp_all add: example_gen_def)
  have v: "m_nCursorX ?S = 6" "m_nCursorY ?S = 4" "m_nWidth ?S = 8" "m_nHeight ?S = 6"
    by (simp_all add: example_renderer_def)
  have r: "m_bCursorOn ?R" "m_pCursorPixels ?R \<noteq> None" "\<not> m_bCursorVisible ?R"
    by (simp_all add: example_renderer_def)
  have on: "m_bCursorOn ?S" using r(1) by simp
  have vis: "m_bCursorVisible ?S" unfolding InvertCursor_visible using r by simp
  have w: "GetCharWidth (example_gen 4 2) = 4" "GetCharHeight (example_gen 4 2) = 2"
     "GetCharWidth (example_gen 2 2) = 2" "GetCharHeight (example_gen 2 2) = 2"
    by (simp_all add: example_gen_def)
  note T = setfont_success [OF ok gen g old g0]
  have x: "m_nCursorX (snd (SetFont example_env 0 FontFlagsDoubleWidth ?S)) = 4"
    unfolding T [THEN conjunct2, THEN conjunct1] v w by simp
  have y: "m_nCursorY (snd (SetFont example_env 0 FontFlagsDoubleWidth ?S)) = 4"
    unfolding T [THEN conjunct2, THEN conjunct2, THEN conjunct1] v w by simp
  have vis': "m_bCursorVisible (snd (SetFont example_env 0 FontFlagsDoubleWidth ?S))"
    unfolding T [THEN conjunct2, THEN conjunct2, THEN conjunct2, THEN conjunct1] using vis on by simp
  have on': "m_bCursorOn (snd (SetFont example_env 0 FontFlagsDoubleWidth ?S))"
    unfolding T [THEN conjunct2, THEN conjunct2, THEN conjunct2, THEN conjunct2] by (rule on)
  show ?thesis by (intro conjI ok vis on x y vis' on')
qed

text \<open>
  Claim C7 as stated fails where the cursor is drawn and the cursor mode has been
  switched off (\<^verbatim>\<open>SetCursorMode (FALSE)\<close>): the visibility flag is true before a
  successful \<^verbatim>\<open>SetFont\<close> and false after it.
\<close>

theorem setfont_success_counterexample:
  "fst (SetFont example_env 0 FontFlagsNone (SetCursorMode False (InvertCursor (example_renderer 8 6 2 2))))
   \<and> m_bCursorVisible (SetCursorMode False (InvertCursor (example_renderer 8 6 2 2)))
   \<and> \<not> m_bCursorVisible
         (snd (SetFont example_env 0 FontFlagsNone
                (SetCursorMode False (InvertCursor (example_renderer 8 6 2 2)))))"
proof -
  let ?S = "SetCursorMode False (InvertCursor (example_renderer 8 6 2 2))"
  have gen: "new_CCharGenerator example_env 0 FontFlagsNone = Some (example_gen 2 2)"
    by (simp add: example_env_def)
  have alloc: "new_CursorPixels example_env (GetCharWidth (example_gen 2 2) * GetCharHeight (example_gen 2 2))"
    by (simp add: example_env_def)
  have ok: "fst (SetFont example_env 0 FontFlagsNone ?S)"
    by (rule SetFont_succeeds [OF gen alloc])
  have v: "m_bCursorVisible ?S" "\<not> m_bCursorOn ?S"
    by (simp_all add: SetCursorMode_def example_cursor_drawn)
  have "\<not> m_bCursorVisible (snd (SetFont example_env 0 FontFlagsNone ?S))"
    unfolding SetFont_success_fields(6) [OF gen alloc] using v by simp
  with ok v show ?thesis by blast
qed

lemma restore_after_font_change:
  assumes "m_State s = StateStart" "\<not> m_bVT52Mode s"
    and gen: "new_CCharGenerator env (GetFont env (m_CurrentFontSelection s)) FontFlagsDoubleWidth = Some g"
    and alloc: "new_CursorPixels env (GetCharWidth g * GetCharHeight g)"
    and "m_nCursorX s < m_nWidth s" "m_nCursorY s < m_nHeight s"
  shows "m_nCursorX (feed env [CHR 0x1B, CHR ''7'', CHR 0x1B, CHR ''#'', CHR ''6'', CHR 0x1B, CHR ''8''] s)
           = m_nCursorX s"
    and "m_nCursorY (feed env [CHR 0x1B, CHR ''7'', CHR 0x1B, CHR ''#'', CHR ''6'', CHR 0x1B, CHR ''8''] s)
           = m_nCursorY s"
    and "m_pCharGen (feed env [CHR 0x1B, CHR ''7'', CHR 0x1B, CHR ''#'', CHR ''6'', CHR 0x1B, CHR ''8''] s)
           = Some g"
    and "m_nWidth (feed env [CHR 0x1B, CHR ''7'', CHR 0x1B, CHR ''#'', CHR ''6'', CHR 0x1B, CHR ''8''] s)
           = m_nWidth s"
    and "m_nHeight (feed env [CHR 0x1B, CHR ''7'', CHR 0x1B, CHR ''#'', CHR ''6'', CHR 0x1B, CHR ''8''] s)
           = m_nHeight s"
proof -
  note F = SetFont_success_fields [OF gen alloc]
  have e: "feed env [CHR 0x1B, CHR ''7'', CHR 0x1B, CHR ''#'', CHR ''6'', CHR 0x1B, CHR ''8''] s
      = (RestoreCursor ((snd (SetFontSelection env (m_CurrentFontSelection s) FontFlagsDoubleWidth
            ((SaveCursor s)\<lparr>m_State := StateFontChange\<rparr>)))\<lparr>m_State := StateEscape\<rparr>))\<lparr>m_State := StateStart\<rparr>"
    using assms(1,2)
    by (simp add: write_defs SetFontSelection_def F SaveCursor_def)
  show "m_nCursorX (feed env [CHR 0x1B, CHR ''7'', CHR 0x1B, CHR ''#'', CHR ''6'', CHR 0x1B, CHR ''8''] s)
           = m_nCursorX s"
    unfolding e using assms(5) by (simp add: RestoreCursor_def SetFontSelection_def F SaveCursor_def Let_def)
  show "m_nCursorY (feed env [CHR 0x1B, CHR ''7'', CHR 0x1B, CHR ''#'', CHR ''6'', CHR 0x1B, CHR ''8''] s)
           = m_nCursorY s"
    unfolding e using assms(6) by (simp add: RestoreCursor_def SetFontSelection_def F SaveCursor_def Let_def)
  show "m_pCharGen (feed env [CHR 0x1B, CHR ''7'', CHR 0x1B, CHR ''#'', CHR ''6'', CHR 0x1B, CHR ''8''] s)
           = Some g"
    unfolding e by (simp add: RestoreCursor_def SetFontSelection_def F SaveCursor_def Let_def)
  show "m_nWidth (feed env [CHR 0x1B, CHR ''7'', CHR 0x1B, CHR ''#'', CHR ''6'', CHR 0x1B, CHR ''8''] s)
           = m_nWidth s"
    unfolding e by (simp add: RestoreCursor_def SetFontSelection_def F SaveCursor_def Let_def)
  show "m_nHeight (feed env [CHR 0x1B, CHR ''7'', CHR 0x1B, CHR ''#'', CHR ''6'', CHR 0x1B, CHR ''8''] s)
           = m_nHeight s"
    unfolding e by (simp add: RestoreCursor_def SetFontSelection_def F SaveCursor_def Let_def)
qed

text \<open>
  Claim C8: the cursor invariant after every operation.  The code breaks it: with the
  cursor in column 1, the bytes ESC 7, ESC # 6 (double width), ESC 8 restore the saved
  pixel position 2 under a cell width of 4.
\<close>

theorem restore_cursor_misaligned:
  "cursor_invariant ((example_renderer 8 6 2 2)\<lparr>m_nCursorX := 2\<rparr>)
   \<and> m_nCursorX (feed example_env
        [CHR 0x1B, CHR ''7'', CHR 0x1B, CHR ''#'', CHR ''6'', CHR 0x1B, CHR ''8'']
        ((example_renderer 8 6 2 2)\<lparr>m_nCursorX := 2\<rparr>)) = 2
   \<and> CharWidth (feed example_env
        [CHR 0x1B, CHR ''7'', CHR 0x1B, CHR ''#'', CHR ''6'', CHR 0x1B, CHR ''8'']
        ((example_renderer 8 6 2 2)\<lparr>m_nCursorX := 2\<rparr>)) = 4
   \<and> \<not> cursor_invariant (feed example_env
        [CHR 0x1B, CHR ''7'', CHR 0x1B, CHR ''#'', CHR ''6'', CHR 0x1B, CHR ''8'']
        ((example_renderer 8 6 2 2)\<lparr>m_nCursorX := 2\<rparr>))"
proof -
  let ?S = "(example_renderer 8 6 2 2)\<lparr>m_nCursorX := 2\<rparr>"
  let ?F = "feed example_env [CHR 0x1B, CHR ''7'', CHR 0x1B, CHR ''#'', CHR ''6'', CHR 0x1B, CHR ''8''] ?S"
  have a: "m_State ?S = StateStart" "\<not> m_bVT52Mode ?S" "m_nCursorX ?S < m_nWidth ?S"
    "m_nCursorY ?S < m_nHeight ?S" "m_nCursorX ?S = 2"
    by (simp_all add: example_renderer_def)
  have gen: "new_CCharGenerator example_env (GetFont example_env (m_CurrentFontSelection ?S))
      FontFlagsDoubleWidth = Some (example_gen 4 2)"
    by (simp add: example_env_def)
  have alloc: "new_CursorPixels example_env (GetCharWidth (example_gen 4 2) * GetCharHeight (example_gen 4 2))"
    by (simp add: example_env_def)
  note R = restore_after_font_change [OF a(1) a(2) gen alloc a(3) a(4)]
  have i: "cursor_invariant ?S"
    by (simp add: cursor_invariant_def example_renderer_def example_gen_def CharWidth_def CharHeight_def)
  have x: "m_nCursorX ?F = 2" using R(1) a(5) by simp
  have w: "CharWidth ?F = 4" using R(3) by (simp add: CharWidth_def example_gen_def)
  have n: "\<not> cursor_invariant ?F" using x w by (simp add: cursor_invariant_def)
  show ?thesis by (intro conjI i x w n)
qed

section \<open>The scroll engine on the pixel buffer\<close>

lemma length_store_pattern [simp]: "length (store_pattern buf off pat cnt) = length buf"
  by (simp add: store_pattern_def)

lemma nth_store_pattern:
  "i < length buf \<Longrightarrow>
     store_pattern buf off pat cnt ! i =
       (if off \<le> i \<and> i < off + cnt * length pat then pat ! ((i - off) mod length pat) else buf ! i)"
  by (simp add: store_pattern_def)

lemma length_memmove_buf [simp]: "length (memmove_buf buf dst src n) = length buf"
  by (simp add: memmove_buf_def)

lemma nth_memmove_buf:
  "i < length buf \<Longrightarrow>
     memmove_buf buf dst src n ! i =
       (if dst \<le> i \<and> i < dst + n then buf ! (i - dst + src) else buf ! i)"
  by (simp add: memmove_buf_def)

lemma length_fill_pat:
  "length (fill_pat d c) = (if d = 1 then 1 else d div 8)"
  by (simp add: fill_pat_def le_bytes_def)

lemma length_clear_bytes [simp]: "length (clear_bytes d buf off n c) = length buf"
  by (simp add: clear_bytes_def)

lemma nth_clear_bytes_outside:
  "i < length buf \<Longrightarrow> i < off \<or> off + n \<le> i \<Longrightarrow> clear_bytes d buf off n c ! i = buf ! i"
proof -
  assume i: "i < length buf" and o: "i < off \<or> off + n \<le> i"
  have a: "n div 2 * 2 \<le> n" "n div 4 * 4 \<le> n" by simp_all
  show ?thesis
    using i o a by (auto simp add: clear_bytes_def nth_store_pattern length_fill_pat)
qed

lemma BeginSmooth_surface [simp]:
  "surface (snd (BeginSmoothScrollAnimation env a b d s)) = surface s"
  by (simp add: surface_def BeginSmoothScrollAnimation_def Let_def split: option.splits)

lemma surface_fields:
  "surface s = surface t \<Longrightarrow>
     m_pBuffer8 s = m_pBuffer8 t \<and> m_pCharGen s = m_pCharGen t \<and> CharHeight s = CharHeight t
     \<and> m_nScrollStart s = m_nScrollStart t \<and> m_nScrollEnd s = m_nScrollEnd t
     \<and> m_nCursorY s = m_nCursorY t \<and> m_nPitch s = m_nPitch t \<and> m_nWidth s = m_nWidth t
     \<and> m_nHeight s = m_nHeight t
     \<and> m_nDepth s = m_nDepth t \<and> m_BackgroundColor s = m_BackgroundColor t"
  by (simp add: surface_def CharHeight_def)

lemma BeginSmooth_result:
  "BeginSmoothScrollAnimation env a b d s = (r, s1) \<Longrightarrow> surface s1 = surface s"
  using BeginSmooth_surface [of env a b d s] by simp

lemma Scroll_buffer:
  "m_pBuffer8 (Scroll env s) =
     (let nLines = CharHeight s;
          pTo = m_nScrollStart s * m_nPitch s;
          pFrom = (m_nScrollStart s + nLines) * m_nPitch s;
          nSize = u32 (m_nPitch s * usub (usub (m_nScrollEnd s) (m_nScrollStart s)) nLines);
          buf1 = (if nSize \<noteq> 0 then memmove_buf (m_pBuffer8 s) pTo pFrom nSize else m_pBuffer8 s);
          pTo' = (if nSize \<noteq> 0 then pTo + nSize else pTo);
          nSize' = m_nWidth s * nLines;
          d = m_nDepth s
      in if d = 1 then store_pattern buf1 pTo' (fill_pat d (m_BackgroundColor s)) (nSize' div 8)
         else if d = 8 \<or> d = 16 \<or> d = 32
         then store_pattern buf1 pTo' (fill_pat d (m_BackgroundColor s)) nSize'
         else buf1)"
proof -
  obtain b s1 where h: "BeginSmoothScrollAnimation env (m_nScrollStart s) (usub (m_nScrollEnd s) 1) False s = (b, s1)"
    by (cases "BeginSmoothScrollAnimation env (m_nScrollStart s) (usub (m_nScrollEnd s) 1) False s")
  note f = surface_fields [OF BeginSmooth_result [OF h]]
  show ?thesis
    using h f
    by (simp add: Scroll_def Let_def count_normal_scroll_def SetUpdateArea_def)
qed

text \<open>The guard of \<^verbatim>\<open>InsertLines\<close> and \<^verbatim>\<open>DeleteLines\<close>, and the buffer when it holds.\<close>

lemma InsertLines_skip:
  "m_pCharGen s = None \<or> n = 0 \<or> CharHeight s = 0 \<or> m_nCursorY s < m_nScrollStart s
     \<or> m_nScrollEnd s \<le> m_nCursorY s \<or> (m_nScrollEnd s - m_nCursorY s) div CharHeight s = 0
   \<Longrightarrow> InsertLines env n s = s"
  by (auto simp add: InsertLines_def CharHeight_def Let_def split: option.splits)

lemma DeleteLines_skip:
  "m_pCharGen s = None \<or> n = 0 \<or> CharHeight s = 0 \<or> m_nCursorY s < m_nScrollStart s
     \<or> m_nScrollEnd s \<le> m_nCursorY s \<or> (m_nScrollEnd s - m_nCursorY s) div CharHeight s = 0
   \<Longrightarrow> DeleteLines env n s = s"
  by (auto simp add: DeleteLines_def CharHeight_def Let_def split: option.splits)

lemma InsertLines_buffer:
  assumes "m_pCharGen s \<noteq> None" "0 < n" "0 < CharHeight s" "m_nScrollStart s \<le> m_nCursorY s"
    and "m_nCursorY s < m_nScrollEnd s" "0 < (m_nScrollEnd s - m_nCursorY s) div CharHeight s"
  shows "m_pBuffer8 (InsertLines env n s) =
     (let nCount = min n ((m_nScrollEnd s - m_nCursorY s) div CharHeight s);
          startOffset = m_nCursorY s * m_nPitch s;
          endOffset = m_nScrollEnd s * m_nPitch s;
          insertBytes = m_nPitch s * CharHeight s * nCount;
          moveBytes = usub (usub endOffset startOffset) insertBytes
      in clear_bytes (m_nDepth s)
           (if moveBytes > 0
            then memmove_buf (m_pBuffer8 s) (startOffset + insertBytes) startOffset moveBytes
            else m_pBuffer8 s)
           startOffset insertBytes (m_BackgroundColor s))"
proof -
  obtain g where g: "m_pCharGen s = Some g" using assms(1) by auto
  let ?k = "min n ((m_nScrollEnd s - m_nCursorY s) div CharHeight s)"
  obtain b s1 where h:
    "(if ?k = 1 then BeginSmoothScrollAnimation env (m_nCursorY s) (usub (m_nScrollEnd s) 1) True s
      else (False, s)) = (b, s1)"
    by (cases "(if ?k = 1 then BeginSmoothScrollAnimation env (m_nCursorY s) (usub (m_nScrollEnd s) 1) True s
      else (False, s))")
  have "surface s1 = surface s"
    using h BeginSmooth_result [of env "m_nCursorY s" "usub (m_nScrollEnd s) 1" True s b s1]
    by (cases "?k = 1") auto
  note f = surface_fields [OF this]
  have k: "(if (m_nScrollEnd s - m_nCursorY s) div GetCharHeight g < n
            then (m_nScrollEnd s - m_nCursorY s) div GetCharHeight g else n) = ?k"
    using g by (simp add: min_def CharHeight_def)
  show ?thesis
    using assms g h f unfolding InsertLines_def
    by (simp add: Let_def k CharHeight_def count_normal_scroll_def SetUpdateArea_def del: min_less_iff_conj)
qed

lemma DeleteLines_buffer:
  assumes "m_pCharGen s \<noteq> None" "0 < n" "0 < CharHeight s" "m_nScrollStart s \<le> m_nCursorY s"
    and "m_nCursorY s < m_nScrollEnd s" "0 < (m_nScrollEnd s - m_nCursorY s) div CharHeight s"
  shows "m_pBuffer8 (DeleteLines env n s) =
     (let nCount = min n ((m_nScrollEnd s - m_nCursorY s) div CharHeight s);
          startOffset = m_nCursorY s * m_nPitch s;
          endOffset = m_nScrollEnd s * m_nPitch s;
          deleteBytes = m_nPitch s * CharHeight s * nCount;
          moveBytes = usub (usub endOffset startOffset) deleteBytes
      in clear_bytes (m_nDepth s)
           (if moveBytes > 0
            then memmove_buf (m_pBuffer8 s) startOffset (startOffset + deleteBytes) moveBytes
            else m_pBuffer8 s)
           (usub endOffset deleteBytes) deleteBytes (m_BackgroundColor s))"
proof -
  obtain g where g: "m_pCharGen s = Some g" using assms(1) by auto
  let ?k = "min n ((m_nScrollEnd s - m_nCursorY s) div CharHeight s)"
  obtain b s1 where h:
    "(if ?k = 1 then BeginSmoothScrollAnimation env (m_nCursorY s) (usub (m_nScrollEnd s) 1) False s
      else (False, s)) = (b, s1)"
    by (cases "(if ?k = 1 then BeginSmoothScrollAnimation env (m_nCursorY s) (usub (m_nScrollEnd s) 1) False s
      else (False, s))")
  have "surface s1 = surface s"
    using h BeginSmooth_result [of env "m_nCursorY s" "usub (m_nScrollEnd s) 1" False s b s1]
    by (cases "?k = 1") auto
  note f = surface_fields [OF this]
  have k: "(if (m_nScrollEnd s - m_nCursorY s) div GetCharHeight g < n
            then (m_nScrollEnd s - m_nCursorY s) div GetCharHeight g else n) = ?k"
    using g by (simp add: min_def CharHeight_def)
  show ?thesis
    using assms g h f unfolding DeleteLines_def
    by (simp add: Let_def k CharHeight_def count_normal_scroll_def SetUpdateArea_def del: min_less_iff_conj)
qed

lemma InsertLines_buffer_cong:
  assumes "surface s = surface t"
  shows "m_pBuffer8 (InsertLines env n s) = m_pBuffer8 (InsertLines env' n t)"
proof -
  note f = surface_fields [OF assms]
  show ?thesis
  proof (cases "m_pCharGen s = None \<or> n = 0 \<or> CharHeight s = 0 \<or> m_nCursorY s < m_nScrollStart s
     \<or> m_nScrollEnd s \<le> m_nCursorY s \<or> (m_nScrollEnd s - m_nCursorY s) div CharHeight s = 0")
    case True
    then have "m_pCharGen t = None \<or> n = 0 \<or> CharHeight t = 0 \<or> m_nCursorY t < m_nScrollStart t
     \<or> m_nScrollEnd t \<le> m_nCursorY t \<or> (m_nScrollEnd t - m_nCursorY t) div CharHeight t = 0"
      using f by simp
    with True f show ?thesis by (simp add: InsertLines_skip)
  next
    case False
    then have a: "m_pCharGen s \<noteq> None" "0 < n" "0 < CharHeight s" "m_nScrollStart s \<le> m_nCursorY s"
      "m_nCursorY s < m_nScrollEnd s" "0 < (m_nScrollEnd s - m_nCursorY s) div CharHeight s"
      by auto
    then have b: "m_pCharGen t \<noteq> None" "0 < n" "0 < CharHeight t" "m_nScrollStart t \<le> m_nCursorY t"
      "m_nCursorY t < m_nScrollEnd t" "0 < (m_nScrollEnd t - m_nCursorY t) div CharHeight t"
      using f by simp_all
    show ?thesis
      unfolding InsertLines_buffer [OF a] InsertLines_buffer [OF b] using f by (simp add: Let_def)
  qed
qed

lemma DeleteLines_buffer_cong:
  assumes "surface s = surface t"
  shows "m_pBuffer8 (DeleteLines env n s) = m_pBuffer8 (DeleteLines env' n t)"
proof -
  note f = surface_fields [OF assms]
  show ?thesis
  proof (cases "m_pCharGen s = None \<or> n = 0 \<or> CharHeight s = 0 \<or> m_nCursorY s < m_nScrollStart s
     \<or> m_nScrollEnd s \<le> m_nCursorY s \<or> (m_nScrollEnd s - m_nCursorY s) div CharHeight s = 0")
    case True
    then have "m_pCharGen t = None \<or> n = 0 \<or> CharHeight t = 0 \<or> m_nCursorY t < m_nScrollStart t
     \<or> m_nScrollEnd t \<le> m_nCursorY t \<or> (m_nScrollEnd t - m_nCursorY t) div CharHeight t = 0"
      using f by simp
    with True f show ?thesis by (simp add: DeleteLines_skip)
  next
    case False
    then have a: "m_pCharGen s \<noteq> None" "0 < n" "0 < CharHeight s" "m_nScrollStart s \<le> m_nCursorY s"
      "m_nCursorY s < m_nScrollEnd s" "0 < (m_nScrollEnd s - m_nCursorY s) div CharHeight s"
      by auto
    then have b: "m_pCharGen t \<noteq> None" "0 < n" "0 < CharHeight t" "m_nScrollStart t \<le> m_nCursorY t"
      "m_nCursorY t < m_nScrollEnd t" "0 < (m_nScrollEnd t - m_nCursorY t) div CharHeight t"
      using f by simp_all
    show ?thesis
      unfolding DeleteLines_buffer [OF a] DeleteLines_buffer [OF b] using f by (simp add: Let_def)
  qed
qed

lemma Scroll_buffer_cong:
  "surface s = surface t \<Longrightarrow> m_pBuffer8 (Scroll env s) = m_pBuffer8 (Scroll env' t)"
  unfolding Scroll_buffer using surface_fields [of s t] by (simp add: Let_def)

lemma Update_buffer [simp]: "m_pBuffer8 (Update env s) = m_pBuffer8 s"
  by (simp add: Update_def Let_def RenderSmoothScrollFrame_def split: option.splits)

lemma fold_Update_buffer [simp]: "m_pBuffer8 (fold Update ticks s) = m_pBuffer8 s"
  by (induction ticks arbitrary: s) simp_all

text \<open>
  Claim C3.  Two renderers with the same surface (pixel buffer, generator, scroll
  region, cursor row, geometry and background colour) have the same pixel buffer after
  \<^verbatim>\<open>Scroll\<close>, \<^verbatim>\<open>InsertLines (1)\<close> or \<^verbatim>\<open>DeleteLines (1)\<close>, whether or not either of them
  starts the smooth-scroll animation, and the ticks of the animation (\<^verbatim>\<open>Update\<close>) leave
  the pixel buffer as it is: the two paths differ in the frames pushed to the display only.
\<close>

theorem smooth_scroll_same_pixels:
  "surface s = surface t \<Longrightarrow>
     m_pBuffer8 (fold Update ticks (Scroll env s)) = m_pBuffer8 (Scroll env' t)
   \<and> m_pBuffer8 (fold Update ticks (InsertLines env 1 s)) = m_pBuffer8 (InsertLines env' 1 t)
   \<and> m_pBuffer8 (fold Update ticks (DeleteLines env 1 s)) = m_pBuffer8 (DeleteLines env' 1 t)"
  by (simp add: Scroll_buffer_cong InsertLines_buffer_cong DeleteLines_buffer_cong)

lemma Scroll_animation:
  "BeginSmoothScrollAnimation env (m_nScrollStart s) (usub (m_nScrollEnd s) 1) False s = (b, s1) \<Longrightarrow>
     m_bSmoothScrollActive (Scroll env s) = m_bSmoothScrollActive s1
   \<and> m_nSmoothScrollLastTick (Scroll env s) = m_nSmoothScrollLastTick s1
   \<and> m_nSmoothScrollOffset (Scroll env s) = m_nSmoothScrollOffset s1
   \<and> m_nSmoothScrollStep (Scroll env s) = m_nSmoothScrollStep s1
   \<and> CharHeight (Scroll env s) = CharHeight s1"
  by (simp add: Scroll_def Let_def count_normal_scroll_def SetUpdateArea_def CharHeight_def)

lemma example_animation_starts:
  "BeginSmoothScrollAnimation example_env 0 5 False (example_renderer 8 6 2 2) =
     (True, (example_renderer 8 6 2 2)
        \<lparr>m_pSmoothScrollSnapshot :=
           Some (take 48 (drop 0 (example_buffer 48)) @ drop 48 (example_blank 48)),
         m_nSmoothScrollStartY := 0,
         m_nSmoothScrollEndY := 5,
         m_bSmoothScrollDown := False,
         m_nSmoothScrollTickInterval := 8,
         m_nSmoothScrollStep := 1,
         m_nSmoothScrollOffset := 1,
         m_nSmoothScrollLastTick := 1000,
         m_nSmoothScrollStartTick := 1000,
         m_nSmoothScrollDebounceUntil := 1005,
         m_bSmoothScrollActive := True\<rparr>)"
  by (simp add: BeginSmoothScrollAnimation_def example_renderer_def example_env_def example_gen_def
        Let_def sdiff_def usub_def u32_def)

lemma BeginSmooth_disabled:
  "\<not> m_bSmoothScrollEnabled s \<Longrightarrow> BeginSmoothScrollAnimation env a b d s = (False, s)"
  by (simp add: BeginSmoothScrollAnimation_def split: option.splits)

lemma Update_completes:
  "m_bSmoothScrollActive s \<Longrightarrow> 0 \<le> sdiff (GetTicks env) (m_nSmoothScrollLastTick s) \<Longrightarrow>
   \<not> m_nSmoothScrollOffset s + m_nSmoothScrollStep s < CharHeight s \<Longrightarrow>
     \<not> m_bSmoothScrollActive (Update env s)"
  by (simp add: Update_def Let_def RenderSmoothScrollFrame_def CharHeight_def split: option.splits)

theorem smooth_scroll_same_pixels_witness:
  "surface (example_renderer 8 6 2 2) = surface (SetSmoothScrollEnabled False (example_renderer 8 6 2 2))
   \<and> m_bSmoothScrollActive (Scroll example_env (example_renderer 8 6 2 2))
   \<and> \<not> m_bSmoothScrollActive (Scroll example_env (SetSmoothScrollEnabled False (example_renderer 8 6 2 2)))
   \<and> \<not> m_bSmoothScrollActive (fold Update [example_env] (Scroll example_env (example_renderer 8 6 2 2)))
   \<and> m_pBuffer8 (fold Update [example_env] (Scroll example_env (example_renderer 8 6 2 2)))
       = m_pBuffer8 (Scroll example_env (SetSmoothScrollEnabled False (example_renderer 8 6 2 2)))"
proof -
  let ?S = "example_renderer 8 6 2 2"
  let ?T = "SetSmoothScrollEnabled False ?S"
  have su: "surface ?S = surface ?T"
    by (simp add: surface_def SetSmoothScrollEnabled_def)
  have r: "m_nScrollStart ?S = 0" "usub (m_nScrollEnd ?S) 1 = 5"
    by (simp_all add: example_renderer_def usub_def)
  have b: "BeginSmoothScrollAnimation example_env (m_nScrollStart ?S) (usub (m_nScrollEnd ?S) 1) False ?S
     = (True, ?S
        \<lparr>m_pSmoothScrollSnapshot :=
           Some (take 48 (drop 0 (example_buffer 48)) @ drop 48 (example_blank 48)),
         m_nSmoothScrollStartY := 0,
         m_nSmoothScrollEndY := 5,
         m_bSmoothScrollDown := False,
         m_nSmoothScrollTickInterval := 8,
         m_nSmoothScrollStep := 1,
         m_nSmoothScrollOffset := 1,
         m_nSmoothScrollLastTick := 1000,
         m_nSmoothScrollStartTick := 1000,
         m_nSmoothScrollDebounceUntil := 1005,
         m_bSmoothScrollActive := True\<rparr>)"
    unfolding r by (rule example_animation_starts)
  note A = Scroll_animation [OF b]
  have a1: "m_bSmoothScrollActive (Scroll example_env ?S)" using A by simp
  have t: "\<not> m_bSmoothScrollEnabled ?T" "\<not> m_bSmoothScrollActive ?T"
    by (simp_all add: SetSmoothScrollEnabled_def)
  have a2: "\<not> m_bSmoothScrollActive (Scroll example_env ?T)"
    using Scroll_animation [OF BeginSmooth_disabled [OF t(1)], of example_env] t(2) by simp
  have c: "\<not> m_bSmoothScrollActive (Update example_env (Scroll example_env ?S))"
  proof (rule Update_completes [OF a1])
    show "0 \<le> sdiff (GetTicks example_env) (m_nSmoothScrollLastTick (Scroll example_env ?S))"
      using A by (simp add: example_env_def sdiff_def)
    show "\<not> m_nSmoothScrollOffset (Scroll example_env ?S) + m_nSmoothScrollStep (Scroll example_env ?S)
             < CharHeight (Scroll example_env ?S)"
      using A by (simp add: CharHeight_def example_renderer_def example_gen_def)
  qed
  then have a3: "\<not> m_bSmoothScrollActive (fold Update [example_env] (Scroll example_env ?S))"
    by simp
  note T = smooth_scroll_same_pixels [OF su, of "[example_env]" example_env example_env]
  show ?thesis by (intro conjI su a1 a2 a3 T [THEN conjunct1])
qed


section \<open>The scroll region as a frame\<close>

lemma wf_pitch_height: "wf_surface s \<Longrightarrow> m_nPitch s * m_nHeight s = m_nSize s"
proof -
  assume wf: "wf_surface s"
  then obtain k where k: "m_nWidth s * m_nDepth s = 8 * k"
    by (auto simp add: wf_surface_def dvd_def)
  have "m_nWidth s * m_nHeight s * m_nDepth s = (m_nWidth s * m_nDepth s) * m_nHeight s"
    by (simp add: mult_ac)
  also have "\<dots> = 8 * (k * m_nHeight s)" unfolding k by simp
  finally have e: "m_nWidth s * m_nHeight s * m_nDepth s = 8 * (k * m_nHeight s)" .
  have q: "m_nWidth s * m_nHeight s * m_nDepth s div 8 = k * m_nHeight s" unfolding e by simp
  have p: "m_nWidth s * m_nDepth s div 8 = k" unfolding k by simp
  from wf have "m_nPitch s = m_nWidth s * m_nDepth s div 8"
    and "m_nSize s = m_nWidth s * m_nHeight s * m_nDepth s div 8"
    by (simp_all add: wf_surface_def)
  then show ?thesis unfolding p q by simp
qed

lemma wf_fill_width:
  assumes "wf_surface s"
  shows "(if m_nDepth s = 1 then m_nWidth s * c div 8 else m_nWidth s * c)
           * length (fill_pat (m_nDepth s) bg) = m_nPitch s * c"
proof -
  from assms obtain k where k: "m_nWidth s * m_nDepth s = 8 * k"
    by (auto simp add: wf_surface_def dvd_def)
  have p: "m_nPitch s = k" using assms k by (simp add: wf_surface_def)
  from assms have "m_nDepth s = 1 \<or> m_nDepth s = 8 \<or> m_nDepth s = 16 \<or> m_nDepth s = 32"
    by (simp add: wf_surface_def)
  then show ?thesis
  proof (elim disjE)
    assume d: "m_nDepth s = 1"
    with k have "m_nWidth s = 8 * k" by simp
    then show ?thesis using d p by (simp add: length_fill_pat)
  next
    assume d: "m_nDepth s = 8"
    with k have "m_nWidth s = k" by simp
    then show ?thesis using d p by (simp add: length_fill_pat)
  next
    assume d: "m_nDepth s = 16"
    with k have "k = 2 * m_nWidth s" by simp
    then show ?thesis using d p by (simp add: length_fill_pat)
  next
    assume d: "m_nDepth s = 32"
    with k have "k = 4 * m_nWidth s" by simp
    then show ?thesis using d p by (simp add: length_fill_pat)
  qed
qed

lemma scroll_expr_outside:
  assumes "i < length buf" "i < a \<or> a + n + cnt * length pat \<le> i"
  shows "store_pattern (if n \<noteq> 0 then memmove_buf buf a src n else buf)
           (if n \<noteq> 0 then a + n else a) pat cnt ! i = buf ! i"
  using assms by (auto simp add: nth_store_pattern nth_memmove_buf)

lemma Scroll_outside:
  assumes wf: "wf_surface s"
    and reg: "m_nScrollStart s + CharHeight s \<le> m_nScrollEnd s" "m_nScrollEnd s \<le> m_nHeight s"
    and i: "i < length (m_pBuffer8 s)"
      "i < m_nScrollStart s * m_nPitch s \<or> m_nScrollEnd s * m_nPitch s \<le> i"
  shows "m_pBuffer8 (Scroll env s) ! i = m_pBuffer8 s ! i"
proof -
  let ?p = "m_nPitch s" and ?S = "m_nScrollStart s" and ?E = "m_nScrollEnd s" and ?c = "CharHeight s"
  let ?n = "?p * (?E - ?S - ?c)"
  have "?E - ?S - ?c \<le> m_nHeight s" using reg by arith
  then have "?n \<le> ?p * m_nHeight s" by (rule mult_le_mono2)
  then have small: "?n < 4294967296"
    using wf wf_pitch_height [OF wf] by (simp add: wf_surface_def)
  have u: "u32 (?p * usub (usub ?E ?S) ?c) = ?n"
    using reg small by simp
  have "?S + (?E - ?S - ?c) + ?c = ?E" using reg by simp
  then have "(?S + (?E - ?S - ?c) + ?c) * ?p = ?E * ?p" by simp
  then have total: "?S * ?p + ?n + ?p * ?c = ?E * ?p"
    by (simp add: algebra_simps)
  note w = wf_fill_width [OF wf, of ?c "m_BackgroundColor s"]
  have o: "i < ?S * ?p \<or> ?S * ?p + ?n
      + (if m_nDepth s = 1 then m_nWidth s * ?c div 8 else m_nWidth s * ?c)
          * length (fill_pat (m_nDepth s) (m_BackgroundColor s)) \<le> i"
    unfolding w using i(2) total by simp
  have d: "m_nDepth s = 1 \<or> m_nDepth s = 8 \<or> m_nDepth s = 16 \<or> m_nDepth s = 32"
    using wf by (simp add: wf_surface_def)
  have "m_pBuffer8 (Scroll env s) =
      store_pattern (if ?n \<noteq> 0 then memmove_buf (m_pBuffer8 s) (?S * ?p) ((?S + ?c) * ?p) ?n
                     else m_pBuffer8 s)
        (if ?n \<noteq> 0 then ?S * ?p + ?n else ?S * ?p)
        (fill_pat (m_nDepth s) (m_BackgroundColor s))
        (if m_nDepth s = 1 then m_nWidth s * ?c div 8 else m_nWidth s * ?c)"
    unfolding Scroll_buffer Let_def u using d by auto
  then show ?thesis
    using scroll_expr_outside [OF i(1) o] by simp
qed

lemma insert_expr_outside:
  assumes "i < length buf" "i < a \<or> e \<le> i" "a + ins \<le> e"
  shows "clear_bytes d (if 0 < e - a - ins then memmove_buf buf (a + ins) a (e - a - ins) else buf)
           a ins c ! i = buf ! i"
  using assms by (auto simp add: nth_clear_bytes_outside nth_memmove_buf)

lemma delete_expr_outside:
  assumes "i < length buf" "i < a \<or> e \<le> i" "a + del \<le> e"
  shows "clear_bytes d (if 0 < e - a - del then memmove_buf buf a (a + del) (e - a - del) else buf)
           (e - del) del c ! i = buf ! i"
  using assms by (auto simp add: nth_clear_bytes_outside nth_memmove_buf)

lemma lines_fit:
  assumes "(Y::nat) < E" "0 < c"
  shows "Y * p + p * c * min n ((E - Y) div c) \<le> E * p"
proof -
  have "c * min n ((E - Y) div c) \<le> c * ((E - Y) div c)" by simp
  also have "\<dots> \<le> E - Y" by simp
  finally have "Y + c * min n ((E - Y) div c) \<le> E" using assms by simp
  then have "(Y + c * min n ((E - Y) div c)) * p \<le> E * p" by (rule mult_le_mono1)
  then show ?thesis by (simp add: algebra_simps)
qed

lemma InsertLines_outside:
  assumes i: "i < length (m_pBuffer8 s)"
      "i < m_nScrollStart s * m_nPitch s \<or> m_nScrollEnd s * m_nPitch s \<le> i"
  shows "m_pBuffer8 (InsertLines env n s) ! i = m_pBuffer8 s ! i"
proof (cases "m_pCharGen s = None \<or> n = 0 \<or> CharHeight s = 0 \<or> m_nCursorY s < m_nScrollStart s
     \<or> m_nScrollEnd s \<le> m_nCursorY s \<or> (m_nScrollEnd s - m_nCursorY s) div CharHeight s = 0")
  case True
  then show ?thesis by (simp add: InsertLines_skip)
next
  case False
  then have a: "m_pCharGen s \<noteq> None" "0 < n" "0 < CharHeight s" "m_nScrollStart s \<le> m_nCursorY s"
    "m_nCursorY s < m_nScrollEnd s" "0 < (m_nScrollEnd s - m_nCursorY s) div CharHeight s"
    by auto
  let ?a = "m_nCursorY s * m_nPitch s" and ?e = "m_nScrollEnd s * m_nPitch s"
  let ?ins = "m_nPitch s * CharHeight s * min n ((m_nScrollEnd s - m_nCursorY s) div CharHeight s)"
  have fit: "?a + ?ins \<le> ?e" by (rule lines_fit [OF a(5) a(3)])
  have "m_nScrollStart s * m_nPitch s \<le> ?a" using a(4) by (rule mult_le_mono1)
  with i(2) have o: "i < ?a \<or> ?e \<le> i" by arith
  have le: "?a \<le> ?e" "?ins \<le> ?e - ?a" using fit by arith+
  have u: "usub (usub ?e ?a) ?ins = ?e - ?a - ?ins"
    unfolding usub_le [OF le(1)] usub_le [OF le(2)] ..
  show ?thesis
    unfolding InsertLines_buffer [OF a] Let_def u
    by (rule insert_expr_outside [OF i(1) o fit])
qed

lemma DeleteLines_outside:
  assumes i: "i < length (m_pBuffer8 s)"
      "i < m_nScrollStart s * m_nPitch s \<or> m_nScrollEnd s * m_nPitch s \<le> i"
  shows "m_pBuffer8 (DeleteLines env n s) ! i = m_pBuffer8 s ! i"
proof (cases "m_pCharGen s = None \<or> n = 0 \<or> CharHeight s = 0 \<or> m_nCursorY s < m_nScrollStart s
     \<or> m_nScrollEnd s \<le> m_nCursorY s \<or> (m_nScrollEnd s - m_nCursorY s) div CharHeight s = 0")
  case True
  then show ?thesis by (simp add: DeleteLines_skip)
next
  case False
  then have a: "m_pCharGen s \<noteq> None" "0 < n" "0 < CharHeight s" "m_nScrollStart s \<le> m_nCursorY s"
    "m_nCursorY s < m_nScrollEnd s" "0 < (m_nScrollEnd s - m_nCursorY s) div CharHeight s"
    by auto
  let ?a = "m_nCursorY s * m_nPitch s" and ?e = "m_nScrollEnd s * m_nPitch s"
  let ?del = "m_nPitch s * CharHeight s * min n ((m_nScrollEnd s - m_nCursorY s) div CharHeight s)"
  have fit: "?a + ?del \<le> ?e" by (rule lines_fit [OF a(5) a(3)])
  have "m_nScrollStart s * m_nPitch s \<le> ?a" using a(4) by (rule mult_le_mono1)
  with i(2) have o: "i < ?a \<or> ?e \<le> i" by arith
  have le: "?a \<le> ?e" "?del \<le> ?e - ?a" "?del \<le> ?e" using fit by arith+
  have u: "usub (usub ?e ?a) ?del = ?e - ?a - ?del" "usub ?e ?del = ?e - ?del"
    unfolding usub_le [OF le(1)] usub_le [OF le(2)] usub_le [OF le(3)] by (rule refl)+
  show ?thesis
    unfolding DeleteLines_buffer [OF a] Let_def u
    by (rule delete_expr_outside [OF i(1) o fit])
qed

lemma Scroll_length [simp]: "length (m_pBuffer8 (Scroll env s)) = length (m_pBuffer8 s)"
  unfolding Scroll_buffer by (simp add: Let_def)

lemma InsertLines_length [simp]: "length (m_pBuffer8 (InsertLines env n s)) = length (m_pBuffer8 s)"
proof (cases "m_pCharGen s = None \<or> n = 0 \<or> CharHeight s = 0 \<or> m_nCursorY s < m_nScrollStart s
     \<or> m_nScrollEnd s \<le> m_nCursorY s \<or> (m_nScrollEnd s - m_nCursorY s) div CharHeight s = 0")
  case True
  then show ?thesis by (simp add: InsertLines_skip)
next
  case False
  then have a: "m_pCharGen s \<noteq> None" "0 < n" "0 < CharHeight s" "m_nScrollStart s \<le> m_nCursorY s"
    "m_nCursorY s < m_nScrollEnd s" "0 < (m_nScrollEnd s - m_nCursorY s) div CharHeight s"
    by auto
  show ?thesis unfolding InsertLines_buffer [OF a] by (simp add: Let_def)
qed

lemma DeleteLines_length [simp]: "length (m_pBuffer8 (DeleteLines env n s)) = length (m_pBuffer8 s)"
proof (cases "m_pCharGen s = None \<or> n = 0 \<or> CharHeight s = 0 \<or> m_nCursorY s < m_nScrollStart s
     \<or> m_nScrollEnd s \<le> m_nCursorY s \<or> (m_nScrollEnd s - m_nCursorY s) div CharHeight s = 0")
  case True
  then show ?thesis by (simp add: DeleteLines_skip)
next
  case False
  then have a: "m_pCharGen s \<noteq> None" "0 < n" "0 < CharHeight s" "m_nScrollStart s \<le> m_nCursorY s"
    "m_nCursorY s < m_nScrollEnd s" "0 < (m_nScrollEnd s - m_nCursorY s) div CharHeight s"
    by auto
  show ?thesis unfolding DeleteLines_buffer [OF a] by (simp add: Let_def)
qed

lemma outside_take_drop:
  assumes "length xs = length ys"
    and "\<And>i. i < length ys \<Longrightarrow> i < a \<or> b \<le> i \<Longrightarrow> xs ! i = ys ! i"
  shows "take a xs = take a ys \<and> drop b xs = drop b ys"
  using assms by (auto simp add: list_eq_iff_nth_eq)

lemmas write_defs2 = feed_def Write_def write_start_def write_escape_ansi_def
  write_bracket_def write_number1_def write_number2_def write_semicolon_def is_digit_def digit_val_def

lemma set_region_feed:
  assumes "m_State s = StateStart" "\<not> m_bVT52Mode s"
  shows "feed env [CHR 0x1B, CHR ''['', CHR ''6'', CHR '';'', CHR ''9'', CHR ''r''] s =
     (SetScrollRegion 6 9
        (s\<lparr>m_State := StateEscape\<rparr>\<lparr>m_State := StateBracket, m_nParam1 := 0, m_nParam2 := 0\<rparr>
          \<lparr>m_nParam1 := 6, m_State := StateNumber1\<rparr>\<lparr>m_State := StateSemicolon\<rparr>
          \<lparr>m_nParam2 := 9, m_State := StateNumber2\<rparr>))\<lparr>m_State := StateStart\<rparr>"
  using assms by (simp add: write_defs2)

lemma used_height_le: "wf_surface s \<Longrightarrow> m_nUsedHeight s \<le> m_nHeight s"
  by (simp add: wf_surface_def)

lemma set_region_result:
  assumes "wf_surface s" "m_State s = StateStart" "\<not> m_bVT52Mode s"
    and "9 * CharHeight s \<le> m_nUsedHeight s"
  shows "m_nScrollStart (feed env [CHR 0x1B, CHR ''['', CHR ''6'', CHR '';'', CHR ''9'', CHR ''r''] s)
           = 5 * CharHeight s"
    and "m_nScrollEnd (feed env [CHR 0x1B, CHR ''['', CHR ''6'', CHR '';'', CHR ''9'', CHR ''r''] s)
           = 9 * CharHeight s"
    and "wf_surface (feed env [CHR 0x1B, CHR ''['', CHR ''6'', CHR '';'', CHR ''9'', CHR ''r''] s)"
    and "CharHeight (feed env [CHR 0x1B, CHR ''['', CHR ''6'', CHR '';'', CHR ''9'', CHR ''r''] s)
           = CharHeight s"
    and "m_nUsedHeight (feed env [CHR 0x1B, CHR ''['', CHR ''6'', CHR '';'', CHR ''9'', CHR ''r''] s)
           = m_nUsedHeight s"
proof -
  have c: "0 < CharHeight s" using assms(1) by (simp add: wf_surface_def)
  have "m_nHeight s < 4294967296" using assms(1) by (simp add: wf_surface_def)
  with used_height_le [OF assms(1)] have "m_nUsedHeight s < 4294967296" by arith
  with assms(4) have small: "5 * CharHeight s < 4294967296" "9 * CharHeight s < 4294967296"
    by arith+
  have u: "usub 6 1 = 5" by (simp add: usub_def)
  have ok: "5 * CharHeight s < m_nUsedHeight s" "5 * CharHeight s < 9 * CharHeight s"
    using c assms(4) by arith+
  show "m_nScrollStart (feed env [CHR 0x1B, CHR ''['', CHR ''6'', CHR '';'', CHR ''9'', CHR ''r''] s)
           = 5 * CharHeight s"
    unfolding set_region_feed [OF assms(2,3)]
    using small c ok assms(4) by (simp add: SetScrollRegion_def CursorHome_def Let_def CharHeight_def u)
  show "m_nScrollEnd (feed env [CHR 0x1B, CHR ''['', CHR ''6'', CHR '';'', CHR ''9'', CHR ''r''] s)
           = 9 * CharHeight s"
    unfolding set_region_feed [OF assms(2,3)]
    using small c ok assms(4) by (simp add: SetScrollRegion_def CursorHome_def Let_def CharHeight_def u)
  show "wf_surface (feed env [CHR 0x1B, CHR ''['', CHR ''6'', CHR '';'', CHR ''9'', CHR ''r''] s)"
    unfolding set_region_feed [OF assms(2,3)]
    using assms(1)
    by (simp add: SetScrollRegion_def CursorHome_def Let_def wf_surface_def CharHeight_def CharWidth_def)
  show "CharHeight (feed env [CHR 0x1B, CHR ''['', CHR ''6'', CHR '';'', CHR ''9'', CHR ''r''] s)
           = CharHeight s"
    unfolding set_region_feed [OF assms(2,3)]
    by (simp add: SetScrollRegion_def CursorHome_def Let_def CharHeight_def)
  show "m_nUsedHeight (feed env [CHR 0x1B, CHR ''['', CHR ''6'', CHR '';'', CHR ''9'', CHR ''r''] s)
           = m_nUsedHeight s"
    unfolding set_region_feed [OF assms(2,3)]
    by (simp add: SetScrollRegion_def CursorHome_def Let_def)
qed

lemma region_frame:
  assumes wf: "wf_surface t"
    and reg: "m_nScrollStart t + CharHeight t \<le> m_nScrollEnd t" "m_nScrollEnd t \<le> m_nUsedHeight t"
  shows "take (m_nScrollStart t * m_nPitch t) (m_pBuffer8 (Scroll env t))
           = take (m_nScrollStart t * m_nPitch t) (m_pBuffer8 t)
       \<and> drop (m_nScrollEnd t * m_nPitch t) (m_pBuffer8 (Scroll env t))
           = drop (m_nScrollEnd t * m_nPitch t) (m_pBuffer8 t)"
    and "take (m_nScrollStart t * m_nPitch t) (m_pBuffer8 (InsertLines env n t))
           = take (m_nScrollStart t * m_nPitch t) (m_pBuffer8 t)
       \<and> drop (m_nScrollEnd t * m_nPitch t) (m_pBuffer8 (InsertLines env n t))
           = drop (m_nScrollEnd t * m_nPitch t) (m_pBuffer8 t)"
    and "take (m_nScrollStart t * m_nPitch t) (m_pBuffer8 (DeleteLines env n t))
           = take (m_nScrollStart t * m_nPitch t) (m_pBuffer8 t)
       \<and> drop (m_nScrollEnd t * m_nPitch t) (m_pBuffer8 (DeleteLines env n t))
           = drop (m_nScrollEnd t * m_nPitch t) (m_pBuffer8 t)"
proof -
  have h: "m_nScrollEnd t \<le> m_nHeight t" using reg(2) used_height_le [OF wf] by simp
  show "take (m_nScrollStart t * m_nPitch t) (m_pBuffer8 (Scroll env t))
           = take (m_nScrollStart t * m_nPitch t) (m_pBuffer8 t)
       \<and> drop (m_nScrollEnd t * m_nPitch t) (m_pBuffer8 (Scroll env t))
           = drop (m_nScrollEnd t * m_nPitch t) (m_pBuffer8 t)"
    by (rule outside_take_drop) (simp_all add: Scroll_outside [OF wf reg(1) h])
  show "take (m_nScrollStart t * m_nPitch t) (m_pBuffer8 (InsertLines env n t))
           = take (m_nScrollStart t * m_nPitch t) (m_pBuffer8 t)
       \<and> drop (m_nScrollEnd t * m_nPitch t) (m_pBuffer8 (InsertLines env n t))
           = drop (m_nScrollEnd t * m_nPitch t) (m_pBuffer8 t)"
    by (rule outside_take_drop) (simp_all add: InsertLines_outside)
  show "take (m_nScrollStart t * m_nPitch t) (m_pBuffer8 (DeleteLines env n t))
           = take (m_nScrollStart t * m_nPitch t) (m_pBuffer8 t)
       \<and> drop (m_nScrollEnd t * m_nPitch t) (m_pBuffer8 (DeleteLines env n t))
           = drop (m_nScrollEnd t * m_nPitch t) (m_pBuffer8 t)"
    by (rule outside_take_drop) (simp_all add: DeleteLines_outside)
qed

text \<open>Claim C5.  After \<^verbatim>\<open>ESC [ 6 ; 9 r\<close> the scroll region is rows 5 to 8 (pixel rows
  from 5 to 9 cell heights), and in any well-formed state with that region and cell size a
  scroll of the region, an insertion and a deletion of lines leave every byte of the rows
  above the region and of the rows below it as it was.\<close>

theorem scroll_region_frame:
  "wf_surface s \<Longrightarrow> m_State s = StateStart \<Longrightarrow> \<not> m_bVT52Mode s \<Longrightarrow>
   9 * CharHeight s \<le> m_nUsedHeight s \<Longrightarrow>
   wf_surface t \<Longrightarrow> CharHeight t = CharHeight s \<Longrightarrow> m_nUsedHeight t = m_nUsedHeight s \<Longrightarrow>
   m_nScrollStart t =
     m_nScrollStart (feed env [CHR 0x1B, CHR ''['', CHR ''6'', CHR '';'', CHR ''9'', CHR ''r''] s) \<Longrightarrow>
   m_nScrollEnd t =
     m_nScrollEnd (feed env [CHR 0x1B, CHR ''['', CHR ''6'', CHR '';'', CHR ''9'', CHR ''r''] s) \<Longrightarrow>
     m_nScrollStart t = 5 * CharHeight s \<and> m_nScrollEnd t = 9 * CharHeight s
   \<and> take (m_nScrollStart t * m_nPitch t) (m_pBuffer8 (Scroll env' t))
         = take (m_nScrollStart t * m_nPitch t) (m_pBuffer8 t)
   \<and> drop (m_nScrollEnd t * m_nPitch t) (m_pBuffer8 (Scroll env' t))
         = drop (m_nScrollEnd t * m_nPitch t) (m_pBuffer8 t)
   \<and> take (m_nScrollStart t * m_nPitch t) (m_pBuffer8 (InsertLines env' n t))
         = take (m_nScrollStart t * m_nPitch t) (m_pBuffer8 t)
   \<and> drop (m_nScrollEnd t * m_nPitch t) (m_pBuffer8 (InsertLines env' n t))
         = drop (m_nScrollEnd t * m_nPitch t) (m_pBuffer8 t)
   \<and> take (m_nScrollStart t * m_nPitch t) (m_pBuffer8 (DeleteLines env' n t))
         = take (m_nScrollStart t * m_nPitch t) (m_pBuffer8 t)
   \<and> drop (m_nScrollEnd t * m_nPitch t) (m_pBuffer8 (DeleteLines env' n t))
         = drop (m_nScrollEnd t * m_nPitch t) (m_pBuffer8 t)"
proof -
  assume s: "wf_surface s" "m_State s = StateStart" "\<not> m_bVT52Mode s"
    "9 * CharHeight s \<le> m_nUsedHeight s"
    and t: "wf_surface t" "CharHeight t = CharHeight s" "m_nUsedHeight t = m_nUsedHeight s"
    and r: "m_nScrollStart t =
        m_nScrollStart (feed env [CHR 0x1B, CHR ''['', CHR ''6'', CHR '';'', CHR ''9'', CHR ''r''] s)"
      "m_nScrollEnd t =
        m_nScrollEnd (feed env [CHR 0x1B, CHR ''['', CHR ''6'', CHR '';'', CHR ''9'', CHR ''r''] s)"
  note R = set_region_result [OF s]
  have a: "m_nScrollStart t = 5 * CharHeight s" using r(1) R(1) by simp
  have b: "m_nScrollEnd t = 9 * CharHeight s" using r(2) R(2) by simp
  have reg: "m_nScrollStart t + CharHeight t \<le> m_nScrollEnd t" "m_nScrollEnd t \<le> m_nUsedHeight t"
    using a b t s(4) by simp_all
  note F = region_frame [OF t(1) reg]
  show ?thesis
    by (intro conjI a b F(1) [THEN conjunct1] F(1) [THEN conjunct2]
          F(2) [THEN conjunct1] F(2) [THEN conjunct2] F(3) [THEN conjunct1] F(3) [THEN conjunct2])
qed

theorem scroll_region_frame_witness:
  "wf_surface (example_renderer 2 20 1 2)
   \<and> 9 * CharHeight (example_renderer 2 20 1 2) \<le> m_nUsedHeight (example_renderer 2 20 1 2)
   \<and> m_nScrollStart (feed example_env [CHR 0x1B, CHR ''['', CHR ''6'', CHR '';'', CHR ''9'', CHR ''r'']
         (example_renderer 2 20 1 2)) = 10
   \<and> m_nScrollEnd (feed example_env [CHR 0x1B, CHR ''['', CHR ''6'', CHR '';'', CHR ''9'', CHR ''r'']
         (example_renderer 2 20 1 2)) = 18
   \<and> take 20 (m_pBuffer8 (Scroll example_env
         (feed example_env [CHR 0x1B, CHR ''['', CHR ''6'', CHR '';'', CHR ''9'', CHR ''r'']
           (example_renderer 2 20 1 2))))
       = take 20 (example_buffer 40)
   \<and> drop 36 (m_pBuffer8 (Scroll example_env
         (feed example_env [CHR 0x1B, CHR ''['', CHR ''6'', CHR '';'', CHR ''9'', CHR ''r'']
           (example_renderer 2 20 1 2))))
       = drop 36 (example_buffer 40)"
proof -
  let ?S = "example_renderer 2 20 1 2"
  let ?T = "feed example_env [CHR 0x1B, CHR ''['', CHR ''6'', CHR '';'', CHR ''9'', CHR ''r''] ?S"
  have wf: "wf_surface ?S"
    by (simp add: wf_surface_def example_defs example_buffer_def CharWidth_def CharHeight_def)
  have st: "m_State ?S = StateStart" "\<not> m_bVT52Mode ?S"
    by (simp_all add: example_renderer_def)
  have ch: "CharHeight ?S = 2" by (simp add: CharHeight_def example_defs)
  have rows: "9 * CharHeight ?S \<le> m_nUsedHeight ?S"
    unfolding ch by (simp add: example_renderer_def)
  note R = set_region_result [OF wf st rows, of example_env]
  have p: "m_nPitch ?T = 2" "m_pBuffer8 ?T = example_buffer 40"
    unfolding set_region_feed [OF st]
    by (simp_all add: SetScrollRegion_def CursorHome_def Let_def example_renderer_def)
  note T = scroll_region_frame [OF wf st rows R(3) R(4) R(5) refl refl, of example_env 1]
  have a: "m_nScrollStart ?T = 10" "m_nScrollEnd ?T = 18"
    using T [THEN conjunct1] T [THEN conjunct2, THEN conjunct1] unfolding ch by simp_all
  have b: "take 20 (m_pBuffer8 (Scroll example_env ?T)) = take 20 (example_buffer 40)"
    using T [THEN conjunct2, THEN conjunct2, THEN conjunct1] unfolding a p by simp
  have c: "drop 36 (m_pBuffer8 (Scroll example_env ?T)) = drop 36 (example_buffer 40)"
    using T [THEN conjunct2, THEN conjunct2, THEN conjunct2, THEN conjunct1] unfolding a p by simp
  show ?thesis by (intro conjI wf rows a b c)
qed

section \<open>Inserting and deleting a line at the same row\<close>

lemma nth_clear_bytes_inside:
  assumes "i < length X" "length X = length Y" "off \<le> i" "i < off + n"
    and "d = 1 \<or> d = 8 \<or> d = 16 \<or> d = 32" "length (fill_pat d c) dvd n"
  shows "clear_bytes d X off n c ! i = clear_bytes d Y off n c ! i"
proof -
  have a: "d = 16 \<Longrightarrow> n div 2 * 2 = n" "d = 32 \<Longrightarrow> n div 4 * 4 = n"
    using assms(6) by (simp_all add: length_fill_pat)
  show ?thesis
    using assms(1-5) a
    by (auto simp add: clear_bytes_def nth_store_pattern length_fill_pat)
qed

lemma insert_delete_expr:
  assumes le: "a + L + m = e" "e \<le> length buf"
    and d: "d = 1 \<or> d = 8 \<or> d = 16 \<or> d = 32" "length (fill_pat d c) dvd L"
  shows "clear_bytes d
           (if 0 < m
            then memmove_buf
                   (clear_bytes d (if 0 < m then memmove_buf buf (a + L) a m else buf) a L c)
                   a (a + L) m
            else clear_bytes d (if 0 < m then memmove_buf buf (a + L) a m else buf) a L c)
           (e - L) L c
         = clear_bytes d buf (e - L) L c"
proof -
  define B0 where "B0 = (if 0 < m then memmove_buf buf (a + L) a m else buf)"
  define B1 where "B1 = clear_bytes d B0 a L c"
  define B2 where "B2 = (if 0 < m then memmove_buf B1 a (a + L) m else B1)"
  have len: "length B0 = length buf" "length B1 = length buf" "length B2 = length buf"
    by (simp_all add: B0_def B1_def B2_def)
  have "clear_bytes d B2 (e - L) L c = clear_bytes d buf (e - L) L c"
  proof (rule nth_equalityI)
    show "length (clear_bytes d B2 (e - L) L c) = length (clear_bytes d buf (e - L) L c)"
      by (simp add: len)
  next
    fix i assume "i < length (clear_bytes d B2 (e - L) L c)"
    then have i: "i < length buf" by (simp add: len)
    show "clear_bytes d B2 (e - L) L c ! i = clear_bytes d buf (e - L) L c ! i"
    proof (cases "e - L \<le> i \<and> i < e")
      case True
      then have t: "e - L \<le> i" "i < e - L + L" using le by arith+
      have i2: "i < length B2" using i len by simp
      show ?thesis
        by (rule nth_clear_bytes_inside [OF i2 len(3) t d])
    next
      case False
      then have o: "i < e - L \<or> e - L + L \<le> i" using le by arith
      have i2: "i < length B2" using i len by simp
      have r: "clear_bytes d buf (e - L) L c ! i = buf ! i"
        by (rule nth_clear_bytes_outside [OF i o])
      have l: "clear_bytes d B2 (e - L) L c ! i = B2 ! i"
        by (rule nth_clear_bytes_outside [OF i2 o])
      have "B2 ! i = buf ! i"
      proof (cases "a \<le> i \<and> i < e - L")
        case True
        then have m: "0 < m" "a \<le> i \<and> i < a + m" "i - a + (a + L) = i + L"
          "i + L < length buf" "i + L < a \<or> a + L \<le> i + L" "a + L \<le> i + L \<and> i + L < a + L + m"
          "i + L - (a + L) + a = i"
          using le by arith+
        have i1: "i < length B1" "i + L < length B0" using i m(4) len by simp_all
        have "B2 ! i = memmove_buf B1 a (a + L) m ! i" using m(1) by (simp add: B2_def)
        also have "\<dots> = B1 ! (i - a + (a + L))"
          unfolding nth_memmove_buf [OF i1(1)] using m(2) by (rule if_P)
        also have "\<dots> = B1 ! (i + L)" unfolding m(3) ..
        also have "\<dots> = B0 ! (i + L)"
          unfolding B1_def by (rule nth_clear_bytes_outside [OF i1(2) m(5)])
        also have "\<dots> = memmove_buf buf (a + L) a m ! (i + L)" using m(1) by (simp add: B0_def)
        also have "\<dots> = buf ! (i + L - (a + L) + a)"
          unfolding nth_memmove_buf [OF m(4)] using m(6) by (rule if_P)
        also have "\<dots> = buf ! i" unfolding m(7) ..
        finally show ?thesis .
      next
        case False
        with o le have x: "i < a \<or> e \<le> i" by arith
        then have y: "\<not> (a \<le> i \<and> i < a + m)" "i < a \<or> a + L \<le> i"
          "\<not> (a + L \<le> i \<and> i < a + L + m)"
          using le by arith+
        have i1: "i < length B1" "i < length B0" using i len by simp_all
        have "memmove_buf B1 a (a + L) m ! i = B1 ! i"
          unfolding nth_memmove_buf [OF i1(1)] using y(1) by (rule if_not_P)
        then have "B2 ! i = B1 ! i" by (simp add: B2_def)
        also have "\<dots> = B0 ! i"
          unfolding B1_def by (rule nth_clear_bytes_outside [OF i1(2) y(2)])
        also have "\<dots> = buf ! i"
        proof -
          have "memmove_buf buf (a + L) a m ! i = buf ! i"
            unfolding nth_memmove_buf [OF i] using y(3) by (rule if_not_P)
          then show ?thesis by (simp add: B0_def)
        qed
        finally show ?thesis .
      qed
      with l r show ?thesis by simp
    qed
  qed
  then show ?thesis unfolding B2_def B1_def B0_def .
qed

lemma InsertLines_keeps:
  "m_pCharGen (InsertLines env n s) = m_pCharGen s \<and> CharHeight (InsertLines env n s) = CharHeight s
   \<and> m_nScrollStart (InsertLines env n s) = m_nScrollStart s
   \<and> m_nScrollEnd (InsertLines env n s) = m_nScrollEnd s
   \<and> m_nCursorY (InsertLines env n s) = m_nCursorY s \<and> m_nPitch (InsertLines env n s) = m_nPitch s
   \<and> m_nDepth (InsertLines env n s) = m_nDepth s
   \<and> m_BackgroundColor (InsertLines env n s) = m_BackgroundColor s"
proof (cases "m_pCharGen s = None \<or> n = 0 \<or> CharHeight s = 0 \<or> m_nCursorY s < m_nScrollStart s
     \<or> m_nScrollEnd s \<le> m_nCursorY s \<or> (m_nScrollEnd s - m_nCursorY s) div CharHeight s = 0")
  case True
  then show ?thesis by (simp add: InsertLines_skip)
next
  case False
  then obtain g where g: "m_pCharGen s = Some g" by auto
  let ?k = "min n ((m_nScrollEnd s - m_nCursorY s) div CharHeight s)"
  obtain b s1 where h:
    "(if ?k = 1 then BeginSmoothScrollAnimation env (m_nCursorY s) (usub (m_nScrollEnd s) 1) True s
      else (False, s)) = (b, s1)"
    by (cases "(if ?k = 1 then BeginSmoothScrollAnimation env (m_nCursorY s) (usub (m_nScrollEnd s) 1) True s
      else (False, s))")
  have "surface s1 = surface s"
    using h BeginSmooth_result [of env "m_nCursorY s" "usub (m_nScrollEnd s) 1" True s b s1]
    by (cases "?k = 1") auto
  note f = surface_fields [OF this]
  have k: "(if (m_nScrollEnd s - m_nCursorY s) div GetCharHeight g < n
            then (m_nScrollEnd s - m_nCursorY s) div GetCharHeight g else n) = ?k"
    using g by (simp add: min_def CharHeight_def)
  show ?thesis
    using False g h f unfolding InsertLines_def
    by (simp add: Let_def k CharHeight_def count_normal_scroll_def SetUpdateArea_def del: min_less_iff_conj)
qed

lemma insert_delete_buffer:
  assumes wf: "wf_surface s"
    and reg: "m_nScrollStart s \<le> m_nCursorY s" "m_nCursorY s + CharHeight s \<le> m_nScrollEnd s"
      "m_nScrollEnd s \<le> m_nHeight s"
  shows "m_pBuffer8 (DeleteLines env' 1 (InsertLines env 1 s)) =
     clear_bytes (m_nDepth s) (m_pBuffer8 s) (m_nScrollEnd s * m_nPitch s - m_nPitch s * CharHeight s)
       (m_nPitch s * CharHeight s) (m_BackgroundColor s)"
proof -
  let ?t = "InsertLines env 1 s"
  let ?p = "m_nPitch s" and ?c = "CharHeight s" and ?Y = "m_nCursorY s" and ?E = "m_nScrollEnd s"
  note K = InsertLines_keeps [of env 1 s]
  have c: "0 < ?c" using wf by (simp add: wf_surface_def)
  then have g: "m_pCharGen s \<noteq> None" by (auto simp add: CharHeight_def split: option.splits)
  have q: "1 \<le> (?E - ?Y) div ?c"
  proof -
    have "?c * 1 \<le> ?E - ?Y" using reg(2) by arith
    then show ?thesis using c by (simp add: less_eq_div_iff_mult_less_eq)
  qed
  then have m1: "min 1 ((?E - ?Y) div ?c) = 1" by simp
  have a: "m_pCharGen s \<noteq> None" "0 < (1::nat)" "0 < ?c" "m_nScrollStart s \<le> ?Y" "?Y < ?E"
    "0 < (?E - ?Y) div ?c"
    using g c reg q by simp_all
  have a': "m_pCharGen ?t \<noteq> None" "0 < (1::nat)" "0 < CharHeight ?t" "m_nScrollStart ?t \<le> m_nCursorY ?t"
    "m_nCursorY ?t < m_nScrollEnd ?t" "0 < (m_nScrollEnd ?t - m_nCursorY ?t) div CharHeight ?t"
    using a K by simp_all
  have le1: "?Y * ?p + ?p * ?c \<le> ?E * ?p"
  proof -
    have "(?Y + ?c) * ?p \<le> ?E * ?p" by (rule mult_le_mono1 [OF reg(2)])
    then show ?thesis by (simp add: algebra_simps)
  qed
  have le2: "?E * ?p \<le> length (m_pBuffer8 s)"
  proof -
    have "?E * ?p \<le> m_nHeight s * ?p" by (rule mult_le_mono1 [OF reg(3)])
    also have "\<dots> = m_nSize s" using wf_pitch_height [OF wf] by (simp add: mult.commute)
    also have "\<dots> = length (m_pBuffer8 s)" using wf by (simp add: wf_surface_def)
    finally show ?thesis .
  qed
  have l: "?Y * ?p \<le> ?E * ?p" "?p * ?c \<le> ?E * ?p - ?Y * ?p" "?p * ?c \<le> ?E * ?p"
    "?Y * ?p + ?p * ?c + (?E * ?p - ?Y * ?p - ?p * ?c) = ?E * ?p"
    using le1 by arith+
  have u1: "usub (usub (?E * ?p) (?Y * ?p)) (?p * ?c) = ?E * ?p - ?Y * ?p - ?p * ?c"
    unfolding usub_le [OF l(1)] usub_le [OF l(2)] ..
  have u2: "usub (?E * ?p) (?p * ?c) = ?E * ?p - ?p * ?c"
    unfolding usub_le [OF l(3)] ..
  note u = u1 u2
  have d: "m_nDepth s = 1 \<or> m_nDepth s = 8 \<or> m_nDepth s = 16 \<or> m_nDepth s = 32"
    using wf by (simp add: wf_surface_def)
  have dv: "length (fill_pat (m_nDepth s) (m_BackgroundColor s)) dvd ?p * ?c"
  proof -
    have "length (fill_pat (m_nDepth s) (m_BackgroundColor s)) dvd ?p"
      using wf d by (auto simp add: wf_surface_def length_fill_pat)
    then show ?thesis by simp
  qed
  have kf: "m_nScrollEnd ?t = ?E" "m_nCursorY ?t = ?Y" "CharHeight ?t = ?c" "m_nPitch ?t = ?p"
    "m_nDepth ?t = m_nDepth s" "m_BackgroundColor ?t = m_BackgroundColor s"
    using K by simp_all
  have b1: "m_pBuffer8 ?t =
      clear_bytes (m_nDepth s)
        (if 0 < ?E * ?p - ?Y * ?p - ?p * ?c
         then memmove_buf (m_pBuffer8 s) (?Y * ?p + ?p * ?c) (?Y * ?p) (?E * ?p - ?Y * ?p - ?p * ?c)
         else m_pBuffer8 s)
        (?Y * ?p) (?p * ?c) (m_BackgroundColor s)"
    unfolding InsertLines_buffer [OF a] Let_def m1 mult_1_right u1 by simp
  have "m_pBuffer8 (DeleteLines env' 1 ?t) =
      clear_bytes (m_nDepth s)
        (if 0 < ?E * ?p - ?Y * ?p - ?p * ?c
         then memmove_buf (m_pBuffer8 ?t) (?Y * ?p) (?Y * ?p + ?p * ?c) (?E * ?p - ?Y * ?p - ?p * ?c)
         else m_pBuffer8 ?t)
        (?E * ?p - ?p * ?c) (?p * ?c) (m_BackgroundColor s)"
    unfolding DeleteLines_buffer [OF a'] Let_def kf m1 mult_1_right u1 u2 ..
  also have "\<dots> = clear_bytes (m_nDepth s) (m_pBuffer8 s) (?E * ?p - ?p * ?c) (?p * ?c) (m_BackgroundColor s)"
    unfolding b1 by (rule insert_delete_expr [OF l(4) le2 d dv])
  finally show ?thesis .
qed

lemma nth_clear_bytes_fill:
  assumes "i < length buf" "off \<le> i" "i < off + n"
    and "d = 1 \<or> d = 8 \<or> d = 16 \<or> d = 32" "length (fill_pat d c) dvd n"
  shows "clear_bytes d buf off n c ! i = fill_pat d c ! ((i - off) mod length (fill_pat d c))"
proof -
  have a: "d = 16 \<Longrightarrow> n div 2 * 2 = n" "d = 32 \<Longrightarrow> n div 4 * 4 = n"
    using assms(5) by (simp_all add: length_fill_pat)
  show ?thesis
    using assms(1-4) a
    by (auto simp add: clear_bytes_def nth_store_pattern length_fill_pat)
qed

lemma insert_delete_bytes:
  assumes wf: "wf_surface s"
    and reg: "m_nScrollStart s \<le> m_nCursorY s" "m_nCursorY s + CharHeight s \<le> m_nScrollEnd s"
      "m_nScrollEnd s \<le> m_nHeight s"
    and i: "i < length (m_pBuffer8 s)"
  shows "m_pBuffer8 (DeleteLines env' 1 (InsertLines env 1 s)) ! i =
     (if m_nScrollEnd s * m_nPitch s - m_nPitch s * CharHeight s \<le> i \<and> i < m_nScrollEnd s * m_nPitch s
      then fill_pat (m_nDepth s) (m_BackgroundColor s)
             ! ((i - (m_nScrollEnd s * m_nPitch s - m_nPitch s * CharHeight s))
                  mod length (fill_pat (m_nDepth s) (m_BackgroundColor s)))
      else m_pBuffer8 s ! i)"
proof -
  let ?p = "m_nPitch s" and ?c = "CharHeight s" and ?Y = "m_nCursorY s" and ?E = "m_nScrollEnd s"
  have le1: "?p * ?c \<le> ?E * ?p"
  proof -
    have "?c \<le> ?E" using reg(2) by arith
    then have "?c * ?p \<le> ?E * ?p" by (rule mult_le_mono1)
    then show ?thesis by (simp add: mult.commute)
  qed
  have d: "m_nDepth s = 1 \<or> m_nDepth s = 8 \<or> m_nDepth s = 16 \<or> m_nDepth s = 32"
    using wf by (simp add: wf_surface_def)
  have dv: "length (fill_pat (m_nDepth s) (m_BackgroundColor s)) dvd ?p * ?c"
  proof -
    have "length (fill_pat (m_nDepth s) (m_BackgroundColor s)) dvd ?p"
      using wf d by (auto simp add: wf_surface_def length_fill_pat)
    then show ?thesis by simp
  qed
  show ?thesis
  proof (cases "?E * ?p - ?p * ?c \<le> i \<and> i < ?E * ?p")
    case True
    then have t: "?E * ?p - ?p * ?c \<le> i" "i < ?E * ?p - ?p * ?c + ?p * ?c" using le1 by arith+
    show ?thesis
      unfolding insert_delete_buffer [OF wf reg] if_P [OF True]
      by (rule nth_clear_bytes_fill [OF i t d dv])
  next
    case False
    then have o: "i < ?E * ?p - ?p * ?c \<or> ?E * ?p - ?p * ?c + ?p * ?c \<le> i" using le1 by arith
    show ?thesis
      unfolding insert_delete_buffer [OF wf reg] if_not_P [OF False]
      by (rule nth_clear_bytes_outside [OF i o])
  qed
qed

lemma example_row_surface:
  "wf_surface ((example_renderer 8 6 2 2)\<lparr>m_nCursorY := 2\<rparr>)"
  "m_nScrollStart ((example_renderer 8 6 2 2)\<lparr>m_nCursorY := 2\<rparr>) = 0"
  "m_nCursorY ((example_renderer 8 6 2 2)\<lparr>m_nCursorY := 2\<rparr>) = 2"
  "CharHeight ((example_renderer 8 6 2 2)\<lparr>m_nCursorY := 2\<rparr>) = 2"
  "m_nScrollEnd ((example_renderer 8 6 2 2)\<lparr>m_nCursorY := 2\<rparr>) = 6"
  "m_nHeight ((example_renderer 8 6 2 2)\<lparr>m_nCursorY := 2\<rparr>) = 6"
  "m_nPitch ((example_renderer 8 6 2 2)\<lparr>m_nCursorY := 2\<rparr>) = 8"
  "m_nDepth ((example_renderer 8 6 2 2)\<lparr>m_nCursorY := 2\<rparr>) = 8"
  "m_BackgroundColor ((example_renderer 8 6 2 2)\<lparr>m_nCursorY := 2\<rparr>) = 0"
  "m_pBuffer8 ((example_renderer 8 6 2 2)\<lparr>m_nCursorY := 2\<rparr>) = example_buffer 48"
  by (simp_all add: wf_surface_def example_defs example_buffer_def CharWidth_def CharHeight_def)

text \<open>
  Claim C4, as amended.  With the cursor row inside the scroll region,
  \<^verbatim>\<open>InsertLines (1)\<close> followed by \<^verbatim>\<open>DeleteLines (1)\<close> at that row gives back the bytes of the
  pixel buffer as they were before, except those of the last cell row of the scroll
  region, which hold the background fill: the buffer is the one before the two calls
  with that row cleared, and the rows above and below the region are untouched.
\<close>

theorem insert_delete_clears_last_row:
  "wf_surface s \<Longrightarrow> m_nScrollStart s \<le> m_nCursorY s \<Longrightarrow>
   m_nCursorY s + CharHeight s \<le> m_nScrollEnd s \<Longrightarrow> m_nScrollEnd s \<le> m_nHeight s \<Longrightarrow>
     m_pBuffer8 (DeleteLines env' 1 (InsertLines env 1 s)) =
       clear_bytes (m_nDepth s) (m_pBuffer8 s)
         (m_nScrollEnd s * m_nPitch s - m_nPitch s * CharHeight s)
         (m_nPitch s * CharHeight s) (m_BackgroundColor s)
   \<and> (\<forall>i < length (m_pBuffer8 s).
         m_pBuffer8 (DeleteLines env' 1 (InsertLines env 1 s)) ! i =
           (if m_nScrollEnd s * m_nPitch s - m_nPitch s * CharHeight s \<le> i
               \<and> i < m_nScrollEnd s * m_nPitch s
            then fill_pat (m_nDepth s) (m_BackgroundColor s)
                   ! ((i - (m_nScrollEnd s * m_nPitch s - m_nPitch s * CharHeight s))
                        mod length (fill_pat (m_nDepth s) (m_BackgroundColor s)))
            else m_pBuffer8 s ! i))"
proof -
  assume a: "wf_surface s" "m_nScrollStart s \<le> m_nCursorY s"
    "m_nCursorY s + CharHeight s \<le> m_nScrollEnd s" "m_nScrollEnd s \<le> m_nHeight s"
  show ?thesis
  proof (intro conjI allI impI)
    show "m_pBuffer8 (DeleteLines env' 1 (InsertLines env 1 s)) =
       clear_bytes (m_nDepth s) (m_pBuffer8 s)
         (m_nScrollEnd s * m_nPitch s - m_nPitch s * CharHeight s)
         (m_nPitch s * CharHeight s) (m_BackgroundColor s)"
      by (rule insert_delete_buffer [OF a])
  next
    fix i assume "i < length (m_pBuffer8 s)"
    then show "m_pBuffer8 (DeleteLines env' 1 (InsertLines env 1 s)) ! i =
           (if m_nScrollEnd s * m_nPitch s - m_nPitch s * CharHeight s \<le> i
               \<and> i < m_nScrollEnd s * m_nPitch s
            then fill_pat (m_nDepth s) (m_BackgroundColor s)
                   ! ((i - (m_nScrollEnd s * m_nPitch s - m_nPitch s * CharHeight s))
                        mod length (fill_pat (m_nDepth s) (m_BackgroundColor s)))
            else m_pBuffer8 s ! i)"
      by (rule insert_delete_bytes [OF a])
  qed
qed

theorem insert_delete_clears_last_row_witness:
  "wf_surface ((example_renderer 8 6 2 2)\<lparr>m_nCursorY := 2\<rparr>)
   \<and> m_pBuffer8 (DeleteLines example_env 1
        (InsertLines example_env 1 ((example_renderer 8 6 2 2)\<lparr>m_nCursorY := 2\<rparr>)))
       = clear_bytes 8 (example_buffer 48) 32 16 0
   \<and> m_pBuffer8 (DeleteLines example_env 1
        (InsertLines example_env 1 ((example_renderer 8 6 2 2)\<lparr>m_nCursorY := 2\<rparr>))) ! 20
       = example_buffer 48 ! 20
   \<and> m_pBuffer8 (DeleteLines example_env 1
        (InsertLines example_env 1 ((example_renderer 8 6 2 2)\<lparr>m_nCursorY := 2\<rparr>))) ! 40
       = 0"
proof -
  let ?S = "(example_renderer 8 6 2 2)\<lparr>m_nCursorY := 2\<rparr>"
  note E = example_row_surface
  have r: "m_nScrollStart ?S \<le> m_nCursorY ?S" "m_nCursorY ?S + CharHeight ?S \<le> m_nScrollEnd ?S"
    "m_nScrollEnd ?S \<le> m_nHeight ?S"
    unfolding E by simp_all
  note T = insert_delete_clears_last_row [OF E(1) r, of example_env example_env]
  have a: "m_pBuffer8 (DeleteLines example_env 1 (InsertLines example_env 1 ?S))
       = clear_bytes 8 (example_buffer 48) 32 16 0"
    using T [THEN conjunct1] unfolding E by simp
  have l: "(20::nat) < length (m_pBuffer8 ?S)" "(40::nat) < length (m_pBuffer8 ?S)"
    unfolding E by (simp_all add: example_buffer_def)
  have b: "m_pBuffer8 (DeleteLines example_env 1 (InsertLines example_env 1 ?S)) ! 20
       = example_buffer 48 ! 20"
    using T [THEN conjunct2, THEN spec, THEN mp, OF l(1)] unfolding E by simp
  have c: "m_pBuffer8 (DeleteLines example_env 1 (InsertLines example_env 1 ?S)) ! 40 = 0"
    using T [THEN conjunct2, THEN spec, THEN mp, OF l(2)] unfolding E
    by (simp add: fill_pat_def le_bytes_def)
  show ?thesis by (intro conjI E(1) a b c)
qed

text \<open>
  Claim C4 as stated fails: with the cursor in the second of three rows, byte 47 lies in
  the band from the cursor row to the end of the scroll region; it holds 47 before the
  two calls and the background 0 after them.
\<close>

theorem insert_delete_counterexample:
  "m_nScrollStart ((example_renderer 8 6 2 2)\<lparr>m_nCursorY := 2\<rparr>)
      \<le> m_nCursorY ((example_renderer 8 6 2 2)\<lparr>m_nCursorY := 2\<rparr>)
   \<and> m_nCursorY ((example_renderer 8 6 2 2)\<lparr>m_nCursorY := 2\<rparr>)
      < m_nScrollEnd ((example_renderer 8 6 2 2)\<lparr>m_nCursorY := 2\<rparr>)
   \<and> m_nCursorY ((example_renderer 8 6 2 2)\<lparr>m_nCursorY := 2\<rparr>)
        * m_nPitch ((example_renderer 8 6 2 2)\<lparr>m_nCursorY := 2\<rparr>) \<le> 47
   \<and> 47 < m_nScrollEnd ((example_renderer 8 6 2 2)\<lparr>m_nCursorY := 2\<rparr>)
        * m_nPitch ((example_renderer 8 6 2 2)\<lparr>m_nCursorY := 2\<rparr>)
   \<and> m_pBuffer8 ((example_renderer 8 6 2 2)\<lparr>m_nCursorY := 2\<rparr>) ! 47 = 47
   \<and> m_pBuffer8 (DeleteLines example_env 1
        (InsertLines example_env 1 ((example_renderer 8 6 2 2)\<lparr>m_nCursorY := 2\<rparr>))) ! 47 = 0"
proof -
  let ?S = "(example_renderer 8 6 2 2)\<lparr>m_nCursorY := 2\<rparr>"
  note E = example_row_surface
  have r: "m_nScrollStart ?S \<le> m_nCursorY ?S" "m_nCursorY ?S + CharHeight ?S \<le> m_nScrollEnd ?S"
    "m_nScrollEnd ?S \<le> m_nHeight ?S"
    unfolding E by simp_all
  have l: "(47::nat) < length (m_pBuffer8 ?S)"
    unfolding E by (simp add: example_buffer_def)
  have a: "m_nScrollStart ?S \<le> m_nCursorY ?S" "m_nCursorY ?S < m_nScrollEnd ?S"
    "m_nCursorY ?S * m_nPitch ?S \<le> 47" "47 < m_nScrollEnd ?S * m_nPitch ?S"
    unfolding E by simp_all
  have b: "m_pBuffer8 ?S ! 47 = 47"
    unfolding E by (simp add: example_buffer_def)
  have c: "m_pBuffer8 (DeleteLines example_env 1 (InsertLines example_env 1 ?S)) ! 47 = 0"
    unfolding insert_delete_bytes [OF E(1) r l] E
    by (simp add: fill_pat_def le_bytes_def)
  show ?thesis by (intro conjI a b c)
qed

section \<open>Cursor motion by control sequence\<close>

lemma digit_char_digit:
  assumes "k < 10"
  shows "is_digit (digit_char k)" and "digit_val (digit_char k) = k"
proof -
  from assms have "k = 0 \<or> k = 1 \<or> k = 2 \<or> k = 3 \<or> k = 4 \<or> k = 5 \<or> k = 6 \<or> k = 7 \<or> k = 8 \<or> k = 9"
    by arith
  then show "is_digit (digit_char k)" and "digit_val (digit_char k) = k"
    by (auto simp add: digit_char_def is_digit_def digit_val_def)
qed

lemma accumulate_small: "p \<le> 199 \<Longrightarrow> k < 10 \<Longrightarrow> accumulate p (digit_char k) = p * 10 + k"
  by (simp add: accumulate_def digit_char_digit u32_def)

lemma Write_bracket: "m_State s = StateBracket \<Longrightarrow> Write env c s = write_bracket env c s"
  by (simp add: Write_def)

lemma Write_number1: "m_State s = StateNumber1 \<Longrightarrow> Write env c s = write_number1 env c s"
  by (simp add: Write_def)

lemma csi_open:
  "m_State s = StateStart \<Longrightarrow> \<not> m_bVT52Mode s \<Longrightarrow>
     Write env (CHR ''['') (Write env (CHR 0x1B) s) = s\<lparr>m_State := StateBracket, m_nParam1 := 0, m_nParam2 := 0\<rparr>"
  by (simp add: Write_def write_start_def write_escape_ansi_def)

lemma first_digit:
  "m_State s = StateBracket \<Longrightarrow> k < 10 \<Longrightarrow>
     Write env (digit_char k) s = s\<lparr>m_State := StateNumber1, m_nParam1 := k\<rparr>"
  by (simp add: Write_bracket write_bracket_digit digit_char_digit)

lemma next_digit:
  "m_State s = StateNumber1 \<Longrightarrow> k < 10 \<Longrightarrow> m_nParam1 s * 10 + k \<le> 199 \<Longrightarrow>
     Write env (digit_char k) s = s\<lparr>m_nParam1 := m_nParam1 s * 10 + k\<rparr>"
proof -
  assume a: "m_State s = StateNumber1" "k < 10" "m_nParam1 s * 10 + k \<le> 199"
  then have "m_nParam1 s \<le> 199" by arith
  then show ?thesis
    using a by (simp add: Write_number1 write_number1_digit digit_char_digit accumulate_small)
qed

lemma csi_prefix:
  assumes "m_State s = StateStart" "\<not> m_bVT52Mode s" "n \<le> 199"
  shows "feed env (CHR 0x1B # CHR ''['' # decimal n) s
           = s\<lparr>m_State := StateNumber1, m_nParam1 := n, m_nParam2 := 0\<rparr>"
proof -
  let ?b = "s\<lparr>m_State := StateBracket, m_nParam1 := 0, m_nParam2 := 0\<rparr>"
  have b: "m_State ?b = StateBracket" by simp
  have f: "feed env (CHR 0x1B # CHR ''['' # decimal n) s = fold (Write env) (decimal n) ?b"
    by (simp add: feed_def csi_open [OF assms(1,2)])
  consider "n < 10" | "10 \<le> n" "n < 100" | "100 \<le> n"
    by arith
  then show ?thesis
  proof cases
    case 1
    have "fold (Write env) (decimal n) ?b = Write env (digit_char n) ?b"
      using 1 by (simp add: decimal_def)
    also have "\<dots> = s\<lparr>m_State := StateNumber1, m_nParam1 := n, m_nParam2 := 0\<rparr>"
      by (simp add: first_digit [OF b 1])
    finally show ?thesis unfolding f .
  next
    case 2
    then have d: "n div 10 < 10" "n mod 10 < 10" by arith+
    have e: "n div 10 * 10 + n mod 10 = n" by (rule div_mult_mod_eq)
    let ?t = "s\<lparr>m_State := StateNumber1, m_nParam1 := n div 10, m_nParam2 := 0\<rparr>"
    have t: "m_State ?t = StateNumber1" by simp
    have t2: "m_nParam1 ?t * 10 + n mod 10 \<le> 199"
    proof -
      have "m_nParam1 ?t = n div 10" by simp
      then show ?thesis using assms(3) by (simp only: e)
    qed
    have w1: "Write env (digit_char (n div 10)) ?b = ?t"
      by (simp add: first_digit [OF b d(1)])
    have w2: "Write env (digit_char (n mod 10)) ?t = ?t\<lparr>m_nParam1 := m_nParam1 ?t * 10 + n mod 10\<rparr>"
      by (rule next_digit [OF t d(2) t2])
    have "fold (Write env) (decimal n) ?b
        = Write env (digit_char (n mod 10)) (Write env (digit_char (n div 10)) ?b)"
      using 2 by (simp add: decimal_def)
    also have "\<dots> = ?t\<lparr>m_nParam1 := m_nParam1 ?t * 10 + n mod 10\<rparr>"
      unfolding w1 w2 ..
    also have "\<dots> = s\<lparr>m_State := StateNumber1, m_nParam1 := n div 10 * 10 + n mod 10, m_nParam2 := 0\<rparr>"
      by simp
    also have "\<dots> = s\<lparr>m_State := StateNumber1, m_nParam1 := n, m_nParam2 := 0\<rparr>"
      unfolding e ..
    finally show ?thesis unfolding f .
  next
    case 3
    have h1: "n div 10 div 10 = n div 100" by (simp add: div_mult2_eq)
    have h2: "n div 100 * 10 + n div 10 mod 10 = n div 10"
      using div_mult_mod_eq [of "n div 10" 10] unfolding h1 .
    have d1: "n div 100 < 10" using assms(3) by arith
    have d2: "n div 10 mod 10 < 10" "n mod 10 < 10" by simp_all
    have d4: "n div 100 * 10 + n div 10 mod 10 \<le> 199"
      unfolding h2 by (rule order_trans [OF div_le_dividend assms(3)])
    have d6: "(n div 100 * 10 + n div 10 mod 10) * 10 + n mod 10 = n"
      unfolding h2 by (rule div_mult_mod_eq)
    have d5: "(n div 100 * 10 + n div 10 mod 10) * 10 + n mod 10 \<le> 199"
      unfolding d6 by (rule assms(3))
    note d = d1 d2 d4 d5 d6
    let ?t = "s\<lparr>m_State := StateNumber1, m_nParam1 := n div 100, m_nParam2 := 0\<rparr>"
    let ?u = "s\<lparr>m_State := StateNumber1, m_nParam1 := n div 100 * 10 + n div 10 mod 10, m_nParam2 := 0\<rparr>"
    have t: "m_State ?t = StateNumber1" "m_State ?u = StateNumber1" by simp_all
    have t2: "m_nParam1 ?t * 10 + n div 10 mod 10 \<le> 199"
    proof -
      have "m_nParam1 ?t = n div 100" by simp
      then show ?thesis using d(4) by (simp only:)
    qed
    have u2: "m_nParam1 ?u * 10 + n mod 10 \<le> 199"
    proof -
      have "m_nParam1 ?u = n div 100 * 10 + n div 10 mod 10" by simp
      then show ?thesis using d(5) by (simp only:)
    qed
    have w1: "Write env (digit_char (n div 100)) ?b = ?t"
      by (simp add: first_digit [OF b d(1)])
    have w2: "Write env (digit_char (n div 10 mod 10)) ?t = ?t\<lparr>m_nParam1 := m_nParam1 ?t * 10 + n div 10 mod 10\<rparr>"
      by (rule next_digit [OF t(1) d(2) t2])
    have w2': "?t\<lparr>m_nParam1 := m_nParam1 ?t * 10 + n div 10 mod 10\<rparr> = ?u"
      by simp
    have w3: "Write env (digit_char (n mod 10)) ?u = ?u\<lparr>m_nParam1 := m_nParam1 ?u * 10 + n mod 10\<rparr>"
      by (rule next_digit [OF t(2) d(3) u2])
    have w3': "?u\<lparr>m_nParam1 := m_nParam1 ?u * 10 + n mod 10\<rparr>
        = s\<lparr>m_State := StateNumber1, m_nParam1 := (n div 100 * 10 + n div 10 mod 10) * 10 + n mod 10, m_nParam2 := 0\<rparr>"
      by simp
    have "fold (Write env) (decimal n) ?b
        = Write env (digit_char (n mod 10))
            (Write env (digit_char (n div 10 mod 10)) (Write env (digit_char (n div 100)) ?b))"
      using 3 by (simp add: decimal_def)
    also have "\<dots> = s\<lparr>m_State := StateNumber1, m_nParam1 := (n div 100 * 10 + n div 10 mod 10) * 10 + n mod 10, m_nParam2 := 0\<rparr>"
      unfolding w1 w2 w2' w3 w3' ..
    also have "\<dots> = s\<lparr>m_State := StateNumber1, m_nParam1 := n, m_nParam2 := 0\<rparr>"
      unfolding d(6) ..
    finally show ?thesis unfolding f .
  qed
qed

lemma funpow_CursorRight:
  "m_nCursorX s + k * CharWidth s < m_nUsedWidth s \<Longrightarrow>
     (CursorRight env ^^ k) s = s\<lparr>m_nCursorX := m_nCursorX s + k * CharWidth s\<rparr>"
proof (induction k)
  case 0
  show ?case by simp
next
  case (Suc k)
  then have a: "m_nCursorX s + k * CharWidth s < m_nUsedWidth s"
    "\<not> m_nUsedWidth s \<le> m_nCursorX s + k * CharWidth s + CharWidth s" by simp_all
  have c: "CharWidth (s\<lparr>m_nCursorX := m_nCursorX s + k * CharWidth s\<rparr>) = CharWidth s"
    by (simp add: CharWidth_def)
  have "(CursorRight env ^^ Suc k) s = CursorRight env (s\<lparr>m_nCursorX := m_nCursorX s + k * CharWidth s\<rparr>)"
    using Suc.IH [OF a(1)] by simp
  also have "\<dots> = s\<lparr>m_nCursorX := m_nCursorX s + k * CharWidth s + CharWidth s\<rparr>"
    unfolding CursorRight_def Let_def c using a(2) by simp
  also have "m_nCursorX s + k * CharWidth s + CharWidth s = m_nCursorX s + Suc k * CharWidth s"
    by simp
  finally show ?case .
qed

lemma funpow_CursorDown:
  "m_nCursorY s + k * CharHeight s < m_nScrollEnd s \<Longrightarrow>
     (CursorDown env ^^ k) s = s\<lparr>m_nCursorY := m_nCursorY s + k * CharHeight s\<rparr>"
proof (induction k)
  case 0
  show ?case by simp
next
  case (Suc k)
  then have a: "m_nCursorY s + k * CharHeight s < m_nScrollEnd s"
    "\<not> m_nScrollEnd s \<le> m_nCursorY s + k * CharHeight s + CharHeight s" by simp_all
  have c: "CharHeight (s\<lparr>m_nCursorY := m_nCursorY s + k * CharHeight s\<rparr>) = CharHeight s"
    by (simp add: CharHeight_def)
  have "(CursorDown env ^^ Suc k) s = CursorDown env (s\<lparr>m_nCursorY := m_nCursorY s + k * CharHeight s\<rparr>)"
    using Suc.IH [OF a(1)] by simp
  also have "\<dots> = s\<lparr>m_nCursorY := m_nCursorY s + k * CharHeight s + CharHeight s\<rparr>"
    unfolding CursorDown_def Let_def c using a(2) by simp
  also have "m_nCursorY s + k * CharHeight s + CharHeight s = m_nCursorY s + Suc k * CharHeight s"
    by simp
  finally show ?case .
qed

lemma funpow_CursorLeft:
  "0 < CharWidth s \<Longrightarrow> k * CharWidth s \<le> m_nCursorX s \<Longrightarrow>
     (CursorLeft ^^ k) s = s\<lparr>m_nCursorX := m_nCursorX s - k * CharWidth s\<rparr>"
proof (induction k)
  case 0
  show ?case by simp
next
  case (Suc k)
  then have a: "k * CharWidth s \<le> m_nCursorX s" "CharWidth s \<le> m_nCursorX s - k * CharWidth s"
    "0 < m_nCursorX s - k * CharWidth s" by simp_all
  have c: "CharWidth (s\<lparr>m_nCursorX := m_nCursorX s - k * CharWidth s\<rparr>) = CharWidth s"
    by (simp add: CharWidth_def)
  have "(CursorLeft ^^ Suc k) s = CursorLeft (s\<lparr>m_nCursorX := m_nCursorX s - k * CharWidth s\<rparr>)"
    using Suc.IH [OF Suc.prems(1) a(1)] by simp
  also have "\<dots> = s\<lparr>m_nCursorX := m_nCursorX s - k * CharWidth s - CharWidth s\<rparr>"
    unfolding CursorLeft_def c using a(2,3) by simp
  also have "m_nCursorX s - k * CharWidth s - CharWidth s = m_nCursorX s - Suc k * CharWidth s"
    by simp
  finally show ?case .
qed

lemma funpow_CursorUp:
  assumes "0 < CharHeight s" "m_nCursorY s = m_nScrollStart s + r * CharHeight s"
  shows "(CursorUp ^^ k) s = s\<lparr>m_nCursorY := m_nScrollStart s + (r - k) * CharHeight s\<rparr>"
proof (induction k)
  case 0
  show ?case by (simp add: assms(2) [symmetric])
next
  case (Suc k)
  let ?t = "s\<lparr>m_nCursorY := m_nScrollStart s + (r - k) * CharHeight s\<rparr>"
  have c: "CharHeight ?t = CharHeight s" by (simp add: CharHeight_def)
  have "(CursorUp ^^ Suc k) s = CursorUp ?t" using Suc by simp
  also have "\<dots> = s\<lparr>m_nCursorY := m_nScrollStart s + (r - Suc k) * CharHeight s\<rparr>"
  proof (cases "k < r")
    case True
    then have "r - k = Suc (r - Suc k)" by arith
    then have "(r - k) * CharHeight s = Suc (r - Suc k) * CharHeight s"
      by (rule arg_cong [where f = "\<lambda>x. x * CharHeight s"])
    also have "\<dots> = (r - Suc k) * CharHeight s + CharHeight s" by simp
    finally have e: "(r - k) * CharHeight s = (r - Suc k) * CharHeight s + CharHeight s" .
    have p: "0 < (r - k) * CharHeight s" using True assms(1) by simp
    show ?thesis
      unfolding CursorUp_def c using p by (simp add: e)
  next
    case False
    then show ?thesis by (simp add: CursorUp_def)
  qed
  finally show ?case .
qed

lemma repeat_count: "((f :: 'a \<Rightarrow> 'a) ^^ (n - 1)) (f x) = (f ^^ max n 1) x"
proof -
  have "max n 1 = Suc (n - 1)" by simp
  then show ?thesis by (simp only: funpow_Suc_right o_apply)
qed

lemma feed_snoc: "feed env (CHR 0x1B # CHR ''['' # decimal n @ [c]) s
    = Write env c (feed env (CHR 0x1B # CHR ''['' # decimal n) s)"
  by (simp add: feed_def)

lemma csi_final:
  assumes "m_State s = StateStart" "\<not> m_bVT52Mode s" "n \<le> 199"
  shows "feed env (CHR 0x1B # CHR ''['' # decimal n @ [c]) s
    = write_number1 env c (s\<lparr>m_State := StateNumber1, m_nParam1 := n, m_nParam2 := 0\<rparr>)"
  unfolding feed_snoc csi_prefix [OF assms] by (simp add: Write_number1)

lemma csi_up:
  assumes p: "m_State s = StateStart" "\<not> m_bVT52Mode s" "n \<le> 199"
    and a: "0 < CharHeight s" "m_nCursorY s = m_nScrollStart s + r * CharHeight s"
  shows "feed env (CHR 0x1B # CHR ''['' # decimal n @ [CHR ''A'']) s =
     s\<lparr>m_nCursorY := m_nScrollStart s + (r - max n 1) * CharHeight s,
       m_State := StateStart, m_nParam1 := n, m_nParam2 := 0\<rparr>"
proof -
  let ?p = "s\<lparr>m_State := StateNumber1, m_nParam1 := n, m_nParam2 := 0\<rparr>"
  have q: "0 < CharHeight ?p" "m_nCursorY ?p = m_nScrollStart ?p + r * CharHeight ?p"
    using a by (simp_all add: CharHeight_def)
  have "feed env (CHR 0x1B # CHR ''['' # decimal n @ [CHR ''A'']) s
      = ((CursorUp ^^ (m_nParam1 ?p - 1)) (CursorUp ?p))\<lparr>m_State := StateStart\<rparr>"
    unfolding csi_final [OF p] by (simp add: write_number1_def)
  also have "m_nParam1 ?p = n" by simp
  also have "(CursorUp ^^ (n - 1)) (CursorUp ?p) = (CursorUp ^^ max n 1) ?p"
    by (rule repeat_count)
  also have "\<dots> = ?p\<lparr>m_nCursorY := m_nScrollStart ?p + (r - max n 1) * CharHeight ?p\<rparr>"
    by (rule funpow_CursorUp [OF q])
  finally show ?thesis by (simp add: CharHeight_def)
qed

lemma csi_down:
  assumes p: "m_State s = StateStart" "\<not> m_bVT52Mode s" "n \<le> 199"
    and a: "m_nCursorY s + max n 1 * CharHeight s < m_nScrollEnd s"
  shows "feed env (CHR 0x1B # CHR ''['' # decimal n @ [CHR ''B'']) s =
     s\<lparr>m_nCursorY := m_nCursorY s + max n 1 * CharHeight s,
       m_State := StateStart, m_nParam1 := n, m_nParam2 := 0\<rparr>"
proof -
  let ?p = "s\<lparr>m_State := StateNumber1, m_nParam1 := n, m_nParam2 := 0\<rparr>"
  have q: "m_nCursorY ?p + max n 1 * CharHeight ?p < m_nScrollEnd ?p"
    using a by (simp add: CharHeight_def)
  have "feed env (CHR 0x1B # CHR ''['' # decimal n @ [CHR ''B'']) s
      = ((CursorDown env ^^ (m_nParam1 ?p - 1)) (CursorDown env ?p))\<lparr>m_State := StateStart\<rparr>"
    unfolding csi_final [OF p] by (simp add: write_number1_def)
  also have "m_nParam1 ?p = n" by simp
  also have "(CursorDown env ^^ (n - 1)) (CursorDown env ?p) = (CursorDown env ^^ max n 1) ?p"
    by (rule repeat_count)
  also have "\<dots> = ?p\<lparr>m_nCursorY := m_nCursorY ?p + max n 1 * CharHeight ?p\<rparr>"
    by (rule funpow_CursorDown [OF q])
  finally show ?thesis by (simp add: CharHeight_def)
qed

lemma csi_right:
  assumes p: "m_State s = StateStart" "\<not> m_bVT52Mode s" "n \<le> 199"
    and a: "m_nCursorX s + max n 1 * CharWidth s < m_nUsedWidth s"
  shows "feed env (CHR 0x1B # CHR ''['' # decimal n @ [CHR ''C'']) s =
     s\<lparr>m_nCursorX := m_nCursorX s + max n 1 * CharWidth s,
       m_State := StateStart, m_nParam1 := n, m_nParam2 := 0\<rparr>"
proof -
  let ?p = "s\<lparr>m_State := StateNumber1, m_nParam1 := n, m_nParam2 := 0\<rparr>"
  have q: "m_nCursorX ?p + max n 1 * CharWidth ?p < m_nUsedWidth ?p"
    using a by (simp add: CharWidth_def)
  have "feed env (CHR 0x1B # CHR ''['' # decimal n @ [CHR ''C'']) s
      = ((CursorRight env ^^ (m_nParam1 ?p - 1)) (CursorRight env ?p))\<lparr>m_State := StateStart\<rparr>"
    unfolding csi_final [OF p] by (simp add: write_number1_def)
  also have "m_nParam1 ?p = n" by simp
  also have "(CursorRight env ^^ (n - 1)) (CursorRight env ?p) = (CursorRight env ^^ max n 1) ?p"
    by (rule repeat_count)
  also have "\<dots> = ?p\<lparr>m_nCursorX := m_nCursorX ?p + max n 1 * CharWidth ?p\<rparr>"
    by (rule funpow_CursorRight [OF q])
  finally show ?thesis by (simp add: CharWidth_def)
qed

lemma csi_left:
  assumes p: "m_State s = StateStart" "\<not> m_bVT52Mode s" "n \<le> 199"
    and a: "0 < CharWidth s" "max n 1 * CharWidth s \<le> m_nCursorX s"
  shows "feed env (CHR 0x1B # CHR ''['' # decimal n @ [CHR ''D'']) s =
     s\<lparr>m_nCursorX := m_nCursorX s - max n 1 * CharWidth s,
       m_State := StateStart, m_nParam1 := n, m_nParam2 := 0\<rparr>"
proof -
  let ?p = "s\<lparr>m_State := StateNumber1, m_nParam1 := n, m_nParam2 := 0\<rparr>"
  have q: "0 < CharWidth ?p" "max n 1 * CharWidth ?p \<le> m_nCursorX ?p"
    using a by (simp_all add: CharWidth_def)
  have "feed env (CHR 0x1B # CHR ''['' # decimal n @ [CHR ''D'']) s
      = ((CursorLeft ^^ (m_nParam1 ?p - 1)) (CursorLeft ?p))\<lparr>m_State := StateStart\<rparr>"
    unfolding csi_final [OF p] by (simp add: write_number1_def)
  also have "m_nParam1 ?p = n" by simp
  also have "(CursorLeft ^^ (n - 1)) (CursorLeft ?p) = (CursorLeft ^^ max n 1) ?p"
    by (rule repeat_count)
  also have "\<dots> = ?p\<lparr>m_nCursorX := m_nCursorX ?p - max n 1 * CharWidth ?p\<rparr>"
    by (rule funpow_CursorLeft [OF q])
  finally show ?thesis by (simp add: CharWidth_def)
qed

lemma decimal_examples: "decimal 1 = [CHR ''1'']" "decimal 2 = [CHR ''2'']"
  by (simp_all add: decimal_def digit_char_def)

lemma csi_right_wraps:
  assumes p: "m_State s = StateStart" "\<not> m_bVT52Mode s"
    and a: "m_nUsedWidth s \<le> m_nCursorX s + CharWidth s" "m_nCursorY s + CharHeight s < m_nScrollEnd s"
  shows "feed env [CHR 0x1B, CHR ''['', CHR ''1'', CHR ''C''] s =
     s\<lparr>m_nCursorX := 0, m_nCursorY := m_nCursorY s + CharHeight s,
       m_State := StateStart, m_nParam1 := 1, m_nParam2 := 0\<rparr>"
proof -
  have "feed env [CHR 0x1B, CHR ''['', CHR ''1'', CHR ''C''] s
      = feed env (CHR 0x1B # CHR ''['' # decimal 1 @ [CHR ''C'']) s"
    unfolding decimal_examples by simp
  also have "\<dots> = write_number1 env (CHR ''C'') (s\<lparr>m_State := StateNumber1, m_nParam1 := 1, m_nParam2 := 0\<rparr>)"
    by (rule csi_final [OF p]) simp
  also have "\<dots> = s\<lparr>m_nCursorX := 0, m_nCursorY := m_nCursorY s + CharHeight s,
       m_State := StateStart, m_nParam1 := 1, m_nParam2 := 0\<rparr>"
    using a
    by (simp add: write_number1_def CursorRight_def NewLine_def CarriageReturn_def CursorDown_def
          Let_def CharWidth_def CharHeight_def)
  finally show ?thesis .
qed

text \<open>
  Claim C1, as amended.  \<^verbatim>\<open>ESC [ n A\<close>, \<^verbatim>\<open>ESC [ n B\<close>, \<^verbatim>\<open>ESC [ n C\<close> and \<^verbatim>\<open>ESC [ n D\<close> with
  a repeat count \<open>n\<close> of at most 199, written in decimal and fed byte by byte, move the
  cursor by \<open>max n 1\<close> cells: up, stopping at the first row of the scroll region; down,
  right and left by exactly that many cells when they remain before the end of the
  scroll region, the used width and column 0.  Then nothing changes but the cursor
  coordinate, the parser state and the two parameters.
\<close>

theorem csi_cursor_motion:
  "m_State s = StateStart \<Longrightarrow> \<not> m_bVT52Mode s \<Longrightarrow> n \<le> 199 \<Longrightarrow>
     (0 < CharHeight s \<and> m_nCursorY s = m_nScrollStart s + r * CharHeight s \<longrightarrow>
        feed env (CHR 0x1B # CHR ''['' # decimal n @ [CHR ''A'']) s =
          s\<lparr>m_nCursorY := m_nScrollStart s + (r - max n 1) * CharHeight s,
            m_State := StateStart, m_nParam1 := n, m_nParam2 := 0\<rparr>)
   \<and> (m_nCursorY s + max n 1 * CharHeight s < m_nScrollEnd s \<longrightarrow>
        feed env (CHR 0x1B # CHR ''['' # decimal n @ [CHR ''B'']) s =
          s\<lparr>m_nCursorY := m_nCursorY s + max n 1 * CharHeight s,
            m_State := StateStart, m_nParam1 := n, m_nParam2 := 0\<rparr>)
   \<and> (m_nCursorX s + max n 1 * CharWidth s < m_nUsedWidth s \<longrightarrow>
        feed env (CHR 0x1B # CHR ''['' # decimal n @ [CHR ''C'']) s =
          s\<lparr>m_nCursorX := m_nCursorX s + max n 1 * CharWidth s,
            m_State := StateStart, m_nParam1 := n, m_nParam2 := 0\<rparr>)
   \<and> (0 < CharWidth s \<and> max n 1 * CharWidth s \<le> m_nCursorX s \<longrightarrow>
        feed env (CHR 0x1B # CHR ''['' # decimal n @ [CHR ''D'']) s =
          s\<lparr>m_nCursorX := m_nCursorX s - max n 1 * CharWidth s,
            m_State := StateStart, m_nParam1 := n, m_nParam2 := 0\<rparr>)"
proof -
  assume p: "m_State s = StateStart" "\<not> m_bVT52Mode s" "n \<le> 199"
  show ?thesis
  proof (intro conjI impI)
    assume "0 < CharHeight s \<and> m_nCursorY s = m_nScrollStart s + r * CharHeight s"
    then show "feed env (CHR 0x1B # CHR ''['' # decimal n @ [CHR ''A'']) s =
          s\<lparr>m_nCursorY := m_nScrollStart s + (r - max n 1) * CharHeight s,
            m_State := StateStart, m_nParam1 := n, m_nParam2 := 0\<rparr>"
      using csi_up [OF p] by blast
  next
    assume "m_nCursorY s + max n 1 * CharHeight s < m_nScrollEnd s"
    then show "feed env (CHR 0x1B # CHR ''['' # decimal n @ [CHR ''B'']) s =
          s\<lparr>m_nCursorY := m_nCursorY s + max n 1 * CharHeight s,
            m_State := StateStart, m_nParam1 := n, m_nParam2 := 0\<rparr>"
      by (rule csi_down [OF p])
  next
    assume "m_nCursorX s + max n 1 * CharWidth s < m_nUsedWidth s"
    then show "feed env (CHR 0x1B # CHR ''['' # decimal n @ [CHR ''C'']) s =
          s\<lparr>m_nCursorX := m_nCursorX s + max n 1 * CharWidth s,
            m_State := StateStart, m_nParam1 := n, m_nParam2 := 0\<rparr>"
      by (rule csi_right [OF p])
  next
    assume "0 < CharWidth s \<and> max n 1 * CharWidth s \<le> m_nCursorX s"
    then show "feed env (CHR 0x1B # CHR ''['' # decimal n @ [CHR ''D'']) s =
          s\<lparr>m_nCursorX := m_nCursorX s - max n 1 * CharWidth s,
            m_State := StateStart, m_nParam1 := n, m_nParam2 := 0\<rparr>"
      using csi_left [OF p] by blast
  qed
qed

lemma example_cell:
  "m_State ((example_renderer 8 8 2 2)\<lparr>m_nCursorX := 2, m_nCursorY := 2\<rparr>) = StateStart"
  "\<not> m_bVT52Mode ((example_renderer 8 8 2 2)\<lparr>m_nCursorX := 2, m_nCursorY := 2\<rparr>)"
  "CharWidth ((example_renderer 8 8 2 2)\<lparr>m_nCursorX := 2, m_nCursorY := 2\<rparr>) = 2"
  "CharHeight ((example_renderer 8 8 2 2)\<lparr>m_nCursorX := 2, m_nCursorY := 2\<rparr>) = 2"
  "m_nCursorX ((example_renderer 8 8 2 2)\<lparr>m_nCursorX := 2, m_nCursorY := 2\<rparr>) = 2"
  "m_nCursorY ((example_renderer 8 8 2 2)\<lparr>m_nCursorX := 2, m_nCursorY := 2\<rparr>) = 2"
  "m_nScrollStart ((example_renderer 8 8 2 2)\<lparr>m_nCursorX := 2, m_nCursorY := 2\<rparr>) = 0"
  "m_nScrollEnd ((example_renderer 8 8 2 2)\<lparr>m_nCursorX := 2, m_nCursorY := 2\<rparr>) = 8"
  "m_nUsedWidth ((example_renderer 8 8 2 2)\<lparr>m_nCursorX := 2, m_nCursorY := 2\<rparr>) = 8"
  by (simp_all add: example_defs CharWidth_def CharHeight_def)

theorem csi_cursor_motion_witness:
  "m_nCursorY (feed example_env [CHR 0x1B, CHR ''['', CHR ''2'', CHR ''A'']
       ((example_renderer 8 8 2 2)\<lparr>m_nCursorX := 2, m_nCursorY := 2\<rparr>)) = 0
   \<and> m_nCursorY (feed example_env [CHR 0x1B, CHR ''['', CHR ''2'', CHR ''B'']
       ((example_renderer 8 8 2 2)\<lparr>m_nCursorX := 2, m_nCursorY := 2\<rparr>)) = 6
   \<and> m_nCursorX (feed example_env [CHR 0x1B, CHR ''['', CHR ''2'', CHR ''C'']
       ((example_renderer 8 8 2 2)\<lparr>m_nCursorX := 2, m_nCursorY := 2\<rparr>)) = 6
   \<and> m_nCursorX (feed example_env [CHR 0x1B, CHR ''['', CHR ''1'', CHR ''D'']
       ((example_renderer 8 8 2 2)\<lparr>m_nCursorX := 2, m_nCursorY := 2\<rparr>)) = 0"
proof -
  let ?S = "(example_renderer 8 8 2 2)\<lparr>m_nCursorX := 2, m_nCursorY := 2\<rparr>"
  note E = example_cell
  note T2 = csi_cursor_motion [OF E(1) E(2), of 2 1 example_env]
  note T1 = csi_cursor_motion [OF E(1) E(2), of 1 1 example_env]
  have up: "0 < CharHeight ?S \<and> m_nCursorY ?S = m_nScrollStart ?S + 1 * CharHeight ?S"
    unfolding E by simp
  have down: "m_nCursorY ?S + max 2 1 * CharHeight ?S < m_nScrollEnd ?S"
    unfolding E by simp
  have right: "m_nCursorX ?S + max 2 1 * CharWidth ?S < m_nUsedWidth ?S"
    unfolding E by simp
  have left: "0 < CharWidth ?S \<and> max 1 1 * CharWidth ?S \<le> m_nCursorX ?S"
    unfolding E by simp
  have a: "m_nCursorY (feed example_env [CHR 0x1B, CHR ''['', CHR ''2'', CHR ''A''] ?S) = 0"
    using T2 [THEN conjunct1, THEN mp, OF _ up] unfolding E decimal_examples by simp
  have b: "m_nCursorY (feed example_env [CHR 0x1B, CHR ''['', CHR ''2'', CHR ''B''] ?S) = 6"
    using T2 [THEN conjunct2, THEN conjunct1, THEN mp, OF _ down] unfolding E decimal_examples by simp
  have c: "m_nCursorX (feed example_env [CHR 0x1B, CHR ''['', CHR ''2'', CHR ''C''] ?S) = 6"
    using T2 [THEN conjunct2, THEN conjunct2, THEN conjunct1, THEN mp, OF _ right]
    unfolding E decimal_examples by simp
  have d: "m_nCursorX (feed example_env [CHR 0x1B, CHR ''['', CHR ''1'', CHR ''D''] ?S) = 0"
    using T1 [THEN conjunct2, THEN conjunct2, THEN conjunct2, THEN mp, OF _ left]
    unfolding E decimal_examples by simp
  show ?thesis by (intro conjI a b c d)
qed

text \<open>
  Claim C1 as stated fails: with the cursor in the last column of the first row,
  \<^verbatim>\<open>ESC [ 1 C\<close> puts it in column 0 of the second row; it is not held at the boundary.
\<close>

theorem csi_cursor_motion_counterexample:
  "m_nCursorX ((example_renderer 8 6 2 2)\<lparr>m_nCursorX := 6\<rparr>) = 6
   \<and> m_nCursorY ((example_renderer 8 6 2 2)\<lparr>m_nCursorX := 6\<rparr>) = 0
   \<and> m_nCursorX (feed example_env [CHR 0x1B, CHR ''['', CHR ''1'', CHR ''C'']
        ((example_renderer 8 6 2 2)\<lparr>m_nCursorX := 6\<rparr>)) = 0
   \<and> m_nCursorY (feed example_env [CHR 0x1B, CHR ''['', CHR ''1'', CHR ''C'']
        ((example_renderer 8 6 2 2)\<lparr>m_nCursorX := 6\<rparr>)) = 2"
proof -
  let ?S = "(example_renderer 8 6 2 2)\<lparr>m_nCursorX := 6\<rparr>"
  have e: "m_State ?S = StateStart" "\<not> m_bVT52Mode ?S"
    "m_nUsedWidth ?S \<le> m_nCursorX ?S + CharWidth ?S" "m_nCursorY ?S + CharHeight ?S < m_nScrollEnd ?S"
    by (simp_all add: example_defs CharWidth_def CharHeight_def)
  have f: "m_nCursorX ?S = 6" "m_nCursorY ?S = 0" "CharHeight ?S = 2"
    by (simp_all add: example_defs CharHeight_def)
  have x: "m_nCursorX (feed example_env [CHR 0x1B, CHR ''['', CHR ''1'', CHR ''C''] ?S) = 0"
    unfolding csi_right_wraps [OF e] by simp
  have y: "m_nCursorY (feed example_env [CHR 0x1B, CHR ''['', CHR ''1'', CHR ''C''] ?S) = 2"
    unfolding csi_right_wraps [OF e] using f by simp
  show ?thesis by (intro conjI f(1) f(2) x y)
qed

section \<open>Clearing the display and homing the cursor\<close>






lemma load_pattern_4:
  "(ucast (ucast (c :: 32 word) :: 8 word) :: 32 word)
     OR push_bit 8 (ucast (ucast (drop_bit 8 c) :: 8 word)
     OR push_bit 8 (ucast (ucast (drop_bit 16 c) :: 8 word)
     OR push_bit 8 (ucast (ucast (drop_bit 24 c) :: 8 word)))) = c"
  apply (rule bit_word_eqI)
  subgoal for n
    apply (cases "n < 8"; cases "n < 16"; cases "n < 24")
           apply (auto simp add: bit_simps)
    done
  done








lemma pixel_index_inj:
  assumes "x < w" "x' < w" "w * y + x = w * y' + (x' :: nat)"
  shows "x = x' \<and> y = y'"
proof -
  have "(w * y + x) mod w = x" "(w * y' + x') mod w = x'" using assms(1,2) by simp_all
  then have x: "x = x'" using assms(3) by simp
  have "(w * y + x) div w = y" "(w * y' + x') div w = y'" using assms(1,2) by simp_all
  then have "y = y'" using assms(3) by simp
  with x show ?thesis by simp
qed

lemma length_le_bytes [simp]: "length (le_bytes k c) = k"
  by (simp add: le_bytes_def)

lemma length_set_raw [simp]: "length (set_raw d w b x y c) = length b"
  by (simp add: set_raw_def Let_def)

































end
